theory Spec2Isabelle
  imports Main "HOL-Library.AList" "HOL-Library.Multiset" "HOL-Library.List_Lexorder"
begin

section \<open>JavaScript strings\<close>

text \<open>
  The indexer (class \<open>PhpIndexer\<close> of \<open>src/main.js\<close>) works on JavaScript strings:
  sequences of UTF-16 code units. A code unit is a natural number here, so that the
  byte-order mark \<open>0xFEFF\<close> and the Unicode white space of the regular expression
  \<open>\s\<close> are values of the type. \<open>str\<close> turns an ASCII literal into such a string.
\<close>

type_synonym jschar = nat
type_synonym jsstring = "nat list"

definition str :: "string \<Rightarrow> jsstring" where
  "str s = map of_char s"

text \<open>
  \<open>String.prototype.toLowerCase\<close> applies the case mapping of the Unicode tables of
  the host. Where the code lower-cases a string that can hold any code unit, the name
  of an item or the prefix of a completion query, the method is a parameter \<open>lower\<close>
  of the definition, and nothing is assumed about it. \<open>toLowerCase\<close> below is the
  method on strings of ASCII code units, where it maps \<open>A\<close> to \<open>Z\<close> onto \<open>a\<close> to
  \<open>z\<close> and leaves every other code unit as it is. It stands for the method in the
  lexer, whose argument is an identifier matched by \<open>[a-zA-Z_][a-zA-Z0-9_]*\<close>, in the
  parser, whose argument is the keyword token \<open>class\<close>, \<open>interface\<close> or \<open>trait\<close> or
  is compared with the word \<open>as\<close> (no code unit outside ASCII is mapped to \<open>a\<close> or
  \<open>s\<close>), and in the examples, whose strings are ASCII.
\<close>

definition lowerChar :: "jschar \<Rightarrow> jschar" where
  "lowerChar c = (if 65 \<le> c \<and> c \<le> 90 then c + 32 else c)"

definition toLowerCase :: "jsstring \<Rightarrow> jsstring" where
  "toLowerCase s = map lowerChar s"

text \<open>\<open>s.startsWith(p)\<close> and \<open>s.includes(p)\<close>.\<close>

definition startsWith :: "jsstring \<Rightarrow> jsstring \<Rightarrow> bool" where
  "startsWith s p = (take (length p) s = p)"

fun includes_str :: "jsstring \<Rightarrow> jsstring \<Rightarrow> bool" where
  "includes_str [] p = (p = [])"
| "includes_str (c # s) p = (startsWith (c # s) p \<or> includes_str s p)"

section \<open>Declarations held by the index\<close>

text \<open>
  The strings of a JavaScript \<open>Set\<close> of modifiers: \<open>'public'\<close>, \<open>'protected'\<close>,
  \<open>'private'\<close>, \<open>'static'\<close>, \<open>'abstract'\<close>, \<open>'final'\<close> and \<open>'const'\<close>.
\<close>

datatype modifier = Public | Protected | Private | Static | Abstract | Final | Const

text \<open>
  A parsed PHPDoc block (\<open>parseDocComment\<close>): the summary line, the description and
  the tags, each tag name with the list of its values in the order they were written.
\<close>

record docComment =
  dc_summary :: jsstring
  dc_description :: jsstring
  dc_tags :: "(jsstring \<times> jsstring list) list"

record parameter =
  pm_name :: jsstring
  pm_type :: "jsstring option"
  pm_defaultValue :: "jsstring option"
  pm_isReference :: bool
  pm_isVariadic :: bool

text \<open>
  The declaration objects that the parser builds. A JavaScript \<open>Map\<close> is an association
  list in insertion order: \<open>has\<close> and \<open>get\<close> are \<open>map_of\<close>, \<open>set\<close> is
  \<open>AList.update\<close> (an existing key keeps its place, a new key goes to the end), and
  iteration follows the list. The field \<open>inherited\<close> is absent from the objects the
  parser builds, hence false, and is set by \<open>resolveInheritance\<close> only; the same
  holds for \<open>inheritanceResolved\<close>. The constructor sets \<open>currentFile\<close> to
  \<open>null\<close>; \<open>processPhpFile\<close> overwrites it with the path before any token is
  parsed, so the \<open>file\<close> of a declaration is a string.
\<close>

record functionDefinition =
  fn_name :: jsstring
  fn_modifiers :: "modifier set"
  fn_parameters :: "parameter list"
  fn_returnType :: "jsstring option"
  fn_docComment :: "docComment option"
  fn_file :: jsstring
  fn_line :: nat
  fn_isMethod :: bool
  fn_class :: "jsstring option"
  fn_inherited :: bool

text \<open>
  No statement of the source assigns the field \<open>type\<close> of a property, which
  \<open>getStaticMethodCompletions\<close> compares with \<open>PROPERTY_CONST\<close>; \<open>pr_type\<close> is
  \<open>None\<close> for \<open>undefined\<close>.
\<close>

record propertyDefinition =
  pr_name :: jsstring
  pr_modifiers :: "modifier set"
  pr_defaultValue :: "jsstring option"
  pr_file :: jsstring
  pr_line :: nat
  pr_docComment :: "docComment option"
  pr_type :: "nat option"
  pr_inherited :: bool

record constantDefinition =
  ct_name :: jsstring
  ct_value :: jsstring
  ct_modifiers :: "modifier set"
  ct_file :: jsstring
  ct_line :: nat
  ct_docComment :: "docComment option"

record classDefinition =
  cd_name :: jsstring
  cd_fullName :: jsstring
  cd_namespace :: jsstring
  cd_type :: jsstring
  cd_modifiers :: "modifier set"
  cd_extends :: "jsstring list"
  cd_implements :: "jsstring list"
  cd_methods :: "(jsstring \<times> functionDefinition) list"
  cd_properties :: "(jsstring \<times> propertyDefinition) list"
  cd_constants :: "(jsstring \<times> constantDefinition) list"
  cd_file :: jsstring
  cd_docComment :: "docComment option"
  cd_line :: nat
  cd_inheritanceResolved :: bool

text \<open>
  A class object is shared: the map \<open>classes\<close>, the map \<open>classes\<close> of its file and
  \<open>currentClass\<close> hold references to the same object, which the parser and the
  resolver update in place. The store \<open>ix_heap\<close> maps an address to the object;
  \<open>ix_nextAddr\<close> is the first address not yet given out. The objects of the other
  kinds are never changed after they are built and are held by value.
  \<open>lastModified\<close> of a file record (the wall clock) is left out.
\<close>

record fileData =
  fd_path :: jsstring
  fd_namespace :: jsstring
  fd_uses :: "(jsstring \<times> jsstring) list"
  fd_classes :: "(jsstring \<times> nat) list"
  fd_functions :: "(jsstring \<times> functionDefinition) list"

record indexer =
  ix_heap :: "nat \<Rightarrow> classDefinition"
  ix_nextAddr :: nat
  ix_classes :: "(jsstring \<times> nat) list"
  ix_interfaces :: "(jsstring \<times> nat) list"
  ix_traits :: "(jsstring \<times> nat) list"
  ix_functions :: "(jsstring \<times> functionDefinition) list"
  ix_namespaces :: "(jsstring \<times> jsstring list) list"
  ix_uses :: "(jsstring \<times> (jsstring \<times> jsstring) list) list"
  ix_fileIndex :: "(jsstring \<times> fileData) list"
  ix_done :: "jsstring set"
  ix_currentFile :: jsstring
  ix_currentNamespace :: jsstring
  ix_currentClass :: "nat option"
  ix_lastDocComment :: "docComment option"
  ix_totalFiles :: nat
  ix_processedFiles :: nat

section \<open>Scoring and ranking of completion items\<close>

text \<open>
  A completion item, as the query operations build it. The field \<open>value\<close> of the
  source is \<open>ci_value\<close>; \<open>snippet\<close> is present on class items only.
\<close>

record completion =
  ci_caption :: jsstring
  ci_value :: jsstring
  ci_meta :: jsstring
  ci_score :: int
  ci_docText :: jsstring
  ci_snippet :: "jsstring option"

definition commonMethods :: "jsstring list" where
  "commonMethods =
     [str ''__construct'', str ''getName'', str ''getId'', str ''toString'', str ''getValue'']"

text \<open>
  \<open>calculateScore(itemName, prefix, data = {})\<close>. The third argument is
  \<open>data.modifiers\<close>: \<open>None\<close> when the data object has no modifier set (the default
  \<open>{}\<close>, or a namespace), so that \<open>data.modifiers && data.modifiers.has('public')\<close>
  is false. The assignments to \<open>score\<close> are the successive bindings of the \<open>let\<close>.
  The first argument is \<open>String.prototype.toLowerCase\<close> of the host.
\<close>

definition calculateScore ::
  "(jsstring \<Rightarrow> jsstring) \<Rightarrow> jsstring \<Rightarrow> jsstring \<Rightarrow> modifier set option \<Rightarrow> int" where
  "calculateScore lower itemName prefix modifiers =
     (let score = 1000;
          lowerItem = lower itemName;
          lowerPrefix = lower prefix;
          score = (if lowerItem = lowerPrefix then score + 500
                   else if startsWith lowerItem lowerPrefix then score + 300
                   else if includes_str lowerItem lowerPrefix then score + 100
                   else score);
          score = (if (case modifiers of None \<Rightarrow> False | Some ms \<Rightarrow> Public \<in> ms)
                   then score + 50 else score);
          score = (if itemName \<in> set commonMethods then score + 25 else score)
      in score)"

text \<open>
  The score as the specification words it: the third alternative tests whether the
  name, as it is written, contains the prefix.
\<close>

definition score_as_specified ::
  "(jsstring \<Rightarrow> jsstring) \<Rightarrow> jsstring \<Rightarrow> jsstring \<Rightarrow> modifier set option \<Rightarrow> int" where
  "score_as_specified lower name prefix modifiers =
     1000
     + (if lower name = lower prefix then 500
        else if startsWith (lower name) (lower prefix) then 300
        else if includes_str name prefix then 100 else 0)
     + (if (\<exists>ms. modifiers = Some ms \<and> Public \<in> ms) then 50 else 0)
     + (if name \<in> {str ''__construct'', str ''getName'', str ''getId'', str ''toString'',
                    str ''getValue''} then 25 else 0)"

text \<open>
  The comparison function that \<open>sortCompletions\<close> hands to \<open>Array.prototype.sort\<close>.
  \<open>String.prototype.localeCompare\<close> depends on the collation of the host; it is the
  parameter \<open>lc\<close>. A negative result puts \<open>a\<close> first.
\<close>

definition compareCompletions ::
  "(jsstring \<Rightarrow> jsstring \<Rightarrow> int) \<Rightarrow> completion \<Rightarrow> completion \<Rightarrow> int" where
  "compareCompletions lc a b =
     (if ci_score a \<noteq> ci_score b then ci_score b - ci_score a
      else if length (ci_caption a) \<noteq> length (ci_caption b)
        then int (length (ci_caption a)) - int (length (ci_caption b))
      else lc (ci_caption a) (ci_caption b))"

text \<open>
  \<open>Array.prototype.sort\<close> is stable (ECMAScript 2019): elements that compare equal keep
  their order. It is modelled by a stable insertion sort; the algorithm of the host is
  not observable through a consistent comparison function.
\<close>

fun insertBy :: "('a \<Rightarrow> 'a \<Rightarrow> int) \<Rightarrow> 'a \<Rightarrow> 'a list \<Rightarrow> 'a list" where
  "insertBy cmp x [] = [x]"
| "insertBy cmp x (y # ys) = (if cmp x y \<le> 0 then x # y # ys else y # insertBy cmp x ys)"

definition array_sort :: "('a \<Rightarrow> 'a \<Rightarrow> int) \<Rightarrow> 'a list \<Rightarrow> 'a list" where
  "array_sort cmp xs = foldr (insertBy cmp) xs []"

definition sortCompletions ::
  "(jsstring \<Rightarrow> jsstring \<Rightarrow> int) \<Rightarrow> completion list \<Rightarrow> jsstring \<Rightarrow> completion list" where
  "sortCompletions lc completions prefix = array_sort (compareCompletions lc) completions"

text \<open>
  The order the specification gives: a higher score first, then the shorter caption,
  then the caption that \<open>lc\<close> does not put after the other.
\<close>

definition rankedBefore :: "(jsstring \<Rightarrow> jsstring \<Rightarrow> int) \<Rightarrow> completion \<Rightarrow> completion \<Rightarrow> bool" where
  "rankedBefore lc a b =
     (ci_score b < ci_score a
      \<or> (ci_score a = ci_score b
          \<and> (length (ci_caption a) < length (ci_caption b)
              \<or> (length (ci_caption a) = length (ci_caption b)
                  \<and> lc (ci_caption a) (ci_caption b) \<le> 0))))"

text \<open>
  A collation for examples: the order of the code units, as \<open>localeCompare\<close> gives it
  for strings of lower-case ASCII letters.
\<close>

definition codeUnitCompare :: "jsstring \<Rightarrow> jsstring \<Rightarrow> int" where
  "codeUnitCompare a b = (if a < b then - 1 else if a = b then 0 else 1)"

text \<open>
  The item that a query builds for a candidate name, scored by \<open>calculateScore\<close>.
  The candidates of the examples are ASCII strings.
\<close>

definition scoredItem :: "jsstring \<Rightarrow> jsstring \<Rightarrow> completion" where
  "scoredItem prefix name =
     \<lparr>ci_caption = name, ci_value = name, ci_meta = str ''class'',
      ci_score = calculateScore toLowerCase name prefix None, ci_docText = name,
      ci_snippet = None\<rparr>"

section \<open>Name resolution and inheritance\<close>

text \<open>\<open>normalizeFilePath\<close>: every backslash (code unit 92) becomes a slash (47).\<close>

definition normalizeFilePath :: "jsstring \<Rightarrow> jsstring" where
  "normalizeFilePath filePath = map (\<lambda>c. if c = 92 then 47 else c) filePath"

text \<open>
  \<open>resolveClassName(className, context)\<close>. The context is the class object whose parent
  is looked for; its fields \<open>namespace\<close> and \<open>file\<close> are read. The result is the
  address of the class object found, \<open>None\<close> for \<open>null\<close>.
\<close>

definition resolveClassName :: "indexer \<Rightarrow> jsstring \<Rightarrow> classDefinition \<Rightarrow> nat option" where
  "resolveClassName idx className context =
     (case map_of (ix_classes idx) className of
        Some a \<Rightarrow> Some a
      | None \<Rightarrow>
          (case (if cd_namespace context \<noteq> []
                 then map_of (ix_classes idx) (cd_namespace context @ [92] @ className)
                 else None) of
             Some a \<Rightarrow> Some a
           | None \<Rightarrow>
               (case map_of (ix_fileIndex idx) (normalizeFilePath (cd_file context)) of
                  None \<Rightarrow> None
                | Some fileData \<Rightarrow>
                    (case map_of (fd_uses fileData) className of
                       None \<Rightarrow> None
                     | Some fullName \<Rightarrow> map_of (ix_classes idx) fullName))))"

text \<open>The three steps, as the specification words them.\<close>

definition exactMatch :: "indexer \<Rightarrow> jsstring \<Rightarrow> nat option" where
  "exactMatch idx name = map_of (ix_classes idx) name"

definition namespaceMatch :: "indexer \<Rightarrow> jsstring \<Rightarrow> classDefinition \<Rightarrow> nat option" where
  "namespaceMatch idx name context =
     (if cd_namespace context = [] then None
      else map_of (ix_classes idx) (cd_namespace context @ [92] @ name))"

definition aliasMatch :: "indexer \<Rightarrow> jsstring \<Rightarrow> classDefinition \<Rightarrow> nat option" where
  "aliasMatch idx name context =
     (case map_of (ix_fileIndex idx) (normalizeFilePath (cd_file context)) of
        None \<Rightarrow> None
      | Some fileData \<Rightarrow>
          (case map_of (fd_uses fileData) name of
             None \<Rightarrow> None
           | Some target \<Rightarrow> map_of (ix_classes idx) target))"

text \<open>
  The two loops in the body of \<open>resolveInheritance\<close> that copy the members of the
  parent: a member is copied, with \<open>inherited: true\<close>, when the child's map has no
  entry of that name and the member is public or protected.
\<close>

definition inheritMethods ::
  "(jsstring \<times> functionDefinition) list \<Rightarrow> (jsstring \<times> functionDefinition) list
   \<Rightarrow> (jsstring \<times> functionDefinition) list" where
  "inheritMethods childMethods parentMethods =
     foldl (\<lambda>methods (methodName, methodData).
              if map_of methods methodName = None
                 \<and> (Public \<in> fn_modifiers methodData \<or> Protected \<in> fn_modifiers methodData)
              then AList.update methodName (methodData\<lparr>fn_inherited := True\<rparr>) methods
              else methods)
       childMethods parentMethods"

definition inheritProperties ::
  "(jsstring \<times> propertyDefinition) list \<Rightarrow> (jsstring \<times> propertyDefinition) list
   \<Rightarrow> (jsstring \<times> propertyDefinition) list" where
  "inheritProperties childProperties parentProperties =
     foldl (\<lambda>properties (propName, propData).
              if map_of properties propName = None
                 \<and> (Public \<in> pr_modifiers propData \<or> Protected \<in> pr_modifiers propData)
              then AList.update propName (propData\<lparr>pr_inherited := True\<rparr>) properties
              else properties)
       childProperties parentProperties"

definition inheritFrom :: "indexer \<Rightarrow> nat \<Rightarrow> nat \<Rightarrow> indexer" where
  "inheritFrom idx classData parentClass =
     (let methods = inheritMethods (cd_methods (ix_heap idx classData))
                      (cd_methods (ix_heap idx parentClass));
          properties = inheritProperties (cd_properties (ix_heap idx classData))
                         (cd_properties (ix_heap idx parentClass))
      in idx\<lparr>ix_heap := (ix_heap idx)
               (classData := (ix_heap idx classData)
                  \<lparr>cd_methods := methods, cd_properties := properties\<rparr>)\<rparr>)"

text \<open>
  \<open>resolveInheritance\<close> calls itself on the parent before it copies. The host runs
  it on a call stack of bounded depth and throws a \<open>RangeError\<close> when the stack is
  full. The first argument is the number of nested calls that the stack still holds;
  the error carries the index as it is when the call is refused. \<open>resolveParents\<close> is
  the loop over \<open>classData.extends\<close>.
\<close>

datatype error = RangeError indexer

fun resolveInheritance :: "nat \<Rightarrow> indexer \<Rightarrow> nat \<Rightarrow> error + indexer"
  and resolveParents :: "nat \<Rightarrow> indexer \<Rightarrow> nat \<Rightarrow> jsstring list \<Rightarrow> error + indexer" where
  "resolveInheritance 0 idx classData = Inl (RangeError idx)"
| "resolveInheritance (Suc depth) idx classData =
     (if cd_inheritanceResolved (ix_heap idx classData) then Inr idx
      else
        (case resolveParents depth idx classData (cd_extends (ix_heap idx classData)) of
           Inl e \<Rightarrow> Inl e
         | Inr idx' \<Rightarrow>
             Inr (idx'\<lparr>ix_heap := (ix_heap idx')
                    (classData := (ix_heap idx' classData)\<lparr>cd_inheritanceResolved := True\<rparr>)\<rparr>)))"
| "resolveParents depth idx classData [] = Inr idx"
| "resolveParents depth idx classData (parentName # rest) =
     (case resolveClassName idx parentName (ix_heap idx classData) of
        None \<Rightarrow> resolveParents depth idx classData rest
      | Some parentClass \<Rightarrow>
          (case resolveInheritance depth idx parentClass of
             Inl e \<Rightarrow> Inl e
           | Inr idx' \<Rightarrow>
               resolveParents depth (inheritFrom idx' classData parentClass) classData rest))"

text \<open>
  \<open>postProcessIndex\<close>: \<open>resolveInheritance\<close> for every value of the map \<open>classes\<close>, in
  insertion order; \<open>buildCompletionCaches\<close> has an empty body.
\<close>

fun resolveAll :: "nat \<Rightarrow> indexer \<Rightarrow> nat list \<Rightarrow> error + indexer" where
  "resolveAll depth idx [] = Inr idx"
| "resolveAll depth idx (classData # rest) =
     (case resolveInheritance depth idx classData of
        Inl e \<Rightarrow> Inl e
      | Inr idx' \<Rightarrow> resolveAll depth idx' rest)"

definition postProcessIndex :: "nat \<Rightarrow> indexer \<Rightarrow> error + indexer" where
  "postProcessIndex depth idx = resolveAll depth idx (map snd (ix_classes idx))"


text \<open>
  The constructor of \<open>PhpIndexer\<close>: empty maps and no class object in the store. An
  address that has not been given out holds \<open>blankClass\<close>. The fields
  \<open>currentFunction\<close> (always \<open>null\<close>) and \<open>onProgress\<close> (a callback of the host)
  are left out.
\<close>

definition blankClass :: classDefinition where
  "blankClass =
     \<lparr>cd_name = [], cd_fullName = [], cd_namespace = [], cd_type = [], cd_modifiers = {},
      cd_extends = [], cd_implements = [], cd_methods = [], cd_properties = [],
      cd_constants = [], cd_file = [], cd_docComment = None, cd_line = 0,
      cd_inheritanceResolved = False\<rparr>"

definition newIndexer :: indexer where
  "newIndexer =
     \<lparr>ix_heap = (\<lambda>a. blankClass), ix_nextAddr = 0, ix_classes = [], ix_interfaces = [],
      ix_traits = [], ix_functions = [], ix_namespaces = [], ix_uses = [], ix_fileIndex = [],
      ix_done = {}, ix_currentFile = [], ix_currentNamespace = [], ix_currentClass = None,
      ix_lastDocComment = None, ix_totalFiles = 0, ix_processedFiles = 0\<rparr>"


section \<open>The lexer\<close>

datatype token_type =
    T_OPEN_TAG | T_NAMESPACE | T_USE | T_CLASS | T_INTERFACE | T_TRAIT | T_FUNCTION
  | T_VARIABLE | T_CONST | T_PUBLIC | T_PROTECTED | T_PRIVATE | T_STATIC | T_ABSTRACT
  | T_FINAL | T_EXTENDS | T_IMPLEMENTS | T_STRING | T_WHITESPACE | T_COMMENT
  | T_DOC_COMMENT | T_CHAR

text \<open>
  A token. The field \<open>value\<close> of the source is \<open>tk_value\<close>; the type that the
  source writes \<open>'CHAR'\<close> is \<open>T_CHAR\<close>.
\<close>

record token =
  tk_type :: token_type
  tk_value :: jsstring
  tk_line :: nat
  tk_column :: nat

text \<open>
  The character classes of the regular expressions in \<open>tokenize\<close>: \<open>\s\<close> (the white
  space and line terminators of ECMAScript, the byte-order mark \<open>0xFEFF\<close> among
  them), \<open>[a-zA-Z0-9_]\<close>, \<open>[a-zA-Z_]\<close> and \<open>[a-zA-Z0-9_\\]\<close>.
\<close>

definition isWhitespace :: "jschar \<Rightarrow> bool" where
  "isWhitespace c =
     (c \<in> {9, 10, 11, 12, 13, 32, 160, 5760, 8232, 8233, 8239, 8287, 12288, 65279}
      \<or> (8192 \<le> c \<and> c \<le> 8202))"

definition isWordChar :: "jschar \<Rightarrow> bool" where
  "isWordChar c = ((97 \<le> c \<and> c \<le> 122) \<or> (65 \<le> c \<and> c \<le> 90) \<or> (48 \<le> c \<and> c \<le> 57) \<or> c = 95)"

definition isIdentStart :: "jschar \<Rightarrow> bool" where
  "isIdentStart c = ((97 \<le> c \<and> c \<le> 122) \<or> (65 \<le> c \<and> c \<le> 90) \<or> c = 95)"

definition isIdentChar :: "jschar \<Rightarrow> bool" where
  "isIdentChar c = (isWordChar c \<or> c = 92)"

text \<open>
  \<open>content.substr(i, n)\<close> and \<open>content.substring(a, b)\<close>. Every call of \<open>substring\<close>
  in the source has \<open>a \<le> b\<close>, so the exchange of the arguments that JavaScript makes
  otherwise never happens.
\<close>

definition substr :: "jsstring \<Rightarrow> nat \<Rightarrow> nat \<Rightarrow> jsstring" where
  "substr s i n = take n (drop i s)"

definition substring :: "jsstring \<Rightarrow> nat \<Rightarrow> nat \<Rightarrow> jsstring" where
  "substring s a b = take (b - a) (drop a s)"

text \<open>
  The inner loops. \<open>scanWhile P\<close> is \<open>while (i < content.length && P(content[i])) i++\<close>:
  the loop of a line comment (up to the line feed, code unit 10), of a variable name
  and of an identifier. The parser has loops of the same form over the array of tokens.
\<close>

function scanWhile :: "('a \<Rightarrow> bool) \<Rightarrow> 'a list \<Rightarrow> nat \<Rightarrow> nat" where
  "scanWhile P content i =
     (if i < length content \<and> P (content ! i) then scanWhile P content (Suc i) else i)"
  by pat_completeness auto
termination
  by (relation "measure (\<lambda>(P, content, i). length content - i)") auto

declare scanWhile.simps [simp del]

text \<open>
  The loop of a block comment, entered after the opening \<open>/*\<close>; it carries \<open>i\<close>,
  \<open>line\<close> and \<open>column\<close>.
\<close>

function scanBlockComment :: "jsstring \<Rightarrow> nat \<times> nat \<times> nat \<Rightarrow> nat \<times> nat \<times> nat" where
  "scanBlockComment content (i, line, column) =
     (if i < length content - 1 then
        (if substr content i 2 = str ''*/'' then (i + 2, line, column)
         else if content ! i = 10 then scanBlockComment content (Suc i, Suc line, 1)
         else scanBlockComment content (Suc i, line, column))
      else (i, line, column))"
  by pat_completeness auto
termination
  by (relation "measure (\<lambda>(content, i, line, column). length content - i)") auto

declare scanBlockComment.simps [simp del]

text \<open>
  The loop of a quoted string, entered after the opening quote: it ends after a quote
  that the code unit before it is not a backslash (92).
\<close>

function scanString :: "jsstring \<Rightarrow> jschar \<Rightarrow> nat \<Rightarrow> nat" where
  "scanString content quote i =
     (if i < length content then
        (if content ! i = quote \<and> content ! (i - 1) \<noteq> 92 then Suc i
         else scanString content quote (Suc i))
      else i)"
  by pat_completeness auto
termination
  by (relation "measure (\<lambda>(content, quote, i). length content - i)") auto

declare scanString.simps [simp del]

text \<open>The \<open>switch\<close> on the lower-cased identifier.\<close>

definition keywordType :: "jsstring \<Rightarrow> token_type" where
  "keywordType lowerValue =
     (if lowerValue = str ''namespace'' then T_NAMESPACE
      else if lowerValue = str ''use'' then T_USE
      else if lowerValue = str ''class'' then T_CLASS
      else if lowerValue = str ''interface'' then T_INTERFACE
      else if lowerValue = str ''trait'' then T_TRAIT
      else if lowerValue = str ''function'' then T_FUNCTION
      else if lowerValue = str ''const'' then T_CONST
      else if lowerValue = str ''public'' then T_PUBLIC
      else if lowerValue = str ''protected'' then T_PROTECTED
      else if lowerValue = str ''private'' then T_PRIVATE
      else if lowerValue = str ''static'' then T_STATIC
      else if lowerValue = str ''abstract'' then T_ABSTRACT
      else if lowerValue = str ''final'' then T_FINAL
      else if lowerValue = str ''extends'' then T_EXTENDS
      else if lowerValue = str ''implements'' then T_IMPLEMENTS
      else T_STRING)"

text \<open>
  The variables of the outer loop of \<open>tokenize\<close>, and one pass through its body at
  a position \<open>i < content.length\<close>. Code units: 10 line feed, 34 and 39 the two
  quotes, 36 the dollar sign.
\<close>

record lexer =
  lx_i :: nat
  lx_line :: nat
  lx_column :: nat
  lx_tokens :: "token list"

definition tokenizeStep :: "jsstring \<Rightarrow> lexer \<Rightarrow> lexer" where
  "tokenizeStep content s =
     (let i = lx_i s;
          char = content ! i;
          line = (if char = 10 then lx_line s + 1 else lx_line s);
          column = (if char = 10 then 1 else lx_column s + 1);
          tokens = lx_tokens s
      in
        if isWhitespace char then
          \<lparr>lx_i = i + 1, lx_line = line, lx_column = column, lx_tokens = tokens\<rparr>
        else if substr content i 5 = str ''<?php'' then
          \<lparr>lx_i = i + 5, lx_line = line, lx_column = column,
           lx_tokens = tokens @ [\<lparr>tk_type = T_OPEN_TAG, tk_value = str ''<?php'',
                                    tk_line = line, tk_column = column\<rparr>]\<rparr>
        else if substr content i 2 = str ''//'' \<or> substr content i 1 = str ''#'' then
          (let start = i;
               i = scanWhile (\<lambda>c. c \<noteq> 10) content i
           in \<lparr>lx_i = i, lx_line = line, lx_column = column,
               lx_tokens = tokens @ [\<lparr>tk_type = T_COMMENT,
                                        tk_value = substring content start i,
                                        tk_line = line, tk_column = column\<rparr>]\<rparr>)
        else if substr content i 2 = str ''/*'' then
          (let start = i;
               isDocComment = (substr content i 3 = str ''/**'')
           in case scanBlockComment content (i + 2, line, column) of
                (i, line, column) \<Rightarrow>
                  \<lparr>lx_i = i, lx_line = line, lx_column = column,
                   lx_tokens = tokens @ [\<lparr>tk_type = (if isDocComment then T_DOC_COMMENT
                                                        else T_COMMENT),
                                            tk_value = substring content start i,
                                            tk_line = line, tk_column = column\<rparr>]\<rparr>)
        else if char = 34 \<or> char = 39 then
          (let quote = char;
               start = i;
               i = scanString content quote (i + 1)
           in \<lparr>lx_i = i, lx_line = line, lx_column = column,
               lx_tokens = tokens @ [\<lparr>tk_type = T_STRING,
                                        tk_value = substring content start i,
                                        tk_line = line, tk_column = column\<rparr>]\<rparr>)
        else if char = 36 then
          (let start = i;
               i = scanWhile isWordChar content (i + 1)
           in \<lparr>lx_i = i, lx_line = line, lx_column = column,
               lx_tokens = tokens @ [\<lparr>tk_type = T_VARIABLE,
                                        tk_value = substring content start i,
                                        tk_line = line, tk_column = column\<rparr>]\<rparr>)
        else if isIdentStart char then
          (let start = i;
               i = scanWhile isIdentChar content i;
               val = substring content start i;
               lowerValue = toLowerCase val
           in \<lparr>lx_i = i, lx_line = line, lx_column = column,
               lx_tokens = tokens @ [\<lparr>tk_type = keywordType lowerValue, tk_value = val,
                                        tk_line = line, tk_column = column\<rparr>]\<rparr>)
        else
          \<lparr>lx_i = i + 1, lx_line = line, lx_column = column,
           lx_tokens = tokens @ [\<lparr>tk_type = T_CHAR, tk_value = [char],
                                    tk_line = line, tk_column = column\<rparr>]\<rparr>)"

text \<open>
  No rule but the last one applies at position \<open>i\<close>: the character there is not white
  space and starts no open tag, comment, string, variable or identifier.
\<close>

definition noRuleMatches :: "jsstring \<Rightarrow> nat \<Rightarrow> bool" where
  "noRuleMatches content i =
     (\<not> isWhitespace (content ! i) \<and> substr content i 5 \<noteq> str ''<?php''
      \<and> substr content i 2 \<noteq> str ''//'' \<and> substr content i 1 \<noteq> str ''#''
      \<and> substr content i 2 \<noteq> str ''/*'' \<and> content ! i \<noteq> 34 \<and> content ! i \<noteq> 39
      \<and> content ! i \<noteq> 36 \<and> \<not> isIdentStart (content ! i))"

text \<open>Each pass through the body moves \<open>i\<close> forward; the outer loop ends for that reason.\<close>

lemma scanWhile_step:
  "i < length content \<Longrightarrow> P (content ! i) \<Longrightarrow> scanWhile P content i = scanWhile P content (Suc i)"
  by (subst scanWhile.simps) simp

lemma scanWhile_stop:
  "\<not> (i < length content \<and> P (content ! i)) \<Longrightarrow> scanWhile P content i = i"
  by (subst scanWhile.simps) auto

lemma scanWhile_ge: "i \<le> scanWhile P content i"
proof (induction P content i rule: scanWhile.induct)
  case (1 P content i)
  show ?case
  proof (cases "i < length content \<and> P (content ! i)")
    case True
    with 1 have "Suc i \<le> scanWhile P content (Suc i)" by blast
    with True show ?thesis by (simp add: scanWhile_step)
  next
    case False
    then show ?thesis by (simp add: scanWhile_stop)
  qed
qed

lemma scanWhile_gt: "i < length content \<Longrightarrow> P (content ! i) \<Longrightarrow> i < scanWhile P content i"
  using scanWhile_ge [of "Suc i" P content] by (simp add: scanWhile_step)

lemma scanWhile_le: "i \<le> length content \<Longrightarrow> scanWhile P content i \<le> length content"
proof (induction P content i rule: scanWhile.induct)
  case (1 P content i)
  show ?case
  proof (cases "i < length content \<and> P (content ! i)")
    case True
    with 1 have "scanWhile P content (Suc i) \<le> length content" by simp
    with True show ?thesis by (simp add: scanWhile_step)
  next
    case False
    with 1 show ?thesis by (simp add: scanWhile_stop)
  qed
qed

lemma scanBlockComment_stop:
  "\<not> i < length content - 1 \<Longrightarrow> scanBlockComment content (i, line, column) = (i, line, column)"
  by (subst scanBlockComment.simps) simp

lemma scanBlockComment_close:
  "i < length content - 1 \<Longrightarrow> substr content i 2 = str ''*/'' \<Longrightarrow>
   scanBlockComment content (i, line, column) = (i + 2, line, column)"
  by (subst scanBlockComment.simps) simp

lemma scanBlockComment_step:
  "i < length content - 1 \<Longrightarrow> substr content i 2 \<noteq> str ''*/'' \<Longrightarrow>
   scanBlockComment content (i, line, column) =
     (if content ! i = 10 then scanBlockComment content (Suc i, Suc line, 1)
      else scanBlockComment content (Suc i, line, column))"
  by (subst scanBlockComment.simps) simp

lemma scanBlockComment_bounds:
  "i \<le> fst (scanBlockComment content (i, line, column))
   \<and> (i \<le> length content \<longrightarrow> fst (scanBlockComment content (i, line, column)) \<le> length content)"
proof (induction content "(i, line, column)" arbitrary: i line column
    rule: scanBlockComment.induct)
  case (1 content i line column)
  show ?case
  proof (cases "i < length content - 1")
    case False
    then show ?thesis by (simp add: scanBlockComment_stop)
  next
    case True
    show ?thesis
    proof (cases "substr content i 2 = str ''*/''")
      case e: True
      with True show ?thesis by (auto simp: scanBlockComment_close)
    next
      case e: False
      from True have "Suc i \<le> length content" by simp
      with 1(1) [OF True e] 1(2) [OF True e] True e show ?thesis
        by (auto simp: scanBlockComment_step)
    qed
  qed
qed

lemma scanString_stop: "\<not> i < length content \<Longrightarrow> scanString content quote i = i"
  by (subst scanString.simps) simp

lemma scanString_close:
  "i < length content \<Longrightarrow> content ! i = quote \<and> content ! (i - 1) \<noteq> 92 \<Longrightarrow>
   scanString content quote i = Suc i"
  by (subst scanString.simps) simp

lemma scanString_step:
  "i < length content \<Longrightarrow> \<not> (content ! i = quote \<and> content ! (i - 1) \<noteq> 92) \<Longrightarrow>
   scanString content quote i = scanString content quote (Suc i)"
  by (subst scanString.simps) auto

lemma scanString_bounds:
  "i \<le> scanString content quote i
   \<and> (i \<le> length content \<longrightarrow> scanString content quote i \<le> length content)"
proof (induction content quote i rule: scanString.induct)
  case (1 content quote i)
  show ?case
  proof (cases "i < length content")
    case False
    then show ?thesis by (simp add: scanString_stop)
  next
    case True
    show ?thesis
    proof (cases "content ! i = quote \<and> content ! (i - 1) \<noteq> 92")
      case e: True
      with True show ?thesis by (simp add: scanString_close)
    next
      case e: False
      with 1 [OF True] True show ?thesis by (auto simp: scanString_step)
    qed
  qed
qed

lemma substr_nth:
  "substr content i n = c # cs \<Longrightarrow> i < length content \<and> content ! i = c"
  unfolding substr_def
  by (cases "i < length content"; cases n) (auto simp: hd_drop_conv_nth take_Suc dest!: arg_cong [where f = hd])

lemma substr_length: "length (substr content i n) \<le> length content - i"
  by (simp add: substr_def)

lemma str_consts:
  "str ''<?php'' = [60, 63, 112, 104, 112]"
  "str ''//'' = [47, 47]"
  "str ''#'' = [35]"
  "str ''/*'' = [47, 42]"
  "str ''/**'' = [47, 42, 42]"
  "str ''*/'' = [42, 47]"
  by (simp_all add: str_def)

lemma substring_char: "i < length content \<Longrightarrow> substring content i (Suc i) = [content ! i]"
  by (simp add: substring_def take_Suc hd_drop_conv_nth)

lemma substring_substr: "substring content i (i + n) = substr content i n"
  by (simp add: substring_def substr_def)

definition stepShape :: "jsstring \<Rightarrow> lexer \<Rightarrow> lexer \<Rightarrow> bool" where
  "stepShape content s s' \<longleftrightarrow>
     lx_i s < lx_i s' \<and> lx_i s' \<le> length content
     \<and> (\<exists>t. lx_tokens s' = lx_tokens s @ [t]
            \<and> tk_value t = substring content (lx_i s) (lx_i s'))"

lemma tokenizeStep_token:
  assumes i: "lx_i s < length content" and ws: "\<not> isWhitespace (content ! lx_i s)"
  shows "stepShape content s (tokenizeStep content s)"
proof -
  let ?i = "lx_i s"
  consider
    (php) "substr content ?i 5 = str ''<?php''"
  | (line) "substr content ?i 5 \<noteq> str ''<?php''"
      "substr content ?i 2 = str ''//'' \<or> substr content ?i 1 = str ''#''"
  | (block) "substr content ?i 5 \<noteq> str ''<?php''"
      "\<not> (substr content ?i 2 = str ''//'' \<or> substr content ?i 1 = str ''#'')"
      "substr content ?i 2 = str ''/*''"
  | (quote) "substr content ?i 5 \<noteq> str ''<?php''"
      "\<not> (substr content ?i 2 = str ''//'' \<or> substr content ?i 1 = str ''#'')"
      "substr content ?i 2 \<noteq> str ''/*''" "content ! ?i = 34 \<or> content ! ?i = 39"
  | (var) "substr content ?i 5 \<noteq> str ''<?php''"
      "\<not> (substr content ?i 2 = str ''//'' \<or> substr content ?i 1 = str ''#'')"
      "substr content ?i 2 \<noteq> str ''/*''" "\<not> (content ! ?i = 34 \<or> content ! ?i = 39)"
      "content ! ?i = 36"
  | (ident) "substr content ?i 5 \<noteq> str ''<?php''"
      "\<not> (substr content ?i 2 = str ''//'' \<or> substr content ?i 1 = str ''#'')"
      "substr content ?i 2 \<noteq> str ''/*''" "\<not> (content ! ?i = 34 \<or> content ! ?i = 39)"
      "content ! ?i \<noteq> 36" "isIdentStart (content ! ?i)"
  | (other) "substr content ?i 5 \<noteq> str ''<?php''"
      "\<not> (substr content ?i 2 = str ''//'' \<or> substr content ?i 1 = str ''#'')"
      "substr content ?i 2 \<noteq> str ''/*''" "\<not> (content ! ?i = 34 \<or> content ! ?i = 39)"
      "content ! ?i \<noteq> 36" "\<not> isIdentStart (content ! ?i)"
    by blast
  then show ?thesis
  proof cases
    case php
    have "?i + 5 \<le> length content"
      using substr_length [of content ?i 5] by (simp add: php str_consts)
    with php ws show ?thesis
      by (simp add: tokenizeStep_def Let_def stepShape_def substring_substr)
  next
    case line
    have "content ! ?i \<noteq> 10"
      using line(2) substr_nth [of content ?i 2] substr_nth [of content ?i 1]
      by (auto simp: str_consts)
    with i have "?i < scanWhile (\<lambda>c. c \<noteq> 10) content ?i"
      by (simp add: scanWhile_gt)
    moreover from i have "scanWhile (\<lambda>c. c \<noteq> 10) content ?i \<le> length content"
      by (simp add: scanWhile_le)
    ultimately show ?thesis using line ws
      by (simp add: tokenizeStep_def Let_def stepShape_def)
  next
    case block
    have b: "?i + 2 \<le> length content"
      using substr_length [of content ?i 2] by (simp add: block str_consts)
    obtain j l c where r: "scanBlockComment content (?i + 2,
        (if content ! ?i = 10 then lx_line s + 1 else lx_line s),
        (if content ! ?i = 10 then 1 else lx_column s + 1)) = (j, l, c)"
      by (cases "scanBlockComment content (?i + 2,
        (if content ! ?i = 10 then lx_line s + 1 else lx_line s),
        (if content ! ?i = 10 then 1 else lx_column s + 1))") blast
    from scanBlockComment_bounds [of "?i + 2" content
        "if content ! ?i = 10 then lx_line s + 1 else lx_line s"
        "if content ! ?i = 10 then 1 else lx_column s + 1"] b
    have "?i + 2 \<le> j" "j \<le> length content" unfolding r by simp_all
    with block ws r show ?thesis
      by (simp add: tokenizeStep_def Let_def stepShape_def)
  next
    case quote
    from scanString_bounds [of "?i + 1" content "content ! ?i"] i
    have "?i + 1 \<le> scanString content (content ! ?i) (?i + 1)"
      "scanString content (content ! ?i) (?i + 1) \<le> length content" by simp_all
    with quote ws show ?thesis
      by (simp add: tokenizeStep_def Let_def stepShape_def)
  next
    case var
    from scanWhile_ge [of "?i + 1" isWordChar content] scanWhile_le [of "?i + 1" content isWordChar] i
    have "?i + 1 \<le> scanWhile isWordChar content (?i + 1)"
      "scanWhile isWordChar content (?i + 1) \<le> length content" by simp_all
    with var ws show ?thesis
      by (simp add: tokenizeStep_def Let_def stepShape_def)
  next
    case ident
    from ident(6) have "isIdentChar (content ! ?i)"
      by (auto simp: isIdentChar_def isIdentStart_def isWordChar_def)
    with i have "?i < scanWhile isIdentChar content ?i"
      by (simp add: scanWhile_gt)
    moreover from i have "scanWhile isIdentChar content ?i \<le> length content"
      by (simp add: scanWhile_le)
    ultimately show ?thesis using ident ws
      by (simp add: tokenizeStep_def Let_def stepShape_def)
  next
    case other
    with i ws show ?thesis
      by (simp add: tokenizeStep_def Let_def stepShape_def substring_char)
  qed
qed

lemma tokenizeStep_space:
  assumes "isWhitespace (content ! lx_i s)"
  shows "lx_i (tokenizeStep content s) = Suc (lx_i s)"
    and "lx_tokens (tokenizeStep content s) = lx_tokens s"
  using assms by (simp_all add: tokenizeStep_def Let_def)

lemma tokenizeStep_other:
  assumes "lx_i s < length content" and "noRuleMatches content (lx_i s)"
  shows "lx_i (tokenizeStep content s) = Suc (lx_i s)
    \<and> (\<exists>l c. lx_tokens (tokenizeStep content s)
          = lx_tokens s @ [\<lparr>tk_type = T_CHAR, tk_value = [content ! lx_i s],
                             tk_line = l, tk_column = c\<rparr>])"
  using assms by (simp add: tokenizeStep_def Let_def noRuleMatches_def)

lemma tokenizeStep_progress:
  assumes "lx_i s < length content"
  shows "lx_i s < lx_i (tokenizeStep content s)"
proof (cases "isWhitespace (content ! lx_i s)")
  case True
  then show ?thesis by (simp add: tokenizeStep_space)
next
  case False
  with assms have "stepShape content s (tokenizeStep content s)" by (rule tokenizeStep_token)
  then show ?thesis by (simp add: stepShape_def)
qed

function tokenizeLoop :: "jsstring \<Rightarrow> lexer \<Rightarrow> lexer" where
  "tokenizeLoop content s =
     (if lx_i s < length content then tokenizeLoop content (tokenizeStep content s) else s)"
  by pat_completeness auto
termination
  by (relation "measure (\<lambda>(content, s). length content - lx_i s)")
    (auto simp: tokenizeStep_progress diff_less_mono2)

declare tokenizeLoop.simps [simp del]

text \<open>
  \<open>tokenize\<close>: a byte-order mark at the start of the content is removed, then the
  loop runs from position 0, line 1 and column 1 with no tokens.
\<close>

definition lexerStart :: lexer where
  "lexerStart = \<lparr>lx_i = 0, lx_line = 1, lx_column = 1, lx_tokens = []\<rparr>"

definition tokenize :: "jsstring \<Rightarrow> token list" where
  "tokenize content =
     (let content = (if take 1 content = [65279] then drop 1 content else content)
      in lx_tokens (tokenizeLoop content lexerStart))"

text \<open>
  The text that results when white space is put back: \<open>gaps\<close> holds, for each token,
  the white space before it, and \<open>trail\<close> the white space after the last token.
\<close>

definition reinsert :: "jsstring list \<Rightarrow> jsstring list \<Rightarrow> jsstring \<Rightarrow> jsstring" where
  "reinsert gaps vals trail = concat (map2 (@) gaps vals) @ trail"

text \<open>
  A text is covered by a list of tokens when white space can be put between the token
  values so that the text results.
\<close>

definition covered :: "jsstring \<Rightarrow> token list \<Rightarrow> bool" where
  "covered text tokens \<longleftrightarrow>
     (\<exists>gaps trail. length gaps = length tokens \<and> list_all isWhitespace (concat gaps @ trail)
        \<and> reinsert gaps (map tk_value tokens) trail = text)"

text \<open>
  The content that the loop of \<open>tokenize\<close> reads: the content without a byte-order
  mark at its start.
\<close>

definition withoutMark :: "jsstring \<Rightarrow> jsstring" where
  "withoutMark content = (if take 1 content = [65279] then drop 1 content else content)"

text \<open>
  The tokens cover the text from position \<open>i\<close> on: the first token starts at the first
  character from \<open>i\<close> that is not white space, its value is the text from there as
  far as the value is long and is not empty, it is the single-character token of that
  character if no other rule applies there, and the remaining tokens cover the text
  from the end of the value on; after the last token only white space is left.
\<close>

fun coversFrom :: "jsstring \<Rightarrow> nat \<Rightarrow> token list \<Rightarrow> bool" where
  "coversFrom text i [] = list_all isWhitespace (drop i text)"
| "coversFrom text i (t # ts) =
     (let a = scanWhile isWhitespace text i;
          b = a + length (tk_value t)
      in a < length text \<and> tk_value t \<noteq> [] \<and> b \<le> length text
         \<and> tk_value t = substring text a b
         \<and> (if noRuleMatches text a
             then tk_type t = T_CHAR \<and> tk_value t = [text ! a] else True)
         \<and> coversFrom text b ts)"

lemmas lexer_eval = tokenize_def lexerStart_def tokenizeLoop.simps tokenizeStep_def Let_def
  str_def scanWhile.simps scanBlockComment.simps scanString.simps substr_def substring_def
  isWhitespace_def isIdentStart_def isIdentChar_def isWordChar_def keywordType_def
  toLowerCase_def lowerChar_def

section \<open>Doc comments and parameters\<close>

text \<open>
  \<open>String.prototype.trim\<close> removes the white space of \<open>\s\<close> at both ends.
  \<open>splitOn c\<close> is \<open>split\<close> with a separator of one code unit; \<open>splitSpaces\<close> is
  \<open>split(/\s+/)\<close>, where a run of white space is one separator. Both return at
  least one piece.
\<close>

definition trim :: "jsstring \<Rightarrow> jsstring" where
  "trim s = rev (dropWhile isWhitespace (rev (dropWhile isWhitespace s)))"

fun splitOn :: "jschar \<Rightarrow> jsstring \<Rightarrow> jsstring list" where
  "splitOn sep [] = [[]]"
| "splitOn sep (c # s) =
     (if c = sep then [] # splitOn sep s
      else (case splitOn sep s of
              piece # pieces \<Rightarrow> (c # piece) # pieces
            | [] \<Rightarrow> [[c]]))"

function splitSpaces :: "jsstring \<Rightarrow> jsstring list" where
  "splitSpaces [] = [[]]"
| "splitSpaces (c # s) =
     (if isWhitespace c then [] # splitSpaces (dropWhile isWhitespace s)
      else (case splitSpaces s of
              piece # pieces \<Rightarrow> (c # piece) # pieces
            | [] \<Rightarrow> [[c]]))"
  by pat_completeness auto
termination
  by (relation "measure length") (auto simp: length_dropWhile_le le_imp_less_Suc)

definition joinWith :: "jsstring \<Rightarrow> jsstring list \<Rightarrow> jsstring" where
  "joinWith sep pieces =
     (case pieces of [] \<Rightarrow> [] | p # ps \<Rightarrow> p @ concat (map (\<lambda>q. sep @ q) ps))"

text \<open>
  \<open>parseDocComment\<close>. A line of the comment loses its leading white space and
  asterisk (\<open>/^\s*\*\s?/\<close>) and is trimmed; empty lines are dropped.
\<close>

definition stripPrefix :: "jsstring \<Rightarrow> jsstring \<Rightarrow> jsstring" where
  "stripPrefix p s = (if startsWith s p then drop (length p) s else s)"

definition stripSuffix :: "jsstring \<Rightarrow> jsstring \<Rightarrow> jsstring" where
  "stripSuffix p s = rev (stripPrefix (rev p) (rev s))"

definition docLine :: "jsstring \<Rightarrow> jsstring" where
  "docLine line =
     trim (case dropWhile isWhitespace line of
             c # rest \<Rightarrow> if c = 42 then rest else line
           | [] \<Rightarrow> line)"

definition docLines :: "jsstring \<Rightarrow> jsstring list" where
  "docLines docComment =
     filter (\<lambda>line. length line > 0)
       (map docLine (splitOn 10 (stripSuffix (str ''*/'') (stripPrefix (str ''/**'') docComment))))"

text \<open>
  The match of \<open>/^@(\w+)(?:\s+(.*))?$/\<close> on a line that starts with \<open>@\<close>: the tag
  name is the run of word characters after the \<open>@\<close>; the line ends there, or white
  space follows and then a value with no line terminator in it (the dot matches none
  of the code units 10, 13, 8232 and 8233). The result is the name and the value, the
  empty string for a value that is absent.
\<close>

definition isLineTerminator :: "jschar \<Rightarrow> bool" where
  "isLineTerminator c = (c = 10 \<or> c = 13 \<or> c = 8232 \<or> c = 8233)"

definition tagMatch :: "jsstring \<Rightarrow> (jsstring \<times> jsstring) option" where
  "tagMatch line =
     (let afterAt = drop 1 line;
          tagName = takeWhile isWordChar afterAt;
          rest = dropWhile isWordChar afterAt;
          tagValue = dropWhile isWhitespace rest
      in if tagName = [] then None
         else if rest = [] then Some (tagName, [])
         else if isWhitespace (hd rest) \<and> \<not> list_ex isLineTerminator tagValue
           then Some (tagName, tagValue)
         else None)"

datatype docSection = InSummary | InDescription | InTags

text \<open>
  The loop over the lines, with the variables \<open>doc\<close>, \<open>currentSection\<close> and
  \<open>currentTag\<close>. \<open>appendToLast\<close> is
  \<open>tagValues[tagValues.length - 1] += '\n' + line\<close>.
\<close>

definition appendToLast :: "jsstring \<Rightarrow> jsstring list \<Rightarrow> jsstring list" where
  "appendToLast line tagValues =
     (if length tagValues > 0
      then butlast tagValues @ [last tagValues @ [10] @ line]
      else tagValues)"

fun docLoop ::
  "jsstring list \<Rightarrow> docComment \<times> docSection \<times> jsstring option
   \<Rightarrow> docComment \<times> docSection \<times> jsstring option" where
  "docLoop [] st = st"
| "docLoop (line # lines) (doc, currentSection, currentTag) =
     (if startsWith line (str ''@'') then
        (case tagMatch line of
           Some (tagName, tagValue) \<Rightarrow>
             docLoop lines
               (doc\<lparr>dc_tags :=
                    (case map_of (dc_tags doc) tagName of
                       None \<Rightarrow> AList.update tagName [tagValue] (dc_tags doc)
                     | Some tagValues \<Rightarrow>
                         AList.update tagName (tagValues @ [tagValue]) (dc_tags doc))\<rparr>,
                InTags, Some tagName)
         | None \<Rightarrow> docLoop lines (doc, currentSection, currentTag))
      else if currentSection = InSummary \<and> dc_summary doc = [] then
        docLoop lines (doc\<lparr>dc_summary := line\<rparr>, InDescription, currentTag)
      else if currentSection = InDescription then
        docLoop lines
          (doc\<lparr>dc_description :=
               dc_description doc @ (if dc_description doc \<noteq> [] then [10] else []) @ line\<rparr>,
           currentSection, currentTag)
      else if currentSection = InTags \<and> currentTag \<noteq> None then
        docLoop lines
          (doc\<lparr>dc_tags := AList.map_entry (the currentTag) (appendToLast line) (dc_tags doc)\<rparr>,
           currentSection, currentTag)
      else docLoop lines (doc, currentSection, currentTag))"

definition parseDocComment :: "jsstring \<Rightarrow> docComment" where
  "parseDocComment docComment =
     fst (docLoop (docLines docComment)
            (\<lparr>dc_summary = [], dc_description = [], dc_tags = []\<rparr>, InSummary, None))"

text \<open>
  \<open>parseParameter\<close>. Code units: 38 is \<open>&\<close>, 61 is \<open>=\<close>, 36 is \<open>$\<close>. The pieces of
  \<open>split\<close> are never an empty array, so \<open>parts[0]\<close> and \<open>tokens[0]\<close> exist.
\<close>

definition parseParameter :: "jsstring \<Rightarrow> parameter" where
  "parseParameter paramStr =
     (let paramStr = trim paramStr;
          isReference = startsWith paramStr (str ''&'');
          paramStr = (if isReference then trim (drop 1 paramStr) else paramStr);
          isVariadic = startsWith paramStr (str ''...'');
          paramStr = (if isVariadic then trim (drop 3 paramStr) else paramStr);
          parts = splitOn 61 paramStr;
          mainPart = trim (hd parts);
          defaultValue = (if length parts > 1 then Some (trim (parts ! 1)) else None);
          tokens = splitSpaces mainPart;
          ptype = (if length tokens \<ge> 2 then Some (hd tokens) else None);
          name = (if length tokens \<ge> 2 then last tokens
                  else if length tokens = 1 then hd tokens else []);
          name = (if startsWith name (str ''$'') then drop 1 name else name)
      in \<lparr>pm_name = name, pm_type = ptype, pm_defaultValue = defaultValue,
          pm_isReference = isReference, pm_isVariadic = isVariadic\<rparr>)"

section \<open>The declaration parser\<close>

text \<open>
  The parser reads the array of tokens by index. \<open>slice tokens i j\<close> holds the
  tokens from \<open>i\<close> up to \<open>j\<close>, and \<open>valuesOf\<close> is the string that a loop builds with
  \<open>+= tokens[i].value\<close> over them. Each parse function returns the next index
  together with the index of declarations, which it updates in place in the source.
  The record of the file being parsed is the entry of \<open>fileIndex\<close> under the file
  key: \<open>processPhpFile\<close> stores it there and \<open>parseTokens\<close> fetches it from there.
\<close>

definition slice :: "'a list \<Rightarrow> nat \<Rightarrow> nat \<Rightarrow> 'a list" where
  "slice xs i j = take (j - i) (drop i xs)"

definition valuesOf :: "token list \<Rightarrow> nat \<Rightarrow> nat \<Rightarrow> jsstring" where
  "valuesOf tokens i j = concat (map tk_value (slice tokens i j))"

definition updateFile :: "jsstring \<Rightarrow> (fileData \<Rightarrow> fileData) \<Rightarrow> indexer \<Rightarrow> indexer" where
  "updateFile fileKey f idx = idx\<lparr>ix_fileIndex := AList.map_entry fileKey f (ix_fileIndex idx)\<rparr>"

definition updateClass :: "nat \<Rightarrow> (classDefinition \<Rightarrow> classDefinition) \<Rightarrow> indexer \<Rightarrow> indexer" where
  "updateClass a f idx = idx\<lparr>ix_heap := (ix_heap idx)(a := f (ix_heap idx a))\<rparr>"

text \<open>The tokens that the parser passes over: white space and comments.\<close>

definition isSpaceToken :: "token \<Rightarrow> bool" where
  "isSpaceToken t = (tk_type t = T_WHITESPACE)"

definition isSpaceOrComment :: "token \<Rightarrow> bool" where
  "isSpaceOrComment t = (tk_type t = T_WHITESPACE \<or> tk_type t = T_COMMENT)"

definition isIgnorable :: "token \<Rightarrow> bool" where
  "isIgnorable tk =
     (tk_type tk = T_WHITESPACE \<or> tk_type tk = T_COMMENT \<or> tk_type tk = T_DOC_COMMENT
      \<or> (tk_type tk = T_CHAR \<and> list_ex isWhitespace (tk_value tk)))"

subsection \<open>Namespace and use statements\<close>

definition parseNamespace :: "indexer \<Rightarrow> token list \<Rightarrow> nat \<Rightarrow> jsstring \<Rightarrow> nat \<times> indexer" where
  "parseNamespace idx tokens start fileKey =
     (let i = start + 1;
          i = scanWhile isSpaceToken tokens i;
          j = scanWhile (\<lambda>t. tk_type t = T_STRING \<or> tk_value t = [92]) tokens i;
          namespaceName = valuesOf tokens i j
      in if namespaceName \<noteq> [] then
           (j, (updateFile fileKey (\<lambda>fileData. fileData\<lparr>fd_namespace := namespaceName\<rparr>) idx)
                 \<lparr>ix_currentNamespace := namespaceName,
                  ix_namespaces :=
                    (if map_of (ix_namespaces idx) namespaceName = None
                     then AList.update namespaceName [] (ix_namespaces idx)
                     else ix_namespaces idx)\<rparr>)
         else (j, idx))"

function parseUseLoop ::
  "token list \<Rightarrow> nat \<Rightarrow> jsstring \<times> jsstring \<times> bool \<Rightarrow> nat \<times> jsstring \<times> jsstring" where
  "parseUseLoop tokens i (useName, alias, inAlias) =
     (if i < length tokens \<and> tk_value (tokens ! i) \<noteq> str '';'' then
        (if toLowerCase (tk_value (tokens ! i)) = str ''as'' then
           parseUseLoop tokens (Suc i) (useName, alias, True)
         else if tk_type (tokens ! i) = T_STRING \<or> tk_value (tokens ! i) = [92] then
           (if inAlias
            then parseUseLoop tokens (Suc i) (useName, alias @ tk_value (tokens ! i), inAlias)
            else parseUseLoop tokens (Suc i) (useName @ tk_value (tokens ! i), alias, inAlias))
         else parseUseLoop tokens (Suc i) (useName, alias, inAlias))
      else (i, useName, alias))"
  by pat_completeness auto
termination
  by (relation "measure (\<lambda>(tokens, i, acc). length tokens - i)") auto

declare parseUseLoop.simps [simp del]

text \<open>\<open>useName.split('\\').pop()\<close>: what follows the last backslash.\<close>

definition lastSegment :: "jsstring \<Rightarrow> jsstring" where
  "lastSegment useName = rev (takeWhile (\<lambda>c. c \<noteq> 92) (rev useName))"

definition parseUse :: "indexer \<Rightarrow> token list \<Rightarrow> nat \<Rightarrow> jsstring \<Rightarrow> nat \<times> indexer" where
  "parseUse idx tokens start fileKey =
     (let i = start + 1;
          i = scanWhile isSpaceToken tokens i
      in case parseUseLoop tokens i ([], [], False) of
           (i, useName, alias) \<Rightarrow>
             if useName \<noteq> [] then
               (let finalAlias = (if alias \<noteq> [] then alias else lastSegment useName)
                in (i, updateFile fileKey
                         (\<lambda>fileData. fileData\<lparr>fd_uses :=
                              AList.update finalAlias useName (fd_uses fileData)\<rparr>) idx))
             else (i, idx))"

subsection \<open>Functions and methods\<close>

text \<open>
  The loop of \<open>parseFunction\<close> that walks back from the token before \<open>function\<close>
  while the token is not a single-character token. The second argument is \<open>j + 1\<close>,
  so that 0 stands for \<open>j < 0\<close>.
\<close>

definition addFunctionModifier :: "token_type \<Rightarrow> modifier set \<Rightarrow> modifier set" where
  "addFunctionModifier tokenType modifiers =
     (let modifiers = (if tokenType = T_PUBLIC then insert Public modifiers else modifiers);
          modifiers = (if tokenType = T_PROTECTED then insert Protected modifiers else modifiers);
          modifiers = (if tokenType = T_PRIVATE then insert Private modifiers else modifiers);
          modifiers = (if tokenType = T_STATIC then insert Static modifiers else modifiers);
          modifiers = (if tokenType = T_ABSTRACT then insert Abstract modifiers else modifiers);
          modifiers = (if tokenType = T_FINAL then insert Final modifiers else modifiers)
      in modifiers)"

fun functionModifiersBack :: "token list \<Rightarrow> nat \<Rightarrow> modifier set \<Rightarrow> modifier set" where
  "functionModifiersBack tokens 0 modifiers = modifiers"
| "functionModifiersBack tokens (Suc j) modifiers =
     (if tk_type (tokens ! j) \<noteq> T_CHAR
      then functionModifiersBack tokens j (addFunctionModifier (tk_type (tokens ! j)) modifiers)
      else modifiers)"

definition defaultPublic :: "modifier set \<Rightarrow> modifier set" where
  "defaultPublic modifiers =
     (if Public \<notin> modifiers \<and> Protected \<notin> modifiers \<and> Private \<notin> modifiers
      then insert Public modifiers else modifiers)"

text \<open>
  The loop that skips the parameter list of an anonymous function, from its opening
  parenthesis to the index after the matching closing one.
\<close>

function matchParens :: "token list \<Rightarrow> nat \<Rightarrow> int \<Rightarrow> nat" where
  "matchParens tokens i depth =
     (if i < length tokens then
        (let depth = (if tk_value (tokens ! i) = str ''('' then depth + 1 else depth)
         in if tk_value (tokens ! i) = str '')'' then
              (if depth - 1 = 0 then Suc i else matchParens tokens (Suc i) (depth - 1))
            else matchParens tokens (Suc i) depth)
      else i)"
  by pat_completeness auto
termination
  by (relation "measure (\<lambda>(tokens, i, depth). length tokens - i)") auto

declare matchParens.simps [simp del]

text \<open>
  The loop over the parameter list of a named function, with the variables
  \<open>parameters\<close>, \<open>inParams\<close>, \<open>paramDepth\<close> and \<open>currentParam\<close>. Code units 40 and 41
  are the two parentheses.
\<close>

definition finishParameters :: "parameter list \<Rightarrow> jsstring \<Rightarrow> parameter list" where
  "finishParameters parameters currentParam =
     (if trim currentParam \<noteq> [] then
        (let trimmed = trim (rev (dropWhile (\<lambda>c. c = 41)
                                 (rev (dropWhile (\<lambda>c. c = 40) currentParam))))
         in if trimmed \<noteq> [] then parameters @ [parseParameter trimmed] else parameters)
      else parameters)"

function paramLoop ::
  "token list \<Rightarrow> nat \<Rightarrow> parameter list \<times> bool \<times> int \<times> jsstring \<Rightarrow> nat \<times> parameter list" where
  "paramLoop tokens i (parameters, inParams, paramDepth, currentParam) =
     (if i < length tokens then
        (if tk_value (tokens ! i) = str ''('' then
           paramLoop tokens (Suc i)
             (parameters, True, paramDepth + 1, currentParam @ tk_value (tokens ! i))
         else if tk_value (tokens ! i) = str '')'' then
           (if paramDepth - 1 = 0 then (Suc i, finishParameters parameters currentParam)
            else paramLoop tokens (Suc i)
                   (parameters, inParams, paramDepth - 1, currentParam @ tk_value (tokens ! i)))
         else if inParams \<and> tk_value (tokens ! i) = str '','' \<and> paramDepth = 1 then
           paramLoop tokens (Suc i)
             (if trim currentParam \<noteq> []
              then parameters @ [parseParameter (trim currentParam)] else parameters,
              inParams, paramDepth, [])
         else if inParams then
           paramLoop tokens (Suc i)
             (parameters, inParams, paramDepth, currentParam @ tk_value (tokens ! i))
         else paramLoop tokens (Suc i) (parameters, inParams, paramDepth, currentParam))
      else (i, parameters))"
  by pat_completeness auto
termination
  by (relation "measure (\<lambda>(tokens, i, acc). length tokens - i)") auto

declare paramLoop.simps [simp del]

text \<open>A token of a return type: an identifier, or one of the characters \<open>\\<close>, \<open>?\<close>, \<open>|\<close>.\<close>

definition isTypeToken :: "token \<Rightarrow> bool" where
  "isTypeToken tk =
     (tk_type tk = T_STRING
      \<or> (tk_type tk = T_CHAR \<and> list_ex (\<lambda>c. c = 92 \<or> c = 63 \<or> c = 124) (tk_value tk)))"

definition parseFunction :: "indexer \<Rightarrow> token list \<Rightarrow> nat \<Rightarrow> jsstring \<Rightarrow> nat \<times> indexer" where
  "parseFunction idx tokens start fileKey =
     (let i = start + 1;
          modifiers = defaultPublic (functionModifiersBack tokens start {});
          i = scanWhile isIgnorable tokens i
      in
        if i \<ge> length tokens \<or> tk_type (tokens ! i) \<noteq> T_STRING then
          (let i = scanWhile (\<lambda>t. tk_value t \<noteq> str ''('') tokens i
           in if i \<ge> length tokens then (i + 1, idx)
              else
                (let i = matchParens tokens i 0;
                     i = scanWhile (\<lambda>t. tk_value t \<noteq> str ''{'' \<and> tk_value t \<noteq> str '';'') tokens i
                 in (i + 1, idx)))
        else
          (let functionName = tk_value (tokens ! i);
               i = i + 1
           in case paramLoop tokens i ([], False, 0, []) of
                (i, parameters) \<Rightarrow>
                  (let i = scanWhile isIgnorable tokens i;
                       hasType = (i < length tokens \<and> tk_value (tokens ! i) = str '':'');
                       j = (if hasType then scanWhile isTypeToken tokens (i + 1) else i);
                       typeTokens = (if hasType then valuesOf tokens (i + 1) j else []);
                       returnType = (if trim typeTokens \<noteq> [] then Some (trim typeTokens) else None);
                       functionDefinition =
                         \<lparr>fn_name = functionName, fn_modifiers = modifiers,
                          fn_parameters = parameters, fn_returnType = returnType,
                          fn_docComment = ix_lastDocComment idx,
                          fn_file = ix_currentFile idx,
                          fn_line = tk_line (tokens ! start),
                          fn_isMethod = (ix_currentClass idx \<noteq> None),
                          fn_class =
                            (case ix_currentClass idx of
                               None \<Rightarrow> None
                             | Some c \<Rightarrow>
                                 if cd_name (ix_heap idx c) \<noteq> []
                                 then Some (cd_name (ix_heap idx c)) else None),
                          fn_inherited = False\<rparr>;
                       idx =
                         (case ix_currentClass idx of
                            Some c \<Rightarrow>
                              updateClass c
                                (\<lambda>cd. cd\<lparr>cd_methods :=
                                     AList.update functionName functionDefinition (cd_methods cd)\<rparr>)
                                idx
                          | None \<Rightarrow>
                              (let fullName =
                                     (if ix_currentNamespace idx \<noteq> []
                                      then ix_currentNamespace idx @ [92] @ functionName
                                      else functionName)
                               in (updateFile fileKey
                                     (\<lambda>fileData. fileData\<lparr>fd_functions :=
                                          AList.update functionName functionDefinition
                                            (fd_functions fileData)\<rparr>) idx)
                                    \<lparr>ix_functions :=
                                       AList.update fullName functionDefinition
                                         (ix_functions idx)\<rparr>))
                   in (j, idx\<lparr>ix_lastDocComment := None\<rparr>))))"

subsection \<open>Properties and class constants\<close>

text \<open>The first loop of \<open>parseProperty\<close>: the modifiers in front of the member.\<close>

function propertyModifiers ::
  "token list \<Rightarrow> nat \<Rightarrow> modifier set \<Rightarrow> nat \<times> modifier set" where
  "propertyModifiers tokens i modifiers =
     (if i < length tokens then
        (if tk_type (tokens ! i) = T_PUBLIC then
           propertyModifiers tokens (Suc i) (insert Public modifiers)
         else if tk_type (tokens ! i) = T_PROTECTED then
           propertyModifiers tokens (Suc i) (insert Protected modifiers)
         else if tk_type (tokens ! i) = T_PRIVATE then
           propertyModifiers tokens (Suc i) (insert Private modifiers)
         else if tk_type (tokens ! i) = T_STATIC then
           propertyModifiers tokens (Suc i) (insert Static modifiers)
         else if tk_type (tokens ! i) = T_CONST then (Suc i, insert Const modifiers)
         else if isIgnorable (tokens ! i) then propertyModifiers tokens (Suc i) modifiers
         else (i, modifiers))
      else (i, modifiers))"
  by pat_completeness auto
termination
  by (relation "measure (\<lambda>(tokens, i, modifiers). length tokens - i)") auto

declare propertyModifiers.simps [simp del]

text \<open>
  One property declaration stored into the current class:
  \<open>this.currentClass.properties.set(propName, {...})\<close>, if there is a current class.
\<close>

definition storeProperty ::
  "jsstring \<Rightarrow> modifier set \<Rightarrow> jsstring option \<Rightarrow> nat \<Rightarrow> indexer \<Rightarrow> indexer" where
  "storeProperty propName modifiers defaultValue line idx =
     (case ix_currentClass idx of
        Some c \<Rightarrow>
          updateClass c
            (\<lambda>cd. cd\<lparr>cd_properties :=
                 AList.update propName
                   \<lparr>pr_name = propName, pr_modifiers = modifiers,
                    pr_defaultValue = defaultValue, pr_file = ix_currentFile idx,
                    pr_line = line, pr_docComment = ix_lastDocComment idx,
                    pr_type = None, pr_inherited = False\<rparr>
                   (cd_properties cd)\<rparr>)
            idx
      | None \<Rightarrow> idx)"

definition storeConstant ::
  "jsstring \<Rightarrow> jsstring \<Rightarrow> modifier set \<Rightarrow> nat \<Rightarrow> indexer \<Rightarrow> indexer" where
  "storeConstant constName val modifiers line idx =
     (case ix_currentClass idx of
        Some c \<Rightarrow>
          updateClass c
            (\<lambda>cd. cd\<lparr>cd_constants :=
                 AList.update constName
                   \<lparr>ct_name = constName, ct_value = trim val, ct_modifiers = modifiers,
                    ct_file = ix_currentFile idx, ct_line = line,
                    ct_docComment = ix_lastDocComment idx\<rparr>
                   (cd_constants cd)\<rparr>)
            idx
      | None \<Rightarrow> idx)"

text \<open>
  One pass through the loop of \<open>parseProperty\<close> over the variables of a declaration
  (\<open>$a, $b = 1;\<close>). The first component of the result tells whether the loop goes on
  (\<open>continue\<close>, or the end of the body) or ends (\<open>break\<close>).
\<close>

definition propertyStep ::
  "token list \<Rightarrow> modifier set \<Rightarrow> nat \<Rightarrow> indexer \<Rightarrow> bool \<times> nat \<times> indexer" where
  "propertyStep tokens modifiers i idx =
     (let i = scanWhile isSpaceOrComment tokens i
      in if i < length tokens \<and> tk_type (tokens ! i) = T_VARIABLE then
           (let varToken = tokens ! i;
                propName = stripPrefix (str ''$'') (tk_value varToken);
                i = i + 1;
                i = scanWhile isSpaceOrComment tokens i;
                hasDefault = (i < length tokens \<and> tk_value (tokens ! i) = str ''='');
                j = (if hasDefault
                     then scanWhile (\<lambda>t. tk_value t \<noteq> str '','' \<and> tk_value t \<noteq> str '';'')
                            tokens (i + 1)
                     else i);
                val = (if hasDefault then valuesOf tokens (i + 1) j else []);
                defaultValue = (if trim val \<noteq> [] then Some (trim val) else None);
                idx = storeProperty propName modifiers defaultValue (tk_line varToken) idx
            in if j < length tokens \<and> tk_value (tokens ! j) = str '','' then (True, j + 1, idx)
               else if j < length tokens \<and> tk_value (tokens ! j) = str '';'' then
                 (False, j + 1, idx)
               else (True, j, idx))
         else
           (let i = scanWhile (\<lambda>t. tk_value t \<noteq> str '';'') tokens i;
                i = (if i < length tokens \<and> tk_value (tokens ! i) = str '';'' then i + 1 else i)
            in (False, i, idx)))"

lemma propertyStep_ge: "i \<le> fst (snd (propertyStep tokens modifiers i idx))"
proof -
  let ?a = "scanWhile isSpaceOrComment tokens i"
  let ?b = "scanWhile isSpaceOrComment tokens (?a + 1)"
  let ?c = "scanWhile (\<lambda>t. tk_value t \<noteq> str '','' \<and> tk_value t \<noteq> str '';'') tokens (?b + 1)"
  let ?d = "scanWhile (\<lambda>t. tk_value t \<noteq> str '';'') tokens ?a"
  have a: "i \<le> ?a" and b: "?a + 1 \<le> ?b" and c: "?b + 1 \<le> ?c" and d: "?a \<le> ?d"
    by (rule scanWhile_ge)+
  from a b c d show ?thesis
    unfolding propertyStep_def Let_def by (auto split: if_splits)
qed

lemma propertyStep_gt:
  assumes "fst (propertyStep tokens modifiers i idx)"
  shows "i < fst (snd (propertyStep tokens modifiers i idx))"
proof -
  let ?a = "scanWhile isSpaceOrComment tokens i"
  let ?b = "scanWhile isSpaceOrComment tokens (?a + 1)"
  let ?c = "scanWhile (\<lambda>t. tk_value t \<noteq> str '','' \<and> tk_value t \<noteq> str '';'') tokens (?b + 1)"
  have a: "i \<le> ?a" and b: "?a + 1 \<le> ?b" and c: "?b + 1 \<le> ?c"
    by (rule scanWhile_ge)+
  from assms a b c show ?thesis
    unfolding propertyStep_def Let_def by (auto split: if_splits)
qed

function propertyLoop ::
  "token list \<Rightarrow> modifier set \<Rightarrow> nat \<times> indexer \<Rightarrow> nat \<times> indexer" where
  "propertyLoop tokens modifiers (i, idx) =
     (if i < length tokens then
        (case propertyStep tokens modifiers i idx of
           (goOn, i', idx') \<Rightarrow>
             if goOn then propertyLoop tokens modifiers (i', idx') else (i', idx'))
      else (i, idx))"
  by pat_completeness auto
termination
  apply (relation "measure (\<lambda>(tokens, modifiers, i, idx). length tokens - i)")
   apply simp
  subgoal for tokens modifiers i idx x y xa ya
    using propertyStep_gt [of tokens modifiers i idx]
    by (cases "propertyStep tokens modifiers i idx") auto
  done

declare propertyLoop.simps [simp del]

text \<open>
  \<open>parseProperty\<close>. After the modifiers, a declaration with \<open>const\<close> and a name is a
  class constant; everything else goes to the loop over variables.
\<close>

definition parseProperty :: "indexer \<Rightarrow> token list \<Rightarrow> nat \<Rightarrow> jsstring \<Rightarrow> nat \<times> indexer" where
  "parseProperty idx tokens start fileKey =
     (case propertyModifiers tokens start {} of
        (i, modifiers) \<Rightarrow>
          (let modifiers =
                 (if Public \<notin> modifiers \<and> Protected \<notin> modifiers \<and> Private \<notin> modifiers
                     \<and> Const \<notin> modifiers
                  then insert Public modifiers else modifiers);
               k = (if Const \<in> modifiers then scanWhile isSpaceOrComment tokens i else i)
           in if Const \<in> modifiers \<and> k < length tokens \<and> tk_type (tokens ! k) = T_STRING then
                (let constName = tk_value (tokens ! k);
                     i = k + 1;
                     i = scanWhile (\<lambda>t. tk_value t \<noteq> str ''='') tokens i;
                     i = (if i < length tokens \<and> tk_value (tokens ! i) = str ''='' then i + 1
                          else i);
                     j = scanWhile (\<lambda>t. tk_value t \<noteq> str '';'') tokens i;
                     val = valuesOf tokens i j;
                     i = (if j < length tokens \<and> tk_value (tokens ! j) = str '';'' then j + 1
                          else j);
                     idx = storeConstant constName val modifiers (tk_line (tokens ! start)) idx
                 in (i, idx\<lparr>ix_lastDocComment := None\<rparr>))
              else
                (case propertyLoop tokens modifiers (k, idx) of
                   (i, idx) \<Rightarrow> (i, idx\<lparr>ix_lastDocComment := None\<rparr>))))"

text \<open>Each of these functions returns an index beyond the one it was called at.\<close>

lemma matchParens_ge: "i \<le> matchParens tokens i depth"
proof (induction tokens i depth rule: matchParens.induct)
  case (1 tokens i depth)
  have e: "matchParens tokens i depth =
     (if i < length tokens then
        (let depth = (if tk_value (tokens ! i) = str ''('' then depth + 1 else depth)
         in if tk_value (tokens ! i) = str '')'' then
              (if depth - 1 = 0 then Suc i else matchParens tokens (Suc i) (depth - 1))
            else matchParens tokens (Suc i) depth)
      else i)"
    by (rule matchParens.simps)
  show ?case
  proof (cases "i < length tokens")
    case False
    then show ?thesis unfolding e by simp
  next
    case True
    from 1 [OF True refl] True show ?thesis
      unfolding e Let_def by (auto split: if_splits)
  qed
qed

lemma paramLoop_ge: "i \<le> fst (paramLoop tokens i acc)"
proof (induction tokens i acc rule: paramLoop.induct)
  case (1 tokens i parameters inParams paramDepth currentParam)
  note e = paramLoop.simps [of tokens i parameters inParams paramDepth currentParam]
  show ?case
  proof (cases "i < length tokens")
    case False
    then show ?thesis unfolding e by simp
  next
    case True
    from 1 [OF True] True show ?thesis
      unfolding e by (auto split: if_splits)
  qed
qed

lemma parseFunction_progress: "start < fst (parseFunction idx tokens start fileKey)"
proof -
  let ?a = "scanWhile isIgnorable tokens (start + 1)"
  let ?b = "scanWhile (\<lambda>t. tk_value t \<noteq> str ''('') tokens ?a"
  let ?c = "matchParens tokens ?b 0"
  let ?d = "scanWhile (\<lambda>t. tk_value t \<noteq> str ''{'' \<and> tk_value t \<noteq> str '';'') tokens ?c"
  have a: "start + 1 \<le> ?a" by (rule scanWhile_ge)
  have b: "?a \<le> ?b" by (rule scanWhile_ge)
  have c: "?b \<le> ?c" by (rule matchParens_ge)
  have d: "?c \<le> ?d" by (rule scanWhile_ge)
  obtain j ps where p: "paramLoop tokens (?a + 1) ([], False, 0, []) = (j, ps)"
    by (cases "paramLoop tokens (?a + 1) ([], False, 0, [])") blast
  from paramLoop_ge [of "?a + 1" tokens "([], False, 0, [])"] have j: "?a + 1 \<le> j"
    unfolding p by simp
  let ?e = "scanWhile isIgnorable tokens j"
  let ?f = "scanWhile isTypeToken tokens (?e + 1)"
  have e: "j \<le> ?e" by (rule scanWhile_ge)
  have f: "?e + 1 \<le> ?f" by (rule scanWhile_ge)
  from a b c d j e f show ?thesis
    unfolding parseFunction_def Let_def p by (simp split: if_splits)
qed

lemma propertyModifiers_ge: "i \<le> fst (propertyModifiers tokens i modifiers)"
proof (induction tokens i modifiers rule: propertyModifiers.induct)
  case (1 tokens i modifiers)
  note e = propertyModifiers.simps [of tokens i modifiers]
  show ?case
  proof (cases "i < length tokens")
    case False
    then show ?thesis unfolding e by simp
  next
    case True
    from 1 [OF True] True show ?thesis
      unfolding e by (auto split: if_splits)
  qed
qed

lemma propertyModifiers_gt:
  assumes "i < length tokens"
    and "tk_type (tokens ! i) \<in> {T_PUBLIC, T_PROTECTED, T_PRIVATE, T_STATIC, T_CONST}"
  shows "i < fst (propertyModifiers tokens i modifiers)"
  using assms propertyModifiers_ge [of "Suc i" tokens]
  unfolding propertyModifiers.simps [of tokens i modifiers]
  by (auto simp: Suc_le_eq)

lemma propertyLoop_ge: "i \<le> fst (propertyLoop tokens modifiers (i, idx))"
proof (induction tokens modifiers "(i, idx)" arbitrary: i idx rule: propertyLoop.induct)
  case (1 tokens modifiers i idx)
  note e = propertyLoop.simps [of tokens modifiers i idx]
  show ?case
  proof (cases "i < length tokens")
    case False
    then show ?thesis unfolding e by simp
  next
    case True
    obtain goOn i' idx' where s: "propertyStep tokens modifiers i idx = (goOn, i', idx')"
      by (cases "propertyStep tokens modifiers i idx") blast
    from propertyStep_ge [of i tokens modifiers idx] have le: "i \<le> i'" by (simp add: s)
    show ?thesis
    proof (cases goOn)
      case False
      with True s le show ?thesis unfolding e by simp
    next
      case on: True
      from 1 [OF True s [symmetric] refl on]
      have "i' \<le> fst (propertyLoop tokens modifiers (i', idx'))" .
      with True s le on show ?thesis unfolding e by simp
    qed
  qed
qed

lemma parseProperty_progress:
  assumes "start < length tokens"
    and "tk_type (tokens ! start) \<in> {T_PUBLIC, T_PROTECTED, T_PRIVATE, T_STATIC, T_CONST}"
  shows "start < fst (parseProperty idx tokens start fileKey)"
proof -
  obtain i ms where m: "propertyModifiers tokens start {} = (i, ms)"
    by (cases "propertyModifiers tokens start {}") blast
  from propertyModifiers_gt [OF assms, of "{}"] have i: "start < i" by (simp add: m)
  define ms' where "ms' = (if Public \<notin> ms \<and> Protected \<notin> ms \<and> Private \<notin> ms \<and> Const \<notin> ms
                  then insert Public ms else ms)"
  define k where "k = (if Const \<in> ms' then scanWhile isSpaceOrComment tokens i else i)"
  have k: "i \<le> k" using scanWhile_ge [of i isSpaceOrComment tokens] by (simp add: k_def)
  define a where "a = scanWhile (\<lambda>t. tk_value t \<noteq> str ''='') tokens (k + 1)"
  have a: "k + 1 \<le> a" unfolding a_def by (rule scanWhile_ge)
  have b1: "a \<le> scanWhile (\<lambda>t. tk_value t \<noteq> str '';'') tokens a" by (rule scanWhile_ge)
  have b2: "a + 1 \<le> scanWhile (\<lambda>t. tk_value t \<noteq> str '';'') tokens (a + 1)"
    by (rule scanWhile_ge)
  obtain j idx' where l: "propertyLoop tokens ms' (k, idx) = (j, idx')"
    by (cases "propertyLoop tokens ms' (k, idx)") blast
  from propertyLoop_ge [of k tokens ms' idx] have j: "k \<le> j" by (simp add: l)
  have "fst (parseProperty idx tokens start fileKey) =
    (if Const \<in> ms' \<and> k < length tokens \<and> tk_type (tokens ! k) = T_STRING then
       (let i = (if a < length tokens \<and> tk_value (tokens ! a) = str ''='' then a + 1 else a);
            j = scanWhile (\<lambda>t. tk_value t \<noteq> str '';'') tokens i
        in if j < length tokens \<and> tk_value (tokens ! j) = str '';'' then j + 1 else j)
     else j)"
    unfolding parseProperty_def m prod.case Let_def ms'_def [symmetric] k_def [symmetric]
      a_def [symmetric]
    by (simp add: l)
  with i k a b1 b2 j show ?thesis by (auto simp: Let_def)
qed

subsection \<open>Class-like declarations\<close>

text \<open>
  The loop of \<open>parseClass\<close> that walks back from the token before the keyword, and
  the tokens it passes over in front of the class name.
\<close>

fun classModifiersBack :: "token list \<Rightarrow> nat \<Rightarrow> modifier set \<Rightarrow> modifier set" where
  "classModifiersBack tokens 0 modifiers = modifiers"
| "classModifiersBack tokens (Suc j) modifiers =
     (if tk_type (tokens ! j) \<noteq> T_CHAR then
        classModifiersBack tokens j
          (let modifiers = (if tk_type (tokens ! j) = T_ABSTRACT
                            then insert Abstract modifiers else modifiers);
               modifiers = (if tk_type (tokens ! j) = T_FINAL
                            then insert Final modifiers else modifiers)
           in modifiers)
      else modifiers)"

definition isSpaceOrAnyComment :: "token \<Rightarrow> bool" where
  "isSpaceOrAnyComment t =
     (tk_type t = T_WHITESPACE \<or> tk_type t = T_COMMENT \<or> tk_type t = T_DOC_COMMENT)"

text \<open>
  The loop between the class name and the opening brace. After \<open>extends\<close> one
  identifier is taken as a parent; after \<open>implements\<close> every identifier up to the
  brace is taken as an interface.
\<close>

function classHeaderLoop ::
  "token list \<Rightarrow> nat \<Rightarrow> jsstring list \<times> jsstring list
   \<Rightarrow> nat \<times> jsstring list \<times> jsstring list" where
  "classHeaderLoop tokens i (extendsClass, implementsInterfaces) =
     (if i < length tokens \<and> tk_value (tokens ! i) \<noteq> str ''{'' then
        (if tk_type (tokens ! i) = T_EXTENDS then
           (if scanWhile isSpaceToken tokens (i + 1) < length tokens
               \<and> tk_type (tokens ! scanWhile isSpaceToken tokens (i + 1)) = T_STRING
            then classHeaderLoop tokens (scanWhile isSpaceToken tokens (i + 1) + 1)
                   (extendsClass @ [tk_value (tokens ! scanWhile isSpaceToken tokens (i + 1))],
                    implementsInterfaces)
            else classHeaderLoop tokens (scanWhile isSpaceToken tokens (i + 1))
                   (extendsClass, implementsInterfaces))
         else if tk_type (tokens ! i) = T_IMPLEMENTS then
           classHeaderLoop tokens (scanWhile (\<lambda>t. tk_value t \<noteq> str ''{'') tokens (i + 1))
             (extendsClass,
              implementsInterfaces
              @ map tk_value
                  (filter (\<lambda>t. tk_type t = T_STRING)
                     (slice tokens (i + 1)
                        (scanWhile (\<lambda>t. tk_value t \<noteq> str ''{'') tokens (i + 1)))))
         else classHeaderLoop tokens (i + 1) (extendsClass, implementsInterfaces))
      else (i, extendsClass, implementsInterfaces))"
  by pat_completeness auto
termination
proof (relation "measure (\<lambda>(tokens, i, acc). length tokens - i)", goal_cases)
  case 1
  show ?case by simp
next
  case (2 tokens i extendsClass implementsInterfaces)
  with scanWhile_ge [of "i + 1" isSpaceToken tokens] show ?case by auto
next
  case (3 tokens i extendsClass implementsInterfaces)
  with scanWhile_ge [of "i + 1" isSpaceToken tokens] show ?case by auto
next
  case (4 tokens i extendsClass implementsInterfaces)
  with scanWhile_ge [of "i + 1" "\<lambda>t. tk_value t \<noteq> str ''{''" tokens] show ?case by auto
next
  case (5 tokens i extendsClass implementsInterfaces)
  then show ?case by auto
qed

declare classHeaderLoop.simps [simp del]

lemma classHeaderLoop_ge: "i \<le> fst (classHeaderLoop tokens i acc)"
proof (induction tokens i acc rule: classHeaderLoop.induct)
  case (1 tokens i extendsClass implementsInterfaces)
  note e = classHeaderLoop.simps [of tokens i extendsClass implementsInterfaces]
  show ?case
  proof (cases "i < length tokens \<and> tk_value (tokens ! i) \<noteq> str ''{''")
    case False
    then show ?thesis unfolding e by auto
  next
    case True
    from 1 [OF True] True
      scanWhile_ge [of "i + 1" isSpaceToken tokens]
      scanWhile_ge [of "i + 1" "\<lambda>t. tk_value t \<noteq> str ''{''" tokens]
    show ?thesis
      unfolding e by (auto split: if_splits)
  qed
qed

text \<open>
  The loop over the body of a class, with the variables \<open>i\<close> and \<open>braceDepth\<close>.
\<close>

function classBodyLoop ::
  "token list \<Rightarrow> jsstring \<Rightarrow> nat \<times> nat \<times> indexer \<Rightarrow> nat \<times> indexer" where
  "classBodyLoop tokens fileKey (i, braceDepth, idx) =
     (if i < length tokens \<and> braceDepth > 0 then
        (if tk_value (tokens ! i) = str ''{'' then
           classBodyLoop tokens fileKey (i + 1, braceDepth + 1, idx)
         else if tk_value (tokens ! i) = str ''}'' then
           classBodyLoop tokens fileKey (i + 1, braceDepth - 1, idx)
         else if tk_type (tokens ! i) = T_DOC_COMMENT then
           classBodyLoop tokens fileKey
             (i + 1, braceDepth,
              idx\<lparr>ix_lastDocComment := Some (parseDocComment (tk_value (tokens ! i)))\<rparr>)
         else if tk_type (tokens ! i) = T_FUNCTION then
           classBodyLoop tokens fileKey
             (fst (parseFunction idx tokens i fileKey), braceDepth,
              snd (parseFunction idx tokens i fileKey))
         else if tk_type (tokens ! i) \<in> {T_PUBLIC, T_PROTECTED, T_PRIVATE, T_STATIC, T_CONST} then
           classBodyLoop tokens fileKey
             (fst (parseProperty idx tokens i fileKey), braceDepth,
              snd (parseProperty idx tokens i fileKey))
         else classBodyLoop tokens fileKey (i + 1, braceDepth, idx))
      else (i, idx))"
  by pat_completeness auto
termination
proof (relation "measure (\<lambda>(tokens, fileKey, i, braceDepth, idx). length tokens - i)",
    goal_cases)
  case 1
  show ?case by simp
next
  case (2 tokens fileKey i braceDepth idx)
  then show ?case by auto
next
  case (3 tokens fileKey i braceDepth idx)
  then show ?case by auto
next
  case (4 tokens fileKey i braceDepth idx)
  then show ?case by auto
next
  case (5 tokens fileKey i braceDepth idx)
  with parseFunction_progress [of i idx tokens fileKey] show ?case by auto
next
  case (6 tokens fileKey i braceDepth idx)
  with parseProperty_progress [of i tokens idx fileKey] show ?case by auto
next
  case (7 tokens fileKey i braceDepth idx)
  then show ?case by auto
qed

declare classBodyLoop.simps [simp del]

lemma classBodyLoop_ge: "i \<le> fst (classBodyLoop tokens fileKey (i, braceDepth, idx))"
proof (induction tokens fileKey "(i, braceDepth, idx)" arbitrary: i braceDepth idx
    rule: classBodyLoop.induct)
  case (1 tokens fileKey i braceDepth idx)
  note e = classBodyLoop.simps [of tokens fileKey i braceDepth idx]
  show ?case
  proof (cases "i < length tokens \<and> braceDepth > 0")
    case False
    then show ?thesis unfolding e by auto
  next
    case True
    from 1 [OF True] True
      parseFunction_progress [of i idx tokens fileKey]
      parseProperty_progress [of i tokens idx fileKey]
    show ?thesis
      unfolding e by (auto split: if_splits)
  qed
qed

text \<open>\<open>Set.prototype.add\<close> on a set kept as the list of its members in insertion order.\<close>

definition addToSet :: "'a \<Rightarrow> 'a list \<Rightarrow> 'a list" where
  "addToSet x xs = (if x \<in> set xs then xs else xs @ [x])"

text \<open>
  \<open>parseClass\<close>, for the keywords \<open>class\<close>, \<open>interface\<close> and \<open>trait\<close> alike. The new
  class object gets the next free address; \<open>classes\<close>, the \<open>classes\<close> of the file
  record and \<open>currentClass\<close> refer to it.
\<close>

definition parseClass :: "indexer \<Rightarrow> token list \<Rightarrow> nat \<Rightarrow> jsstring \<Rightarrow> nat \<times> indexer" where
  "parseClass idx tokens start fileKey =
     (let classType = toLowerCase (tk_value (tokens ! start));
          modifiers = classModifiersBack tokens start {};
          i = scanWhile isSpaceOrAnyComment tokens (start + 1)
      in
        if i \<ge> length tokens \<or> tk_type (tokens ! i) \<noteq> T_STRING then (i, idx)
        else
          (let className = tk_value (tokens ! i)
           in case classHeaderLoop tokens (i + 1) ([], []) of
                (i, extendsClass, implementsInterfaces) \<Rightarrow>
                  (let fullClassName =
                         (if ix_currentNamespace idx \<noteq> []
                          then ix_currentNamespace idx @ [92] @ className else className);
                       classDefinition =
                         \<lparr>cd_name = className, cd_fullName = fullClassName,
                          cd_namespace = ix_currentNamespace idx, cd_type = classType,
                          cd_modifiers = modifiers, cd_extends = extendsClass,
                          cd_implements = implementsInterfaces, cd_methods = [],
                          cd_properties = [], cd_constants = [],
                          cd_file = ix_currentFile idx,
                          cd_docComment = ix_lastDocComment idx,
                          cd_line = tk_line (tokens ! start),
                          cd_inheritanceResolved = False\<rparr>;
                       a = ix_nextAddr idx;
                       idx =
                         (updateFile fileKey
                            (\<lambda>fileData. fileData\<lparr>fd_classes :=
                                 AList.update className a (fd_classes fileData)\<rparr>) idx)
                           \<lparr>ix_heap := (ix_heap idx)(a := classDefinition),
                            ix_nextAddr := a + 1,
                            ix_classes := AList.update fullClassName a (ix_classes idx),
                            ix_currentClass := Some a,
                            ix_namespaces :=
                              (if ix_currentNamespace idx \<noteq> []
                                  \<and> map_of (ix_namespaces idx) (ix_currentNamespace idx) \<noteq> None
                               then AList.map_entry (ix_currentNamespace idx)
                                      (addToSet fullClassName) (ix_namespaces idx)
                               else ix_namespaces idx),
                            ix_lastDocComment := None\<rparr>
                   in if i \<ge> length tokens \<or> tk_value (tokens ! i) \<noteq> str ''{'' then (i, idx)
                      else
                        (case classBodyLoop tokens fileKey (i + 1, 1, idx) of
                           (i, idx) \<Rightarrow> (i, idx\<lparr>ix_currentClass := None\<rparr>)))))"

lemma parseNamespace_progress: "start < fst (parseNamespace idx tokens start fileKey)"
proof -
  let ?a = "scanWhile isSpaceToken tokens (start + 1)"
  let ?b = "scanWhile (\<lambda>t. tk_type t = T_STRING \<or> tk_value t = [92]) tokens ?a"
  have "start + 1 \<le> ?a" "?a \<le> ?b" by (rule scanWhile_ge)+
  then show ?thesis unfolding parseNamespace_def Let_def by simp
qed

lemma parseUseLoop_ge: "i \<le> fst (parseUseLoop tokens i acc)"
proof (induction tokens i acc rule: parseUseLoop.induct)
  case (1 tokens i useName al inAlias)
  note e = parseUseLoop.simps [of tokens i useName al inAlias]
  show ?case
  proof (cases "i < length tokens \<and> tk_value (tokens ! i) \<noteq> str '';''")
    case False
    then show ?thesis unfolding e by auto
  next
    case True
    from 1 [OF True] True show ?thesis
      unfolding e
      by (cases "toLowerCase (tk_value (tokens ! i)) = str ''as''") (auto split: if_splits)
  qed
qed

lemma parseUse_progress: "start < fst (parseUse idx tokens start fileKey)"
proof -
  let ?a = "scanWhile isSpaceToken tokens (start + 1)"
  obtain j u al where l: "parseUseLoop tokens ?a ([], [], False) = (j, u, al)"
    by (cases "parseUseLoop tokens ?a ([], [], False)") auto
  have "start + 1 \<le> ?a" by (rule scanWhile_ge)
  moreover from parseUseLoop_ge [of ?a tokens "([], [], False)"] have "?a \<le> j"
    unfolding l by simp
  ultimately show ?thesis unfolding parseUse_def Let_def l by simp
qed

lemma parseClass_progress: "start < fst (parseClass idx tokens start fileKey)"
proof -
  define a where "a = scanWhile isSpaceOrAnyComment tokens (start + 1)"
  have a: "start + 1 \<le> a" unfolding a_def by (rule scanWhile_ge)
  obtain j ex im where h: "classHeaderLoop tokens (a + 1) ([], []) = (j, ex, im)"
    by (cases "classHeaderLoop tokens (a + 1) ([], [])") auto
  from classHeaderLoop_ge [of "a + 1" tokens "([], [])"] have j: "a + 1 \<le> j"
    unfolding h by simp
  have b: "\<And>idx'. j + 1 \<le> fst (classBodyLoop tokens fileKey (j + 1, 1, idx'))"
    by (rule classBodyLoop_ge)
  show ?thesis
  proof (cases "a \<ge> length tokens \<or> tk_type (tokens ! a) \<noteq> T_STRING")
    case True
    with a show ?thesis
      unfolding parseClass_def Let_def a_def [symmetric] by auto
  next
    case False
    then have "fst (parseClass idx tokens start fileKey) = j
      \<or> (\<exists>idx'. fst (parseClass idx tokens start fileKey)
            = fst (classBodyLoop tokens fileKey (j + 1, 1, idx')))"
      unfolding parseClass_def Let_def a_def [symmetric] h
      by (auto simp: case_prod_beta)
    then show ?thesis
    proof
      assume "fst (parseClass idx tokens start fileKey) = j"
      with a j show ?thesis by simp
    next
      assume "\<exists>idx'. fst (parseClass idx tokens start fileKey)
            = fst (classBodyLoop tokens fileKey (j + 1, 1, idx'))"
      then obtain idx' where e: "fst (parseClass idx tokens start fileKey)
            = fst (classBodyLoop tokens fileKey (j + 1, 1, idx'))" by blast
      from b [of idx'] a j show ?thesis unfolding e by simp
    qed
  qed
qed

text \<open>The main loop of \<open>parseTokens\<close>: the \<open>switch\<close> on the type of the token.\<close>

function parseTokens :: "token list \<Rightarrow> jsstring \<Rightarrow> nat \<times> indexer \<Rightarrow> indexer" where
  "parseTokens tokens fileKey (i, idx) =
     (if i < length tokens then
        (if tk_type (tokens ! i) = T_NAMESPACE then
           parseTokens tokens fileKey (parseNamespace idx tokens i fileKey)
         else if tk_type (tokens ! i) = T_USE then
           parseTokens tokens fileKey (parseUse idx tokens i fileKey)
         else if tk_type (tokens ! i) \<in> {T_CLASS, T_INTERFACE, T_TRAIT} then
           parseTokens tokens fileKey (parseClass idx tokens i fileKey)
         else if tk_type (tokens ! i) = T_FUNCTION then
           parseTokens tokens fileKey (parseFunction idx tokens i fileKey)
         else if tk_type (tokens ! i) = T_DOC_COMMENT then
           parseTokens tokens fileKey
             (i + 1, idx\<lparr>ix_lastDocComment := Some (parseDocComment (tk_value (tokens ! i)))\<rparr>)
         else parseTokens tokens fileKey (i + 1, idx))
      else idx)"
  by pat_completeness auto
termination
proof (relation "measure (\<lambda>(tokens, fileKey, i, idx). length tokens - i)", goal_cases)
  case 1
  show ?case by simp
next
  case (2 tokens fileKey i idx)
  with parseNamespace_progress [of i idx tokens fileKey] show ?case
    by (cases "parseNamespace idx tokens i fileKey") auto
next
  case (3 tokens fileKey i idx)
  with parseUse_progress [of i idx tokens fileKey] show ?case
    by (cases "parseUse idx tokens i fileKey") auto
next
  case (4 tokens fileKey i idx)
  with parseClass_progress [of i idx tokens fileKey] show ?case
    by (cases "parseClass idx tokens i fileKey") auto
next
  case (5 tokens fileKey i idx)
  with parseFunction_progress [of i idx tokens fileKey] show ?case
    by (cases "parseFunction idx tokens i fileKey") auto
next
  case (6 tokens fileKey i idx)
  then show ?case by auto
next
  case (7 tokens fileKey i idx)
  then show ?case by auto
qed

declare parseTokens.simps [simp del]

section \<open>Indexing runs and statistics\<close>

text \<open>
  \<open>clearIndex\<close> empties the eight containers. The class objects of the store are no
  longer referred to afterwards.
\<close>

definition clearIndex :: "indexer \<Rightarrow> indexer" where
  "clearIndex idx =
     idx\<lparr>ix_classes := [], ix_interfaces := [], ix_traits := [], ix_functions := [],
         ix_namespaces := [], ix_uses := [], ix_fileIndex := [], ix_done := {}\<rparr>"

text \<open>
  \<open>processPhpFile\<close>. The content is what \<open>readFile\<close> returned, \<open>None\<close> when the read
  failed: the error is caught and logged, and nothing is changed. Nothing in the
  parser throws, so the \<open>catch\<close> has no other case.
\<close>

definition processPhpFile :: "indexer \<Rightarrow> jsstring \<Rightarrow> jsstring option \<Rightarrow> indexer" where
  "processPhpFile idx filePath content =
     (case content of
        None \<Rightarrow> idx
      | Some content \<Rightarrow>
          (let idx = idx\<lparr>ix_currentFile := filePath, ix_currentNamespace := [],
                        ix_currentClass := None\<rparr>;
               fileKey = normalizeFilePath filePath;
               idx = idx\<lparr>ix_fileIndex :=
                        AList.update fileKey
                          \<lparr>fd_path = filePath, fd_namespace = [], fd_uses = [],
                           fd_classes = [], fd_functions = []\<rparr>
                          (ix_fileIndex idx)\<rparr>;
               tokens = tokenize content
           in parseTokens tokens fileKey (0, idx)))"

text \<open>
  \<open>indexPhpFiles\<close>, given the files that \<open>findPhpFiles\<close> found, each with the outcome
  of its read, in the order in which the reads complete. The files of a batch are read
  concurrently, but a file is tokenized and parsed without interruption once its
  content has arrived, so a run processes the files one after the other in some order.
  The progress callback and the pauses between batches are left out.
\<close>

definition indexPhpFiles ::
  "nat \<Rightarrow> indexer \<Rightarrow> (jsstring \<times> jsstring option) list \<Rightarrow> error + indexer" where
  "indexPhpFiles depth idx files =
     (let idx = clearIndex idx;
          idx = idx\<lparr>ix_totalFiles := length files, ix_processedFiles := 0\<rparr>;
          idx = foldl (\<lambda>idx (filePath, content). processPhpFile idx filePath content) idx files;
          idx = idx\<lparr>ix_processedFiles := length files\<rparr>
      in postProcessIndex depth idx)"

text \<open>\<open>getStatistics\<close>; \<open>size\<close> of a map is the length of its list of entries.\<close>

record statistics =
  st_classes :: nat
  st_interfaces :: nat
  st_traits :: nat
  st_functions :: nat
  st_namespaces :: nat
  st_files :: nat
  st_totalMethods :: nat
  st_totalProperties :: nat

definition getStatistics :: "indexer \<Rightarrow> statistics" where
  "getStatistics idx =
     \<lparr>st_classes = length (ix_classes idx),
      st_interfaces = length (ix_interfaces idx),
      st_traits = length (ix_traits idx),
      st_functions = length (ix_functions idx),
      st_namespaces = length (ix_namespaces idx),
      st_files = length (ix_fileIndex idx),
      st_totalMethods =
        foldl (\<lambda>sum cls. sum + length (cd_methods (ix_heap idx cls))) 0
          (map snd (ix_classes idx)),
      st_totalProperties =
        foldl (\<lambda>sum cls. sum + length (cd_properties (ix_heap idx cls))) 0
          (map snd (ix_classes idx))\<rparr>"

section \<open>Completion queries\<close>

text \<open>
  The context object of a query. The queries read its field \<open>inSameClass\<close> only; an
  absent field is falsy.
\<close>

record queryContext =
  qc_inSameClass :: bool

text \<open>\<open>inferClassContext\<close>: the body is \<open>return null\<close>, whatever the context.\<close>

definition inferClassContext :: "queryContext \<Rightarrow> nat option" where
  "inferClassContext context = None"

text \<open>The decimal digits of a number, as a template literal writes \<open>index + 1\<close>.\<close>

function showNat :: "nat \<Rightarrow> jsstring" where
  "showNat n = (if n < 10 then [48 + n] else showNat (n div 10) @ [48 + n mod 10])"
  by pat_completeness auto
termination
  by (relation "measure id") auto

declare showNat.simps [simp del]

text \<open>
  \<open>formatParameters\<close>: the pair of \<open>snippet\<close> and \<open>signature\<close>. The two branches of the
  conditional that builds the placeholder are the same expression.
\<close>

definition signatureParam :: "parameter \<Rightarrow> jsstring" where
  "signatureParam param =
     (let paramStr = [];
          paramStr = (case pm_type param of
                        Some t \<Rightarrow> if t \<noteq> [] then paramStr @ t @ str '' '' else paramStr
                      | None \<Rightarrow> paramStr);
          paramStr = (if pm_isReference param then paramStr @ str ''&'' else paramStr);
          paramStr = (if pm_isVariadic param then paramStr @ str ''...'' else paramStr);
          paramStr = paramStr @ str ''$'' @ pm_name param;
          paramStr = (case pm_defaultValue param of
                        Some d \<Rightarrow> paramStr @ str '' = '' @ d
                      | None \<Rightarrow> paramStr)
      in paramStr)"

definition snippetParam :: "nat \<Rightarrow> parameter \<Rightarrow> jsstring" where
  "snippetParam index param =
     str ''${'' @ showNat (index + 1) @ str '':$'' @ pm_name param @ str ''}''"

definition formatParameters :: "parameter list \<Rightarrow> jsstring \<times> jsstring" where
  "formatParameters parameters =
     (joinWith (str '', '') (map (\<lambda>(index, param). snippetParam index param)
                               (enumerate 0 parameters)),
      joinWith (str '', '') (map signatureParam parameters))"

text \<open>
  \<open>formatDocText(data)\<close>, given \<open>data.docComment\<close> and \<open>data.name\<close>. The empty string
  is falsy; a line feed is the code unit 10.
\<close>

definition orDefault :: "jsstring \<Rightarrow> jsstring" where
  "orDefault name = (if name \<noteq> [] then name else str ''No documentation available'')"

definition formatDocText :: "docComment option \<Rightarrow> jsstring \<Rightarrow> jsstring" where
  "formatDocText docComment name =
     (case docComment of
        None \<Rightarrow> orDefault name
      | Some dc \<Rightarrow>
          (let text = [];
               text = (if dc_summary dc \<noteq> [] then text @ dc_summary dc else text);
               text = (if dc_description dc \<noteq> []
                       then text @ (if text \<noteq> [] then [10, 10] else []) @ dc_description dc
                       else text);
               text = (case map_of (dc_tags dc) (str ''param'') of
                         Some params \<Rightarrow>
                           text @ [10, 10] @ str ''Parameters:'' @ [10]
                             @ joinWith [10] (map (\<lambda>p. str ''  '' @ p) params)
                       | None \<Rightarrow> text);
               text = (case map_of (dc_tags dc) (str ''return'') of
                         Some returns \<Rightarrow>
                           text @ [10, 10] @ str ''Returns: ''
                             @ (case returns of [] \<Rightarrow> str ''undefined'' | r # rest \<Rightarrow> r)
                       | None \<Rightarrow> text)
           in if text \<noteq> [] then text else orDefault name))"

definition createMethodCompletion :: "jsstring \<Rightarrow> functionDefinition \<Rightarrow> completion" where
  "createMethodCompletion methodName methodData =
     (let params = formatParameters (fn_parameters methodData)
      in \<lparr>ci_caption = methodName,
          ci_value = methodName @ str ''('' @ fst params @ str '')'',
          ci_meta = (if Static \<in> fn_modifiers methodData then str ''static method''
                     else str ''method''),
          ci_score = 1000,
          ci_docText = formatDocText (fn_docComment methodData) (fn_name methodData)
             @ [10, 10] @ str ''Signature: '' @ methodName @ str ''('' @ snd params @ str '')'',
          ci_snippet = None\<rparr>)"

text \<open>
  A loop over the entries of a map that pushes a completion for every entry that
  passes the test, unless the name is in the set \<open>done\<close>, and adds the name to
  \<open>done\<close>. The state of the loop is the array \<open>completions\<close> and the set \<open>done\<close>.
\<close>

definition collect ::
  "(jsstring \<Rightarrow> 'a \<Rightarrow> bool) \<Rightarrow> (jsstring \<Rightarrow> 'a \<Rightarrow> completion) \<Rightarrow> (jsstring \<times> 'a) list
     \<Rightarrow> completion list \<times> jsstring set \<Rightarrow> completion list \<times> jsstring set" where
  "collect test build entries state =
     foldl (\<lambda>(completions, done_set) (name, data).
              if test name data then
                (if name \<in> done_set then (completions, done_set)
                 else (completions @ [build name data], insert name done_set))
              else (completions, done_set))
       state entries"

text \<open>The property type \<open>PROPERTY_CONST\<close>.\<close>

definition PROPERTY_CONST :: nat where
  "PROPERTY_CONST = 2"

text \<open>
  \<open>getStaticMethodCompletions(prefix, context)\<close>: the sorted completions and the
  indexer, whose set \<open>done\<close> the query clears and fills. The first two arguments are
  \<open>String.prototype.toLowerCase\<close> and \<open>String.prototype.localeCompare\<close> of the host.
\<close>

definition getStaticMethodCompletions ::
  "(jsstring \<Rightarrow> jsstring) \<Rightarrow> (jsstring \<Rightarrow> jsstring \<Rightarrow> int) \<Rightarrow> indexer \<Rightarrow> jsstring
     \<Rightarrow> queryContext \<Rightarrow> completion list \<times> indexer" where
  "getStaticMethodCompletions lower lc idx prefix context =
     (let completions = [];
          done_set = {};
          lowerPrefix = lower prefix;
          classContext = inferClassContext context;
          (completions, done_set) =
            (case classContext of
               Some c \<Rightarrow>
                 (let classContext = ix_heap idx c;
                      state = collect
                        (\<lambda>methodName methodData.
                            startsWith (lower methodName) lowerPrefix
                            \<and> Static \<in> fn_modifiers methodData
                            \<and> (Public \<in> fn_modifiers methodData \<or> qc_inSameClass context))
                        createMethodCompletion
                        (cd_methods classContext) (completions, done_set);
                      state = collect
                        (\<lambda>propName propData.
                            startsWith (lower propName) lowerPrefix
                            \<and> (Static \<in> pr_modifiers propData
                                 \<or> pr_type propData = Some PROPERTY_CONST)
                            \<and> (Public \<in> pr_modifiers propData \<or> qc_inSameClass context))
                        (\<lambda>propName propData.
                            \<lparr>ci_caption = propName,
                             ci_value = (if Static \<in> pr_modifiers propData
                                         then str ''$'' @ propName else propName),
                             ci_meta = (if pr_type propData = Some PROPERTY_CONST
                                        then str ''constant'' else str ''static property''),
                             ci_score = calculateScore lower propName prefix
                                          (Some (pr_modifiers propData)),
                             ci_docText = formatDocText (pr_docComment propData)
                                            (pr_name propData),
                             ci_snippet = None\<rparr>)
                        (cd_properties classContext) state;
                      state = collect
                        (\<lambda>constName constData.
                            startsWith (lower constName) lowerPrefix
                            \<and> (Public \<in> ct_modifiers constData \<or> qc_inSameClass context))
                        (\<lambda>constName constData.
                            \<lparr>ci_caption = constName, ci_value = constName,
                             ci_meta = str ''constant'',
                             ci_score = calculateScore lower constName prefix
                                          (Some (ct_modifiers constData)),
                             ci_docText = formatDocText (ct_docComment constData)
                                            (ct_name constData),
                             ci_snippet = None\<rparr>)
                        (cd_constants classContext) state
                  in state)
             | None \<Rightarrow> (completions, done_set))
      in (sortCompletions lc completions prefix, idx\<lparr>ix_done := done_set\<rparr>))"

text \<open>
  \<open>getMethodCompletions(prefix, context)\<close>, the query after \<open>->\<close>. Without a class
  context it goes through the public methods of all the classes.
\<close>

definition getMethodCompletions ::
  "(jsstring \<Rightarrow> jsstring) \<Rightarrow> (jsstring \<Rightarrow> jsstring \<Rightarrow> int) \<Rightarrow> indexer \<Rightarrow> jsstring
     \<Rightarrow> queryContext \<Rightarrow> completion list \<times> indexer" where
  "getMethodCompletions lower lc idx prefix context =
     (let completions = [];
          done_set = {};
          lowerPrefix = lower prefix;
          classContext = inferClassContext context;
          (completions, done_set) =
            (case classContext of
               Some c \<Rightarrow>
                 (let classContext = ix_heap idx c;
                      state = collect
                        (\<lambda>methodName methodData.
                            startsWith (lower methodName) lowerPrefix
                            \<and> (Public \<in> fn_modifiers methodData \<or> qc_inSameClass context))
                        createMethodCompletion
                        (cd_methods classContext) (completions, done_set);
                      state = collect
                        (\<lambda>propName propData.
                            startsWith (lower propName) lowerPrefix
                            \<and> (Public \<in> pr_modifiers propData \<or> qc_inSameClass context)
                            \<and> Static \<notin> pr_modifiers propData)
                        (\<lambda>propName propData.
                            \<lparr>ci_caption = propName, ci_value = propName,
                             ci_meta = str ''property'',
                             ci_score = calculateScore lower propName prefix
                                          (Some (pr_modifiers propData)),
                             ci_docText = formatDocText (pr_docComment propData)
                                            (pr_name propData),
                             ci_snippet = None\<rparr>)
                        (cd_properties classContext) state
                  in state)
             | None \<Rightarrow>
                 foldl (\<lambda>state (className, classData).
                          collect
                            (\<lambda>methodName methodData.
                                startsWith (lower methodName) lowerPrefix
                                \<and> Public \<in> fn_modifiers methodData)
                            (\<lambda>methodName methodData.
                                (let completion = createMethodCompletion methodName methodData
                                 in completion\<lparr>ci_docText :=
                                      ci_docText completion @ [10, 10] @ str ''Class: ''
                                        @ className\<rparr>))
                            (cd_methods (ix_heap idx classData)) state)
                   (completions, done_set) (ix_classes idx))
      in (sortCompletions lc completions prefix, idx\<lparr>ix_done := done_set\<rparr>))"

section \<open>Notions used in the statements\<close>

text \<open>The modifier that a token type stands for in \<open>parseFunction\<close>, if any.\<close>

definition modifierOfToken :: "token_type \<Rightarrow> modifier option" where
  "modifierOfToken ty =
     (if ty = T_PUBLIC then Some Public
      else if ty = T_PROTECTED then Some Protected
      else if ty = T_PRIVATE then Some Private
      else if ty = T_STATIC then Some Static
      else if ty = T_ABSTRACT then Some Abstract
      else if ty = T_FINAL then Some Final
      else None)"

definition modifiersAmong :: "token list \<Rightarrow> modifier set" where
  "modifiersAmong ts = set (List.map_filter (\<lambda>t. modifierOfToken (tk_type t)) ts)"

text \<open>
  The tokens in front of position \<open>start\<close>, nearest first: \<open>tokensBefore\<close> goes back to
  the nearest single-character token (or to the first token), \<open>contiguousModifiers\<close>
  only as far as the tokens are modifier keywords.
\<close>

definition tokensBefore :: "token list \<Rightarrow> nat \<Rightarrow> token list" where
  "tokensBefore tokens start = takeWhile (\<lambda>t. tk_type t \<noteq> T_CHAR) (rev (take start tokens))"

definition contiguousModifiers :: "token list \<Rightarrow> nat \<Rightarrow> token list" where
  "contiguousModifiers tokens start =
     takeWhile (\<lambda>t. modifierOfToken (tk_type t) \<noteq> None) (rev (take start tokens))"

text \<open>
  The modifier set of C9 as it is stated: the contiguous modifier tokens in front of
  the keyword, and public when none of the three visibilities is among them.
\<close>

definition modifiers_as_specified :: "token list \<Rightarrow> nat \<Rightarrow> modifier set" where
  "modifiers_as_specified tokens start =
     (let ms = modifiersAmong (contiguousModifiers tokens start)
      in if Public \<notin> ms \<and> Protected \<notin> ms \<and> Private \<notin> ms then insert Public ms else ms)"

text \<open>
  The definition that \<open>parseFunction\<close> has stored under a name: in the methods of the
  current class if there was one, else in the map of functions under the qualified
  name.
\<close>

definition storedFunction ::
  "indexer \<Rightarrow> indexer \<Rightarrow> jsstring \<Rightarrow> functionDefinition option" where
  "storedFunction before after name =
     (case ix_currentClass before of
        Some c \<Rightarrow> map_of (cd_methods (ix_heap after c)) name
      | None \<Rightarrow>
          map_of (ix_functions after)
            (if ix_currentNamespace before \<noteq> []
             then ix_currentNamespace before @ [92] @ name else name))"

text \<open>
  The tokens of \<open><?php class A { final /*c*/ function f(){} }\<close>, as \<open>tokenize\<close>
  returns them. The keyword \<open>function\<close> is the token at index 6.
\<close>

definition finalTokens :: "token list" where
  "finalTokens =
     [\<lparr>tk_type = T_OPEN_TAG, tk_value = str ''<?php'', tk_line = 1, tk_column = 2\<rparr>,
      \<lparr>tk_type = T_CLASS, tk_value = str ''class'', tk_line = 1, tk_column = 4\<rparr>,
      \<lparr>tk_type = T_STRING, tk_value = str ''A'', tk_line = 1, tk_column = 6\<rparr>,
      \<lparr>tk_type = T_CHAR, tk_value = str ''{'', tk_line = 1, tk_column = 8\<rparr>,
      \<lparr>tk_type = T_FINAL, tk_value = str ''final'', tk_line = 1, tk_column = 10\<rparr>,
      \<lparr>tk_type = T_COMMENT, tk_value = str ''/*c*/'', tk_line = 1, tk_column = 12\<rparr>,
      \<lparr>tk_type = T_FUNCTION, tk_value = str ''function'', tk_line = 1, tk_column = 14\<rparr>,
      \<lparr>tk_type = T_STRING, tk_value = str ''f'', tk_line = 1, tk_column = 16\<rparr>,
      \<lparr>tk_type = T_CHAR, tk_value = str ''('', tk_line = 1, tk_column = 17\<rparr>,
      \<lparr>tk_type = T_CHAR, tk_value = str '')'', tk_line = 1, tk_column = 18\<rparr>,
      \<lparr>tk_type = T_CHAR, tk_value = str ''{'', tk_line = 1, tk_column = 19\<rparr>,
      \<lparr>tk_type = T_CHAR, tk_value = str ''}'', tk_line = 1, tk_column = 20\<rparr>,
      \<lparr>tk_type = T_CHAR, tk_value = str ''}'', tk_line = 1, tk_column = 22\<rparr>]"

section \<open>Sequences of operations on the index\<close>

text \<open>The index that a call leaves behind, whether it returned or threw.\<close>

definition indexAfter :: "error + indexer \<Rightarrow> indexer" where
  "indexAfter r = (case r of Inl (RangeError idx) \<Rightarrow> idx | Inr idx \<Rightarrow> idx)"

text \<open>
  The methods of the indexer that assign to its fields or to the objects it holds.
  All the others (the completion queries, \<open>getStatistics\<close>, \<open>search\<close>) only read.
  \<open>afterOperations\<close> is the index after a sequence of such calls on a new indexer.
\<close>

datatype operation =
  ClearIndex
  | ProcessPhpFile jsstring "jsstring option"
  | PostProcessIndex nat
  | IndexPhpFiles nat "(jsstring \<times> jsstring option) list"

fun perform :: "indexer \<Rightarrow> operation \<Rightarrow> indexer" where
  "perform idx ClearIndex = clearIndex idx"
| "perform idx (ProcessPhpFile filePath content) = processPhpFile idx filePath content"
| "perform idx (PostProcessIndex depth) = indexAfter (postProcessIndex depth idx)"
| "perform idx (IndexPhpFiles depth files) = indexAfter (indexPhpFiles depth idx files)"

definition afterOperations :: "operation list \<Rightarrow> indexer" where
  "afterOperations operations = foldl perform newIndexer operations"

text \<open>
  What the index records about which class-like declarations exist: the three global
  maps, the \<open>classes\<close> map of each file record, and the kind of each class object.
\<close>

definition declarations ::
  "indexer \<Rightarrow> (jsstring \<times> nat) list \<times> (jsstring \<times> nat) list \<times> (jsstring \<times> nat) list
     \<times> (jsstring \<Rightarrow> (jsstring \<times> nat) list option) \<times> (nat \<Rightarrow> jsstring)" where
  "declarations idx =
     (ix_classes idx, ix_interfaces idx, ix_traits idx,
      (\<lambda>fileKey. map_option fd_classes (map_of (ix_fileIndex idx) fileKey)),
      (\<lambda>a. cd_type (ix_heap idx a)))"

text \<open>The tokens of \<open><?php interface K {}\<close>, as \<open>tokenize\<close> returns them.\<close>

definition interfaceTokens :: "token list" where
  "interfaceTokens =
     [\<lparr>tk_type = T_OPEN_TAG, tk_value = str ''<?php'', tk_line = 1, tk_column = 2\<rparr>,
      \<lparr>tk_type = T_INTERFACE, tk_value = str ''interface'', tk_line = 1, tk_column = 4\<rparr>,
      \<lparr>tk_type = T_STRING, tk_value = str ''K'', tk_line = 1, tk_column = 6\<rparr>,
      \<lparr>tk_type = T_CHAR, tk_value = str ''{'', tk_line = 1, tk_column = 8\<rparr>,
      \<lparr>tk_type = T_CHAR, tk_value = str ''}'', tk_line = 1, tk_column = 9\<rparr>]"

text \<open>The index when \<open>processPhpFile\<close> starts to parse the first file, \<open>a.php\<close>.\<close>

definition firstFile :: indexer where
  "firstFile =
     newIndexer\<lparr>ix_currentFile := str ''a.php'',
       ix_fileIndex :=
         [(str ''a.php'',
           \<lparr>fd_path = str ''a.php'', fd_namespace = [], fd_uses = [], fd_classes = [],
            fd_functions = []\<rparr>)]\<rparr>"

text \<open>The two maps that the constructor creates besides \<open>classes\<close>.\<close>

definition otherMaps :: "indexer \<Rightarrow> (jsstring \<times> nat) list \<times> (jsstring \<times> nat) list" where
  "otherMaps idx = (ix_interfaces idx, ix_traits idx)"

text \<open>The index as \<open>parseClass\<close> has it when it has stored the new class object.\<close>

definition classStored ::
  "indexer \<Rightarrow> token list \<Rightarrow> nat \<Rightarrow> jsstring \<Rightarrow> jsstring
     \<Rightarrow> jsstring list \<Rightarrow> jsstring list \<Rightarrow> indexer" where
  "classStored idx tokens start fileKey className extendsClass implementsInterfaces =
     (let fullClassName =
            (if ix_currentNamespace idx \<noteq> []
             then ix_currentNamespace idx @ [92] @ className else className);
          classDefinition =
            \<lparr>cd_name = className, cd_fullName = fullClassName,
             cd_namespace = ix_currentNamespace idx,
             cd_type = toLowerCase (tk_value (tokens ! start)),
             cd_modifiers = classModifiersBack tokens start {}, cd_extends = extendsClass,
             cd_implements = implementsInterfaces, cd_methods = [],
             cd_properties = [], cd_constants = [],
             cd_file = ix_currentFile idx,
             cd_docComment = ix_lastDocComment idx,
             cd_line = tk_line (tokens ! start),
             cd_inheritanceResolved = False\<rparr>;
          a = ix_nextAddr idx
      in (updateFile fileKey
            (\<lambda>fileData. fileData\<lparr>fd_classes :=
                 AList.update className a (fd_classes fileData)\<rparr>) idx)
           \<lparr>ix_heap := (ix_heap idx)(a := classDefinition),
            ix_nextAddr := a + 1,
            ix_classes := AList.update fullClassName a (ix_classes idx),
            ix_currentClass := Some a,
            ix_namespaces :=
              (if ix_currentNamespace idx \<noteq> []
                  \<and> map_of (ix_namespaces idx) (ix_currentNamespace idx) \<noteq> None
               then AList.map_entry (ix_currentNamespace idx)
                      (addToSet fullClassName) (ix_namespaces idx)
               else ix_namespaces idx),
            ix_lastDocComment := None\<rparr>)"

section \<open>Example data\<close>

definition arrangements3 :: "'a \<Rightarrow> 'a \<Rightarrow> 'a \<Rightarrow> 'a list list" where
  "arrangements3 a b c = [[a, b, c], [a, c, b], [b, a, c], [b, c, a], [c, a, b], [c, b, a]]"

text \<open>An item of a method query: \<open>createMethodCompletion\<close> gives every method the score 1000.\<close>

definition tiedItem :: "jsstring \<Rightarrow> completion" where
  "tiedItem name =
     \<lparr>ci_caption = name, ci_value = name, ci_meta = str ''method'', ci_score = 1000,
      ci_docText = name, ci_snippet = None\<rparr>"

text \<open>
  A class, a method and a file record with the fields that the parser fills for a
  declaration in the file \<open>a.php\<close>.
\<close>

definition exampleClass :: "jsstring \<Rightarrow> jsstring \<Rightarrow> jsstring list \<Rightarrow> classDefinition" where
  "exampleClass ns name parents =
     blankClass\<lparr>cd_name := name,
       cd_fullName := (if ns = [] then name else ns @ [92] @ name),
       cd_namespace := ns, cd_type := str ''class'', cd_extends := parents,
       cd_file := str ''a.php'', cd_line := 1\<rparr>"

definition exampleMethod :: "jsstring \<Rightarrow> modifier set \<Rightarrow> jsstring \<Rightarrow> jsstring \<times> functionDefinition" where
  "exampleMethod name ms cls =
     (name, \<lparr>fn_name = name, fn_modifiers = ms, fn_parameters = [], fn_returnType = None,
       fn_docComment = None, fn_file = str ''a.php'', fn_line = 1, fn_isMethod = True,
       fn_class = Some cls, fn_inherited = False\<rparr>)"

definition exampleFile :: "jsstring \<Rightarrow> (jsstring \<times> nat) list \<Rightarrow> jsstring \<times> fileData" where
  "exampleFile ns cs =
     (str ''a.php'', \<lparr>fd_path = str ''a.php'', fd_namespace = ns, fd_uses = [],
        fd_classes = cs, fd_functions = []\<rparr>)"

text \<open>
  The tokens of \<open><?php class A extends B {} class B extends A {}\<close>, as \<open>tokenize\<close>
  returns them, and the index after \<open>processPhpFile\<close> has parsed a file \<open>a.php\<close> with
  that content: two class objects, at the addresses 0 and 1, each naming the other as
  its parent.
\<close>

definition cyclicTokens :: "token list" where
  "cyclicTokens =
    [\<lparr>tk_type = T_OPEN_TAG, tk_value = str ''<?php'', tk_line = 1, tk_column = 2\<rparr>,
     \<lparr>tk_type = T_CLASS, tk_value = str ''class'', tk_line = 1, tk_column = 4\<rparr>,
     \<lparr>tk_type = T_STRING, tk_value = str ''A'', tk_line = 1, tk_column = 6\<rparr>,
     \<lparr>tk_type = T_EXTENDS, tk_value = str ''extends'', tk_line = 1, tk_column = 8\<rparr>,
     \<lparr>tk_type = T_STRING, tk_value = str ''B'', tk_line = 1, tk_column = 10\<rparr>,
     \<lparr>tk_type = T_CHAR, tk_value = str ''{'', tk_line = 1, tk_column = 12\<rparr>,
     \<lparr>tk_type = T_CHAR, tk_value = str ''}'', tk_line = 1, tk_column = 13\<rparr>,
     \<lparr>tk_type = T_CLASS, tk_value = str ''class'', tk_line = 1, tk_column = 15\<rparr>,
     \<lparr>tk_type = T_STRING, tk_value = str ''B'', tk_line = 1, tk_column = 17\<rparr>,
     \<lparr>tk_type = T_EXTENDS, tk_value = str ''extends'', tk_line = 1, tk_column = 19\<rparr>,
     \<lparr>tk_type = T_STRING, tk_value = str ''A'', tk_line = 1, tk_column = 21\<rparr>,
     \<lparr>tk_type = T_CHAR, tk_value = str ''{'', tk_line = 1, tk_column = 23\<rparr>,
     \<lparr>tk_type = T_CHAR, tk_value = str ''}'', tk_line = 1, tk_column = 24\<rparr>]"



definition cyclicIndex :: indexer where
  "cyclicIndex =
     newIndexer\<lparr>ix_heap := (\<lambda>a. blankClass)
         (0 := exampleClass [] (str ''A'') [str ''B''],
          Suc 0 := exampleClass [] (str ''B'') [str ''A'']),
       ix_nextAddr := 2,
       ix_classes := [(str ''A'', 0), (str ''B'', Suc 0)],
       ix_fileIndex := [exampleFile [] [(str ''A'', 0), (str ''B'', Suc 0)]],
       ix_currentFile := str ''a.php''\<rparr>"

text \<open>
  A symbol table with two classes of the namespace \<open>App\<close>: \<open>Base\<close> with a public
  method \<open>foo\<close>, a private method \<open>bar\<close> and a protected method \<open>baz\<close>, and
  \<open>Child\<close>, which extends \<open>Base\<close> and has a public method \<open>baz\<close> of its own. It is
  written down directly, not built by the parser.
\<close>

definition familyIndex :: indexer where
  "familyIndex =
     newIndexer\<lparr>ix_heap := (\<lambda>a. blankClass)
         (0 := (exampleClass (str ''App'') (str ''Base'') [])
                 \<lparr>cd_methods := [exampleMethod (str ''foo'') {Public} (str ''Base''),
                                 exampleMethod (str ''bar'') {Private} (str ''Base''),
                                 exampleMethod (str ''baz'') {Protected} (str ''Base'')]\<rparr>,
          Suc 0 := (exampleClass (str ''App'') (str ''Child'') [str ''Base''])
                 \<lparr>cd_methods := [exampleMethod (str ''baz'') {Public} (str ''Child'')]\<rparr>),
       ix_nextAddr := 2,
       ix_classes := [(str ''App'' @ [92] @ str ''Base'', 0),
                      (str ''App'' @ [92] @ str ''Child'', Suc 0)],
       ix_namespaces := [(str ''App'', [str ''App'' @ [92] @ str ''Base'',
                                        str ''App'' @ [92] @ str ''Child''])],
       ix_fileIndex := [exampleFile (str ''App'') [(str ''Base'', 0), (str ''Child'', Suc 0)]],
       ix_currentFile := str ''a.php'', ix_currentNamespace := str ''App''\<rparr>"

text \<open>
  An index in which the class \<open>App\Child\<close> names its parent by the alias \<open>Parent\<close>,
  which the use map of its file gives as \<open>Lib\Base\<close>.
\<close>

definition aliasIndex :: indexer where
  "aliasIndex =
     newIndexer\<lparr>ix_heap := (\<lambda>a. blankClass)
         (0 := exampleClass (str ''Lib'') (str ''Base'') [],
          Suc 0 := exampleClass (str ''App'') (str ''Child'') [str ''Parent'']),
       ix_nextAddr := 2,
       ix_classes := [(str ''Lib'' @ [92] @ str ''Base'', 0),
                      (str ''App'' @ [92] @ str ''Child'', Suc 0)],
       ix_fileIndex := [(str ''a.php'', \<lparr>fd_path = str ''a.php'', fd_namespace = str ''App'',
          fd_uses = [(str ''Parent'', str ''Lib'' @ [92] @ str ''Base'')],
          fd_classes = [(str ''Child'', Suc 0)], fd_functions = []\<rparr>)],
       ix_currentFile := str ''a.php''\<rparr>"

text \<open>
  An index with one class \<open>Util\<close> that has one public static method \<open>make\<close>. It is
  written down directly, not built by the parser.
\<close>

definition utilIndex :: indexer where
  "utilIndex =
     newIndexer\<lparr>ix_heap := (\<lambda>a. blankClass)
         (0 := (exampleClass [] (str ''Util'') [])
                 \<lparr>cd_methods := [exampleMethod (str ''make'') {Public, Static} (str ''Util'')]\<rparr>),
       ix_nextAddr := 1,
       ix_classes := [(str ''Util'', 0)],
       ix_fileIndex := [exampleFile [] [(str ''Util'', 0)]],
       ix_currentFile := str ''a.php''\<rparr>"

lemmas example_defs = newIndexer_def exampleClass_def exampleMethod_def exampleFile_def
  blankClass_def str_def

section \<open>Properties of scoring and ranking\<close>

lemma str_simps:
  "str ''__construct'' = [95, 95, 99, 111, 110, 115, 116, 114, 117, 99, 116]"
  "str ''getName'' = [103, 101, 116, 78, 97, 109, 101]"
  "str ''getId'' = [103, 101, 116, 73, 100]"
  "str ''toString'' = [116, 111, 83, 116, 114, 105, 110, 103]"
  "str ''getValue'' = [103, 101, 116, 86, 97, 108, 117, 101]"
  "str ''get'' = [103, 101, 116]"
  "str ''getX'' = [103, 101, 116, 88]"
  "str ''xget'' = [120, 103, 101, 116]"
  "str ''xGET'' = [120, 71, 69, 84]"
  by (simp_all add: str_def)

lemma score_shape:
  "(let score = (1000::int);
        lowerItem = x;
        lowerPrefix = y;
        score = (if lowerItem = lowerPrefix then score + 500
                 else if P lowerItem lowerPrefix then score + 300
                 else if Q lowerItem lowerPrefix then score + 100 else score);
        score = (if d then score + 50 else score);
        score = (if e then score + 25 else score)
    in score)
   = 1000 + (if x = y then 500 else if P x y then 300 else if Q x y then 100 else 0)
     + (if d then 50 else 0) + (if e then 25 else 0)"
  by (simp add: Let_def)

lemma commonMethods_set:
  "set commonMethods = {str ''__construct'', str ''getName'', str ''getId'', str ''toString'',
                    str ''getValue''}"
  by (simp only: commonMethods_def list.set)

text \<open>
  C7, as stated, fails: for the name \<open>xGET\<close> and the prefix \<open>get\<close> the name does not
  contain the prefix as written, so the specified score is 1000, but the code compares
  the lower-cased strings, \<open>xget\<close> and \<open>get\<close>, and returns 1100. Both strings are
  ASCII, and \<open>toLowerCase\<close> is the method of the host on them.
\<close>

theorem calculateScore_contains_counterexample:
  "calculateScore toLowerCase (str ''xGET'') (str ''get'') None = 1100
   \<and> score_as_specified toLowerCase (str ''xGET'') (str ''get'') None = 1000
   \<and> toLowerCase (str ''xGET'') = str ''xget'' \<and> toLowerCase (str ''get'') = str ''get''"
  by (simp add: calculateScore_def score_as_specified_def str_simps toLowerCase_def
      lowerChar_def startsWith_def commonMethods_def)

text \<open>
  C7, amended: the score is 1000, plus 500 if name and prefix are equal ignoring case,
  else plus 300 if the name starts with the prefix ignoring case, else plus 100 if the
  name contains the prefix ignoring case; plus 50 if the modifier set includes public;
  plus 25 if the name is one of \<open>__construct\<close>, \<open>getName\<close>, \<open>getId\<close>, \<open>toString\<close>,
  \<open>getValue\<close>. Ignoring case means that the two strings are compared after the
  method \<open>toLowerCase\<close> of the host, \<open>lower\<close>, has been applied to each; the statement
  holds whatever that method does to a string.
\<close>

theorem calculateScore_amended:
  "calculateScore lower name prefix modifiers =
     1000
     + (if lower name = lower prefix then 500
        else if startsWith (lower name) (lower prefix) then 300
        else if includes_str (lower name) (lower prefix) then 100 else 0)
     + (if (\<exists>ms. modifiers = Some ms \<and> Public \<in> ms) then 50 else 0)
     + (if name \<in> {str ''__construct'', str ''getName'', str ''getId'', str ''toString'',
                    str ''getValue''} then 25 else 0)"
proof -
  have m: "(case modifiers of None \<Rightarrow> False | Some ms \<Rightarrow> Public \<in> ms)
           = (\<exists>ms. modifiers = Some ms \<and> Public \<in> ms)"
    by (cases modifiers) simp_all
  show ?thesis
    unfolding calculateScore_def m commonMethods_set by (rule score_shape)
qed

theorem calculateScore_amended_witness:
  "calculateScore toLowerCase (str ''getName'') (str ''get'') (Some {Public, Static}) = 1375
   \<and> calculateScore (map (\<lambda>c. if c = 201 then 233 else c)) [233] [201] None = 1500"
  using calculateScore_amended
      [of toLowerCase "str ''getName''" "str ''get''" "Some {Public, Static}"]
    calculateScore_amended [of "map (\<lambda>c. if c = 201 then 233 else c)" "[233]" "[201]" None]
  by (simp add: str_simps toLowerCase_def lowerChar_def startsWith_def)

lemma mset_insertBy: "mset (insertBy cmp x ys) = add_mset x (mset ys)"
  by (induction ys) simp_all

lemma set_insertBy: "set (insertBy cmp x ys) = insert x (set ys)"
  by (induction ys) auto

lemma mset_array_sort: "mset (array_sort cmp xs) = mset xs"
  unfolding array_sort_def by (induction xs) (simp_all add: mset_insertBy)

lemma sorted_insertBy:
  assumes total: "\<And>a b. cmp a b \<le> 0 \<or> cmp b a \<le> 0"
    and trans: "\<And>a b c. cmp a b \<le> 0 \<Longrightarrow> cmp b c \<le> 0 \<Longrightarrow> cmp a c \<le> 0"
    and sorted: "sorted_wrt (\<lambda>a b. cmp a b \<le> 0) ys"
  shows "sorted_wrt (\<lambda>a b. cmp a b \<le> 0) (insertBy cmp x ys)"
  using sorted
proof (induction ys)
  case Nil
  then show ?case by simp
next
  case (Cons y ys)
  show ?case
  proof (cases "cmp x y \<le> 0")
    case True
    with Cons.prems trans show ?thesis by auto
  next
    case False
    with total have "cmp y x \<le> 0" by blast
    with False Cons show ?thesis by (auto simp: set_insertBy)
  qed
qed

lemma sorted_array_sort:
  assumes total: "\<And>a b. cmp a b \<le> 0 \<or> cmp b a \<le> 0"
    and trans: "\<And>a b c. cmp a b \<le> 0 \<Longrightarrow> cmp b c \<le> 0 \<Longrightarrow> cmp a c \<le> 0"
  shows "sorted_wrt (\<lambda>a b. cmp a b \<le> 0) (array_sort cmp xs)"
  unfolding array_sort_def
proof (induction xs)
  case Nil
  show ?case by simp
next
  case (Cons x xs)
  have "foldr (insertBy cmp) (x # xs) [] = insertBy cmp x (foldr (insertBy cmp) xs [])"
    by simp
  with sorted_insertBy [of cmp, OF total trans Cons] show ?case by simp
qed

lemma compare_rankedBefore: "(compareCompletions lc a b \<le> 0) = rankedBefore lc a b"
  unfolding compareCompletions_def rankedBefore_def by auto

lemma compare_total:
  assumes "\<forall>x y. lc x y \<le> 0 \<or> lc y x \<le> 0"
  shows "compareCompletions lc a b \<le> 0 \<or> compareCompletions lc b a \<le> 0"
  using assms unfolding compareCompletions_def by auto

lemma compare_trans:
  assumes "\<forall>x y z. lc x y \<le> 0 \<and> lc y z \<le> 0 \<longrightarrow> lc x z \<le> 0"
    and "compareCompletions lc a b \<le> 0" and "compareCompletions lc b c \<le> 0"
  shows "compareCompletions lc a c \<le> 0"
proof -
  from assms(2,3) have ab: "rankedBefore lc a b" and bc: "rankedBefore lc b c"
    by (simp_all add: compare_rankedBefore)
  from assms(1) have "lc (ci_caption a) (ci_caption b) \<le> 0
      \<Longrightarrow> lc (ci_caption b) (ci_caption c) \<le> 0 \<Longrightarrow> lc (ci_caption a) (ci_caption c) \<le> 0"
    by blast
  with ab bc have "rankedBefore lc a c"
    unfolding rankedBefore_def by auto
  then show ?thesis by (simp add: compare_rankedBefore)
qed

lemma scoredItem_get:
  "ci_score (scoredItem (str ''get'') (str ''get'')) = 1500"
  "ci_score (scoredItem (str ''get'') (str ''getX'')) = 1300"
  "ci_score (scoredItem (str ''get'') (str ''xget'')) = 1100"
  by (simp_all add: scoredItem_def calculateScore_def str_simps toLowerCase_def
      lowerChar_def startsWith_def commonMethods_def)

lemma compare_by_score:
  "ci_score b < ci_score a \<Longrightarrow> compareCompletions lc a b \<le> 0"
  "ci_score a < ci_score b \<Longrightarrow> \<not> compareCompletions lc a b \<le> 0"
  unfolding compareCompletions_def by auto

lemma get_example:
  "list_all (\<lambda>xs. sortCompletions lc xs (str ''get'')
      = map (scoredItem (str ''get'')) [str ''get'', str ''getX'', str ''xget''])
     (arrangements3 (scoredItem (str ''get'') (str ''get''))
        (scoredItem (str ''get'') (str ''getX'')) (scoredItem (str ''get'') (str ''xget'')))"
  by (simp add: arrangements3_def sortCompletions_def array_sort_def compare_by_score
      scoredItem_get)

lemma codeUnitCompare_total:
  "\<forall>x y. codeUnitCompare x y \<le> 0 \<or> codeUnitCompare y x \<le> 0"
  unfolding codeUnitCompare_def by auto

lemma codeUnitCompare_trans:
  "\<forall>x y z. codeUnitCompare x y \<le> 0 \<and> codeUnitCompare y z \<le> 0
     \<longrightarrow> codeUnitCompare x z \<le> 0"
  unfolding codeUnitCompare_def by (auto split: if_splits)

text \<open>
  C8: for a collation \<open>lc\<close> that is total and transitive, the list that
  \<open>sortCompletions\<close> returns holds the items it was given, each item before every
  item of a lower score, of the same score and a longer caption, or of the same score
  and caption length and a caption that \<open>lc\<close> puts after it. The candidates \<open>get\<close>,
  \<open>getX\<close> and \<open>xget\<close>, scored by \<open>calculateScore\<close> for the prefix \<open>get\<close>, come out
  in this order from each of the six orders in which they can be given.
\<close>

theorem sortCompletions_order:
  assumes total: "\<forall>x y. lc x y \<le> 0 \<or> lc y x \<le> 0"
    and trans: "\<forall>x y z. lc x y \<le> 0 \<and> lc y z \<le> 0 \<longrightarrow> lc x z \<le> 0"
  shows "sorted_wrt (rankedBefore lc) (sortCompletions lc cs prefix)
    \<and> mset (sortCompletions lc cs prefix) = mset cs
    \<and> list_all (\<lambda>xs. sortCompletions lc xs (str ''get'')
          = map (scoredItem (str ''get'')) [str ''get'', str ''getX'', str ''xget''])
        (arrangements3 (scoredItem (str ''get'') (str ''get''))
          (scoredItem (str ''get'') (str ''getX'')) (scoredItem (str ''get'') (str ''xget'')))"
proof -
  have "sorted_wrt (\<lambda>a b. compareCompletions lc a b \<le> 0)
          (array_sort (compareCompletions lc) cs)"
    using compare_total [OF total] compare_trans [OF trans] by (rule sorted_array_sort)
  then have "sorted_wrt (rankedBefore lc) (sortCompletions lc cs prefix)"
    by (simp add: compare_rankedBefore sortCompletions_def)
  moreover have "mset (sortCompletions lc cs prefix) = mset cs"
    by (simp add: sortCompletions_def mset_array_sort)
  ultimately show ?thesis using get_example by blast
qed

theorem sortCompletions_order_witness:
  "sorted_wrt (rankedBefore codeUnitCompare)
     (sortCompletions codeUnitCompare
        [tiedItem (str ''ba''), tiedItem (str ''c''), tiedItem (str ''ab''),
         scoredItem (str ''g'') (str ''gx'')] (str ''g''))
   \<and> sortCompletions codeUnitCompare
        [tiedItem (str ''ba''), tiedItem (str ''c''), tiedItem (str ''ab''),
         scoredItem (str ''g'') (str ''gx'')] (str ''g'')
     = [scoredItem (str ''g'') (str ''gx''), tiedItem (str ''c''), tiedItem (str ''ab''),
        tiedItem (str ''ba'')]"
proof -
  have "sortCompletions codeUnitCompare
        [tiedItem (str ''ba''), tiedItem (str ''c''), tiedItem (str ''ab''),
         scoredItem (str ''g'') (str ''gx'')] (str ''g'')
     = [scoredItem (str ''g'') (str ''gx''), tiedItem (str ''c''), tiedItem (str ''ab''),
        tiedItem (str ''ba'')]"
    by (simp add: sortCompletions_def array_sort_def compareCompletions_def tiedItem_def
        scoredItem_def calculateScore_def toLowerCase_def lowerChar_def startsWith_def
        commonMethods_def str_def codeUnitCompare_def)
  with sortCompletions_order [OF codeUnitCompare_total codeUnitCompare_trans,
      of "[tiedItem (str ''ba''), tiedItem (str ''c''), tiedItem (str ''ab''),
           scoredItem (str ''g'') (str ''gx'')]" "str ''g''"]
  show ?thesis by blast
qed

section \<open>Properties of name resolution\<close>

text \<open>
  C6: \<open>resolveClassName\<close> returns the result of the first of the three steps that
  finds a class (the exact key; the key \<open>namespace\name\<close> if the context has a
  namespace; the target that the use map of the context's file gives for the name),
  and it returns no match exactly when all three steps find none.
\<close>

theorem resolveClassName_steps:
  "resolveClassName idx name context =
     (case exactMatch idx name of
        Some a \<Rightarrow> Some a
      | None \<Rightarrow>
          (case namespaceMatch idx name context of
             Some a \<Rightarrow> Some a
           | None \<Rightarrow> aliasMatch idx name context))
   \<and> (resolveClassName idx name context = None
        \<longleftrightarrow> exactMatch idx name = None \<and> namespaceMatch idx name context = None
            \<and> aliasMatch idx name context = None)"
  unfolding resolveClassName_def exactMatch_def namespaceMatch_def aliasMatch_def
  by (simp split: option.splits)

theorem resolveClassName_steps_witness:
  "resolveClassName aliasIndex (str ''Parent'') (ix_heap aliasIndex (Suc 0)) = Some 0
   \<and> exactMatch aliasIndex (str ''Parent'') = None
   \<and> namespaceMatch aliasIndex (str ''Parent'') (ix_heap aliasIndex (Suc 0)) = None
   \<and> aliasMatch aliasIndex (str ''Parent'') (ix_heap aliasIndex (Suc 0)) = Some 0
   \<and> resolveClassName aliasIndex (str ''Missing'') (ix_heap aliasIndex (Suc 0)) = None"
  using resolveClassName_steps [of aliasIndex "str ''Parent''" "ix_heap aliasIndex (Suc 0)"]
    resolveClassName_steps [of aliasIndex "str ''Missing''" "ix_heap aliasIndex (Suc 0)"]
  by (simp add: exactMatch_def namespaceMatch_def aliasMatch_def aliasIndex_def example_defs
      normalizeFilePath_def)

section \<open>Properties of inheritance resolution\<close>


















lemma cyclic_overflow:
  "resolveInheritance depth cyclicIndex 0 = Inl (RangeError cyclicIndex)
   \<and> resolveInheritance depth cyclicIndex (Suc 0) = Inl (RangeError cyclicIndex)"
proof (induction depth)
  case 0
  show ?case by simp
next
  case (Suc depth)
  have a: "resolveClassName cyclicIndex (str ''B'') (ix_heap cyclicIndex 0) = Some (Suc 0)"
    by (simp add: resolveClassName_def cyclicIndex_def newIndexer_def exampleClass_def
        blankClass_def str_def)
  have b: "resolveClassName cyclicIndex (str ''A'') (ix_heap cyclicIndex (Suc 0)) = Some 0"
    by (simp add: resolveClassName_def cyclicIndex_def newIndexer_def exampleClass_def
        blankClass_def str_def)
  have e: "cd_extends (ix_heap cyclicIndex 0) = [str ''B'']"
    "cd_extends (ix_heap cyclicIndex (Suc 0)) = [str ''A'']"
    "\<not> cd_inheritanceResolved (ix_heap cyclicIndex 0)"
    "\<not> cd_inheritanceResolved (ix_heap cyclicIndex (Suc 0))"
    by (simp_all add: cyclicIndex_def newIndexer_def exampleClass_def blankClass_def)
  from Suc show ?case by (simp add: a b e)
qed

lemma family_parent:
  "resolveClassName familyIndex (str ''Base'') (ix_heap familyIndex (Suc 0)) = Some 0"
  by (simp add: resolveClassName_def familyIndex_def example_defs)

lemma family_fields:
  "cd_extends (ix_heap familyIndex (Suc 0)) = [str ''Base'']"
  "cd_extends (ix_heap familyIndex 0) = []"
  "\<not> cd_inheritanceResolved (ix_heap familyIndex (Suc 0))"
  "\<not> cd_inheritanceResolved (ix_heap familyIndex 0)"
  by (simp_all add: familyIndex_def example_defs)



lemma family_resolved:
  "\<exists>idx'. resolveInheritance (Suc (Suc 0)) familyIndex (Suc 0) = Inr idx'
     \<and> map cd_methods (map (ix_heap idx') [0, Suc 0]) =
        [[exampleMethod (str ''foo'') {Public} (str ''Base''),
          exampleMethod (str ''bar'') {Private} (str ''Base''),
          exampleMethod (str ''baz'') {Protected} (str ''Base'')],
         [exampleMethod (str ''baz'') {Public} (str ''Child''),
          (str ''foo'', snd (exampleMethod (str ''foo'') {Public} (str ''Base''))
             \<lparr>fn_inherited := True\<rparr>)]]"
  by (simp add: family_parent family_fields)
    (simp add: familyIndex_def example_defs inheritFrom_def inheritMethods_def
      inheritProperties_def)

text \<open>
  C1 fails on the code: for the two classes that extend each other, the call of
  \<open>resolveInheritance\<close> on either class, and so \<open>postProcessIndex\<close>, ends in a
  \<open>RangeError\<close> whatever the depth of the call stack: the recursion is unbounded.
\<close>

theorem resolveInheritance_cycle_overflows:
  "\<forall>depth. resolveInheritance depth cyclicIndex 0 = Inl (RangeError cyclicIndex)
     \<and> resolveInheritance depth cyclicIndex (Suc 0) = Inl (RangeError cyclicIndex)
     \<and> postProcessIndex depth cyclicIndex = Inl (RangeError cyclicIndex)"
proof
  fix depth
  have "map snd (ix_classes cyclicIndex) = [0, Suc 0]"
    by (simp add: cyclicIndex_def newIndexer_def)
  with cyclic_overflow [of depth] show "resolveInheritance depth cyclicIndex 0 = Inl (RangeError cyclicIndex)
     \<and> resolveInheritance depth cyclicIndex (Suc 0) = Inl (RangeError cyclicIndex)
     \<and> postProcessIndex depth cyclicIndex = Inl (RangeError cyclicIndex)"
    by (simp add: postProcessIndex_def)
qed

theorem resolveInheritance_cycle_overflows_witness:
  "postProcessIndex 10000 cyclicIndex = Inl (RangeError cyclicIndex)"
  using resolveInheritance_cycle_overflows by blast

section \<open>Properties of the lexer\<close>

text \<open>
  The identifier that the lexer lower-cases for the \<open>switch\<close> on the keywords holds
  ASCII code units only; on such a string \<open>toLowerCase\<close> is the method of the host.
\<close>

lemma isIdentChar_ascii: "isIdentChar c \<Longrightarrow> c < 128"
  by (auto simp: isIdentChar_def isWordChar_def)

lemma scanWhile_all: "list_all P (substring content i (scanWhile P content i))"
proof (induction P content i rule: scanWhile.induct)
  case (1 P content i)
  show ?case
  proof (cases "i < length content \<and> P (content ! i)")
    case False
    then have "scanWhile P content i = i" by (rule scanWhile_stop)
    then show ?thesis by (simp add: substring_def)
  next
    case True
    then have e: "scanWhile P content i = scanWhile P content (Suc i)"
      by (simp add: scanWhile_step)
    from scanWhile_ge [of "Suc i" P content] obtain k where
      k: "scanWhile P content (Suc i) - i = Suc k" "scanWhile P content (Suc i) - Suc i = k"
      by (cases "scanWhile P content (Suc i) - i") auto
    from True have "drop i content = content ! i # drop (Suc i) content"
      by (simp add: Cons_nth_drop_Suc)
    then have "substring content i (scanWhile P content (Suc i))
        = content ! i # substring content (Suc i) (scanWhile P content (Suc i))"
      unfolding substring_def k by simp
    with 1 [OF True] True show ?thesis unfolding e by simp
  qed
qed

lemma identifier_ascii:
  "list_all (\<lambda>c. c < 128) (substring content i (scanWhile isIdentChar content i))"
  using scanWhile_all [of isIdentChar content i]
  by (auto simp: list_all_iff isIdentChar_ascii)

lemma covered_space:
  assumes "covered text tokens" and "isWhitespace c"
  shows "covered (text @ [c]) tokens"
proof -
  from assms(1) obtain gaps trail where g: "length gaps = length tokens"
    "list_all isWhitespace (concat gaps @ trail)"
    "reinsert gaps (map tk_value tokens) trail = text"
    unfolding covered_def by blast
  from g assms(2) have "length gaps = length tokens
    \<and> list_all isWhitespace (concat gaps @ (trail @ [c]))
    \<and> reinsert gaps (map tk_value tokens) (trail @ [c]) = text @ [c]"
    by (simp add: reinsert_def)
  then show ?thesis unfolding covered_def by blast
qed

lemma covered_token:
  assumes "covered text tokens"
  shows "covered (text @ tk_value t) (tokens @ [t])"
proof -
  from assms(1) obtain gaps trail where g: "length gaps = length tokens"
    "list_all isWhitespace (concat gaps @ trail)"
    "reinsert gaps (map tk_value tokens) trail = text"
    unfolding covered_def by blast
  from g have "length (gaps @ [trail]) = length (tokens @ [t])
    \<and> list_all isWhitespace (concat (gaps @ [trail]) @ [])
    \<and> reinsert (gaps @ [trail]) (map tk_value (tokens @ [t])) [] = text @ tk_value t"
    by (simp add: reinsert_def)
  then show ?thesis unfolding covered_def by blast
qed

lemma take_substring:
  "i \<le> j \<Longrightarrow> take j content = take i content @ substring content i j"
proof -
  assume "i \<le> j"
  then have "take j content = take (i + (j - i)) content" by simp
  also have "\<dots> = take i content @ take (j - i) (drop i content)" by (rule take_add)
  finally show ?thesis by (simp add: substring_def)
qed

lemma tokenizeStep_covered:
  assumes i: "lx_i s < length content"
    and c: "covered (take (lx_i s) content) (lx_tokens s)"
  shows "covered (take (lx_i (tokenizeStep content s)) content)
           (lx_tokens (tokenizeStep content s))"
proof (cases "isWhitespace (content ! lx_i s)")
  case True
  from i have "take (Suc (lx_i s)) content = take (lx_i s) content @ [content ! lx_i s]"
    by (rule take_Suc_conv_app_nth)
  with covered_space [OF c True] True show ?thesis
    by (simp add: tokenizeStep_space)
next
  case False
  with i have "stepShape content s (tokenizeStep content s)" by (rule tokenizeStep_token)
  then obtain t where lt: "lx_i s < lx_i (tokenizeStep content s)"
    and t: "lx_tokens (tokenizeStep content s) = lx_tokens s @ [t]"
    and v: "tk_value t = substring content (lx_i s) (lx_i (tokenizeStep content s))"
    unfolding stepShape_def by blast
  from lt have "take (lx_i (tokenizeStep content s)) content
      = take (lx_i s) content @ substring content (lx_i s) (lx_i (tokenizeStep content s))"
    by (simp add: take_substring)
  with covered_token [OF c, of t] t v show ?thesis by simp
qed

lemma tokenizeStep_le:
  assumes "lx_i s < length content"
  shows "lx_i (tokenizeStep content s) \<le> length content"
proof (cases "isWhitespace (content ! lx_i s)")
  case True
  with assms show ?thesis by (simp add: tokenizeStep_space)
next
  case False
  with assms have "stepShape content s (tokenizeStep content s)" by (rule tokenizeStep_token)
  then show ?thesis by (simp add: stepShape_def)
qed

lemma tokenizeLoop_covered:
  "lx_i s \<le> length content \<Longrightarrow> covered (take (lx_i s) content) (lx_tokens s) \<Longrightarrow>
   lx_i (tokenizeLoop content s) = length content
   \<and> covered content (lx_tokens (tokenizeLoop content s))"
proof (induction content s rule: tokenizeLoop.induct)
  case (1 content s)
  show ?case
  proof (cases "lx_i s < length content")
    case True
    from True have e: "tokenizeLoop content s = tokenizeLoop content (tokenizeStep content s)"
      by (subst tokenizeLoop.simps) simp
    from 1(1) [OF True tokenizeStep_le [OF True] tokenizeStep_covered [OF True 1(3)]]
    show ?thesis unfolding e .
  next
    case False
    then have e: "tokenizeLoop content s = s" by (subst tokenizeLoop.simps) simp
    from False 1(2) have "lx_i s = length content" by simp
    with 1(3) show ?thesis unfolding e by simp
  qed
qed

lemma covered_start: "covered [] []"
  unfolding covered_def reinsert_def by simp

lemma covered_bom:
  assumes "covered text tokens"
  shows "covered (65279 # text) tokens"
proof -
  from assms(1) obtain gaps trail where g: "length gaps = length tokens"
    "list_all isWhitespace (concat gaps @ trail)"
    "reinsert gaps (map tk_value tokens) trail = text"
    unfolding covered_def by blast
  have w: "isWhitespace 65279" by (simp add: isWhitespace_def)
  show ?thesis
  proof (cases gaps)
    case Nil
    with g w have "length gaps = length tokens
      \<and> list_all isWhitespace (concat gaps @ (65279 # trail))
      \<and> reinsert gaps (map tk_value tokens) (65279 # trail) = 65279 # text"
      by (simp add: reinsert_def)
    then show ?thesis unfolding covered_def by blast
  next
    case (Cons g0 gs)
    with g obtain t ts where ts: "tokens = t # ts" by (cases tokens) simp_all
    from g w Cons ts have "length ((65279 # g0) # gs) = length tokens
      \<and> list_all isWhitespace (concat ((65279 # g0) # gs) @ trail)
      \<and> reinsert ((65279 # g0) # gs) (map tk_value tokens) trail = 65279 # text"
      by (simp add: reinsert_def)
    then show ?thesis unfolding covered_def by blast
  qed
qed

text \<open>
  C5: for every content, white space can be put back before the tokens that
  \<open>tokenize\<close> returns, and after the last one, so that the values of the tokens in
  their order, with that white space between them, are the content. A byte-order mark
  that \<open>tokenize\<close> removes is white space in the sense of \<open>\s\<close> and is part of the
  first gap.
\<close>

theorem tokenize_reproduces:
  "\<exists>gaps trail. length gaps = length (tokenize content)
     \<and> list_all isWhitespace (concat gaps @ trail)
     \<and> reinsert gaps (map tk_value (tokenize content)) trail = content"
proof -
  define body where "body = (if take 1 content = [65279] then drop 1 content else content)"
  have t: "tokenize content = lx_tokens (tokenizeLoop body lexerStart)"
    by (simp add: tokenize_def body_def)
  have "covered body (tokenize content)"
    unfolding t
    using tokenizeLoop_covered [of lexerStart body]
    by (simp add: covered_start lexerStart_def)
  moreover have "content = body \<or> content = 65279 # body"
    unfolding body_def by (cases content) (auto split: if_splits)
  ultimately have "covered content (tokenize content)"
    using covered_bom by auto
  then show ?thesis unfolding covered_def .
qed

theorem tokenize_reproduces_witness:
  "(\<exists>gaps trail. length gaps = length (tokenize (65279 # str '' a /*b*/''))
     \<and> list_all isWhitespace (concat gaps @ trail)
     \<and> reinsert gaps (map tk_value (tokenize (65279 # str '' a /*b*/''))) trail
         = 65279 # str '' a /*b*/'')
   \<and> map tk_value (tokenize (65279 # str '' a /*b*/'')) = [str ''a'', str ''/*b*/'']
   \<and> reinsert [[65279, 32], [32]] [str ''a'', str ''/*b*/''] [] = 65279 # str '' a /*b*/''"
proof -
  have "map tk_value (tokenize (65279 # str '' a /*b*/'')) = [str ''a'', str ''/*b*/'']"
    by (simp add: lexer_eval)
  moreover have "reinsert [[65279, 32], [32]] [str ''a'', str ''/*b*/''] []
      = 65279 # str '' a /*b*/''"
    by (simp add: reinsert_def str_def)
  ultimately show ?thesis using tokenize_reproduces [of "65279 # str '' a /*b*/''"] by blast
qed

lemma coversFrom_space:
  assumes i: "i < length body" and w: "isWhitespace (body ! i)"
    and c: "coversFrom body (Suc i) ts"
  shows "coversFrom body i ts"
proof (cases ts)
  case Nil
  from i have "drop i body = body ! i # drop (Suc i) body" by (rule Cons_nth_drop_Suc [symmetric])
  with c w Nil show ?thesis by simp
next
  case (Cons t ts')
  from i w have "scanWhile isWhitespace body i = scanWhile isWhitespace body (Suc i)"
    by (rule scanWhile_step)
  with c Cons show ?thesis by simp
qed

lemma coversFrom_token:
  assumes i: "i < length body" and w: "\<not> isWhitespace (body ! i)"
    and j: "i < j" "j \<le> length body"
    and v: "tk_value t = substring body i j"
    and n: "noRuleMatches body i \<Longrightarrow> tk_type t = T_CHAR \<and> tk_value t = [body ! i]"
    and c: "coversFrom body j ts"
  shows "coversFrom body i (t # ts)"
proof -
  from w have a: "scanWhile isWhitespace body i = i" by (simp add: scanWhile_stop)
  from j v have l: "length (tk_value t) = j - i" by (simp add: substring_def)
  with j have b: "i + length (tk_value t) = j" by simp
  from l j have e: "tk_value t \<noteq> []" by auto
  from i j v n c e show ?thesis
    unfolding coversFrom.simps Let_def a b by simp
qed

lemma tokenizeLoop_covers:
  "lx_i s \<le> length body \<Longrightarrow>
   \<exists>ts. lx_tokens (tokenizeLoop body s) = lx_tokens s @ ts \<and> coversFrom body (lx_i s) ts"
proof (induction body s rule: tokenizeLoop.induct)
  case (1 body s)
  show ?case
  proof (cases "lx_i s < length body")
    case False
    then have e: "tokenizeLoop body s = s" by (subst tokenizeLoop.simps) simp
    from False have "coversFrom body (lx_i s) []" by simp
    then show ?thesis unfolding e by simp
  next
    case True
    from True have e: "tokenizeLoop body s = tokenizeLoop body (tokenizeStep body s)"
      by (subst tokenizeLoop.simps) simp
    from 1(1) [OF True tokenizeStep_le [OF True]] obtain ts where
      ts: "lx_tokens (tokenizeLoop body (tokenizeStep body s))
             = lx_tokens (tokenizeStep body s) @ ts"
      and c: "coversFrom body (lx_i (tokenizeStep body s)) ts"
      by blast
    show ?thesis
    proof (cases "isWhitespace (body ! lx_i s)")
      case w: True
      from c w have "coversFrom body (lx_i s) ts"
        using coversFrom_space [OF True w] by (simp add: tokenizeStep_space)
      with ts w show ?thesis unfolding e by (simp add: tokenizeStep_space)
    next
      case w: False
      with True have "stepShape body s (tokenizeStep body s)" by (rule tokenizeStep_token)
      then obtain t where lt: "lx_i s < lx_i (tokenizeStep body s)"
        and le: "lx_i (tokenizeStep body s) \<le> length body"
        and t: "lx_tokens (tokenizeStep body s) = lx_tokens s @ [t]"
        and v: "tk_value t = substring body (lx_i s) (lx_i (tokenizeStep body s))"
        unfolding stepShape_def by blast
      have n: "tk_type t = T_CHAR \<and> tk_value t = [body ! lx_i s]"
        if "noRuleMatches body (lx_i s)"
        using tokenizeStep_other [OF True that] t by auto
      from coversFrom_token [OF True w lt le v n c]
      have "coversFrom body (lx_i s) (t # ts)" .
      with ts t show ?thesis unfolding e by simp
    qed
  qed
qed

lemma tokenize_loop:
  "tokenize content = lx_tokens (tokenizeLoop (withoutMark content) lexerStart)"
  by (simp add: tokenize_def withoutMark_def)

text \<open>
  C4: \<open>tokenize\<close> is a total function: its loop is defined by a recursion that
  ends because each pass through the body moves \<open>i\<close> forward by at least one
  character and never past the end, and it ends with \<open>i\<close> at the length of the
  content, from every position. No operation in the body can throw for a string, so
  the model has no error result. The tokens that \<open>tokenize\<close> returns cover the
  content (without a byte-order mark at its start): each token starts at the first
  character after the previous token that is not white space, its value is the
  content from there on and is not empty, and only white space is left after the last
  token; a token that starts at a character where no other rule applies is the
  single-character token of that character. For the single pass: at a white-space
  character it emits nothing; at any other character it emits one token whose value
  is the content from \<open>i\<close> to the new position; and where no other rule applies the
  token is the single character.
\<close>

theorem tokenize_total:
  assumes "lx_i s \<le> length content"
  shows "tokenize input = lx_tokens (tokenizeLoop (withoutMark input) lexerStart)
    \<and> lx_i (tokenizeLoop (withoutMark input) lexerStart) = length (withoutMark input)
    \<and> coversFrom (withoutMark input) 0 (tokenize input)
    \<and> (\<exists>ts. lx_tokens (tokenizeLoop content s) = lx_tokens s @ ts
           \<and> coversFrom content (lx_i s) ts)
    \<and> lx_i (tokenizeLoop content s) = length content
    \<and> (lx_i s < length content \<longrightarrow>
         lx_i s < lx_i (tokenizeStep content s)
         \<and> lx_i (tokenizeStep content s) \<le> length content
         \<and> (if isWhitespace (content ! lx_i s)
            then lx_tokens (tokenizeStep content s) = lx_tokens s
            else \<exists>t. lx_tokens (tokenizeStep content s) = lx_tokens s @ [t]
                   \<and> tk_value t
                       = substring content (lx_i s) (lx_i (tokenizeStep content s)))
         \<and> (noRuleMatches content (lx_i s) \<longrightarrow>
              lx_i (tokenizeStep content s) = Suc (lx_i s)
              \<and> (\<exists>l c. lx_tokens (tokenizeStep content s)
                    = lx_tokens s @ [\<lparr>tk_type = T_CHAR, tk_value = [content ! lx_i s],
                                       tk_line = l, tk_column = c\<rparr>])))"
proof -
  have loop: "lx_i s \<le> length content \<Longrightarrow> lx_i (tokenizeLoop content s) = length content"
    for content s
  proof (induction content s rule: tokenizeLoop.induct)
    case (1 content s)
    show ?case
    proof (cases "lx_i s < length content")
      case True
      from True have e: "tokenizeLoop content s = tokenizeLoop content (tokenizeStep content s)"
        by (subst tokenizeLoop.simps) simp
      from 1(1) [OF True tokenizeStep_le [OF True]] show ?thesis unfolding e .
    next
      case False
      then have e: "tokenizeLoop content s = s" by (subst tokenizeLoop.simps) simp
      from False 1(2) show ?thesis unfolding e by simp
    qed
  qed
  have step: "lx_i s < length content \<Longrightarrow>
      (if isWhitespace (content ! lx_i s)
       then lx_tokens (tokenizeStep content s) = lx_tokens s
       else \<exists>t. lx_tokens (tokenizeStep content s) = lx_tokens s @ [t]
              \<and> tk_value t = substring content (lx_i s) (lx_i (tokenizeStep content s)))"
    using tokenizeStep_token [of s content] tokenizeStep_space(2) [of content s]
    by (auto simp: stepShape_def)
  have start: "lx_i lexerStart \<le> length (withoutMark input)" "lx_i lexerStart = 0"
    "lx_tokens lexerStart = []"
    by (simp_all add: lexerStart_def)
  from tokenizeLoop_covers [OF start(1)]
  have whole: "coversFrom (withoutMark input) 0 (tokenize input)"
    unfolding tokenize_loop start by simp
  from tokenize_loop [of input] loop [OF start(1)] whole tokenizeLoop_covers [OF assms]
    loop [OF assms] step tokenizeStep_progress [of s content] tokenizeStep_le [of s content]
    tokenizeStep_other [of s content]
  show ?thesis by blast
qed

theorem tokenize_total_witness:
  "map tk_value (tokenize (65279 # str ''@ x'')) = [str ''@'', str ''x'']
   \<and> map tk_type (tokenize (65279 # str ''@ x'')) = [T_CHAR, T_STRING]
   \<and> coversFrom (str ''@ x'') 0 (tokenize (65279 # str ''@ x''))
   \<and> lx_i (tokenizeLoop (str ''@x'') lexerStart) = 2
   \<and> lx_i (tokenizeStep (str ''@x'') lexerStart) = 1
   \<and> lx_tokens (tokenizeStep (str ''@x'') lexerStart)
       = [\<lparr>tk_type = T_CHAR, tk_value = str ''@'', tk_line = 1, tk_column = 2\<rparr>]"
proof -
  have n: "noRuleMatches (str ''@x'') (lx_i lexerStart)"
    by (simp add: noRuleMatches_def lexer_eval)
  have l: "lx_i lexerStart \<le> length (str ''@x'')"
    by (simp add: lexerStart_def)
  have t: "lx_tokens (tokenizeStep (str ''@x'') lexerStart)
       = [\<lparr>tk_type = T_CHAR, tk_value = str ''@'', tk_line = 1, tk_column = 2\<rparr>]"
    by (simp add: lexer_eval)
  have m: "withoutMark (65279 # str ''@ x'') = str ''@ x''"
    by (simp add: withoutMark_def)
  have v: "map tk_value (tokenize (65279 # str ''@ x'')) = [str ''@'', str ''x'']"
    "map tk_type (tokenize (65279 # str ''@ x'')) = [T_CHAR, T_STRING]"
    by (simp_all add: lexer_eval)
  have le: "length (str ''@x'') = 2" by (simp add: str_def)
  have lt: "lx_i lexerStart < length (str ''@x'')" by (simp add: lexerStart_def str_def)
  note th = tokenize_total [OF l, of "65279 # str ''@ x''"]
  from th have c: "coversFrom (str ''@ x'') 0 (tokenize (65279 # str ''@ x''))"
    unfolding m by blast
  from th have i: "lx_i (tokenizeLoop (str ''@x'') lexerStart) = 2"
    unfolding le by blast
  from th lt n have "lx_i (tokenizeStep (str ''@x'') lexerStart) = Suc (lx_i lexerStart)"
    by blast
  then have s: "lx_i (tokenizeStep (str ''@x'') lexerStart) = 1"
    by (simp add: lexerStart_def)
  from v c i s t show ?thesis by blast
qed
section \<open>The modifiers of a parsed function\<close>

lemma addFunctionModifier_eq:
  "addFunctionModifier ty ms = ms \<union> set_option (modifierOfToken ty)"
  by (auto simp: addFunctionModifier_def modifierOfToken_def Let_def)

lemma functionModifiersBack_eq:
  "start \<le> length tokens \<Longrightarrow>
   functionModifiersBack tokens start ms = ms \<union> modifiersAmong (tokensBefore tokens start)"
proof (induction start arbitrary: ms)
  case 0
  show ?case by (simp add: tokensBefore_def modifiersAmong_def List.map_filter_simps)
next
  case (Suc j)
  then have j: "j < length tokens" and le: "j \<le> length tokens" by simp_all
  from j have r: "rev (take (Suc j) tokens) = tokens ! j # rev (take j tokens)"
    by (simp add: take_Suc_conv_app_nth)
  show ?case
  proof (cases "tk_type (tokens ! j) = T_CHAR")
    case True
    then show ?thesis
      by (simp add: tokensBefore_def r modifiersAmong_def List.map_filter_simps)
  next
    case False
    have "modifiersAmong (tokensBefore tokens (Suc j))
        = set_option (modifierOfToken (tk_type (tokens ! j)))
          \<union> modifiersAmong (tokensBefore tokens j)"
      using False
      by (cases "modifierOfToken (tk_type (tokens ! j))")
        (simp_all add: tokensBefore_def r modifiersAmong_def List.map_filter_simps)
    with False Suc.IH [OF le] show ?thesis
      by (auto simp: addFunctionModifier_eq)
  qed
qed

lemma parseFunction_named:
  assumes "scanWhile isIgnorable tokens (start + 1) < length tokens"
    and "tk_type (tokens ! scanWhile isIgnorable tokens (start + 1)) = T_STRING"
  shows "\<exists>fd. fn_modifiers fd = defaultPublic (functionModifiersBack tokens start {})
      \<and> storedFunction idx (snd (parseFunction idx tokens start fileKey))
            (tk_value (tokens ! scanWhile isIgnorable tokens (start + 1))) = Some fd"
  using assms
  unfolding parseFunction_def Let_def storedFunction_def
  by (cases "ix_currentClass idx")
    (simp_all add: case_prod_beta updateClass_def updateFile_def update_conv')

lemma finalTokens_lexed:
  "tokenize (str ''<?php class A { final /*c*/ function f(){} }'') = finalTokens"
  by (simp add: lexer_eval finalTokens_def)

lemma final_length: "length finalTokens = 13" by (simp add: finalTokens_def)

lemma final_named:
  "scanWhile isIgnorable finalTokens (6 + 1) = 7"
  "scanWhile isIgnorable finalTokens 7 = 7"
  "tk_type (finalTokens ! 7) = T_STRING"
  "tk_value (finalTokens ! 7) = str ''f''"
  by (simp_all add: finalTokens_def scanWhile.simps isIgnorable_def)

lemma final_next: "fst (parseFunction idx finalTokens 6 fileKey) = 10"
proof -
  have p: "paramLoop finalTokens (7 + 1) ([], False, 0, []) = (10, [])"
    by (simp add: paramLoop.simps finalTokens_def finishParameters_def trim_def str_def)
  have s: "scanWhile isIgnorable finalTokens 10 = 10"
    "tk_value (finalTokens ! 10) \<noteq> str '':''"
    by (simp_all add: finalTokens_def scanWhile.simps isIgnorable_def isWhitespace_def str_def)
  show ?thesis
    unfolding parseFunction_def Let_def final_named p prod.case s final_length
    by (simp add: s)
qed


lemma final_body:
  "classBodyLoop finalTokens fileKey (3 + 1, 1, x) =
     (13, snd (parseFunction x finalTokens 6 fileKey))"
proof -
  have t: "tk_value (finalTokens ! 4) \<noteq> str ''{''" "tk_value (finalTokens ! 4) \<noteq> str ''}''"
    "tk_type (finalTokens ! 4) = T_FINAL"
    "tk_value (finalTokens ! 5) \<noteq> str ''{''" "tk_value (finalTokens ! 5) \<noteq> str ''}''"
    "tk_type (finalTokens ! 5) = T_COMMENT"
    "tk_value (finalTokens ! 6) \<noteq> str ''{''" "tk_value (finalTokens ! 6) \<noteq> str ''}''"
    "tk_type (finalTokens ! 6) = T_FUNCTION"
    "tk_value (finalTokens ! 10) = str ''{''"
    "tk_value (finalTokens ! 11) \<noteq> str ''{''" "tk_value (finalTokens ! 11) = str ''}''"
    "tk_value (finalTokens ! 12) \<noteq> str ''{''" "tk_value (finalTokens ! 12) = str ''}''"
    "str ''}'' \<noteq> str ''{''"
    by (simp_all add: finalTokens_def str_def)
  have a: "classBodyLoop finalTokens fileKey (4, 1, x) = classBodyLoop finalTokens fileKey (5, 1, x)"
    by (subst classBodyLoop.simps) (simp add: t final_length)
  have b: "classBodyLoop finalTokens fileKey (5, 1, x) = classBodyLoop finalTokens fileKey (6, 1, x)"
    by (subst classBodyLoop.simps) (simp add: t final_length)
  have c: "classBodyLoop finalTokens fileKey (6, 1, x) =
      classBodyLoop finalTokens fileKey (10, 1, snd (parseFunction x finalTokens 6 fileKey))"
    by (subst classBodyLoop.simps) (simp add: t final_length final_next)
  have d: "classBodyLoop finalTokens fileKey (10, 1, y) = classBodyLoop finalTokens fileKey (11, 2, y)"
    for y
    by (subst classBodyLoop.simps) (simp add: t final_length numeral_2_eq_2)
  have e: "classBodyLoop finalTokens fileKey (11, 2, y) = classBodyLoop finalTokens fileKey (12, 1, y)"
    for y
    by (subst classBodyLoop.simps) (simp add: t final_length)
  have f: "classBodyLoop finalTokens fileKey (12, 1, y) = classBodyLoop finalTokens fileKey (13, 0, y)"
    for y
    by (subst classBodyLoop.simps) (simp add: t final_length)
  have g: "classBodyLoop finalTokens fileKey (13, 0, y) = (13, y)" for y
    by (subst classBodyLoop.simps) (simp add: final_length)
  have "classBodyLoop finalTokens fileKey (4, 1, x) =
     (13, snd (parseFunction x finalTokens 6 fileKey))"
    unfolding a b c d e f g by (rule refl)
  then show ?thesis by simp
qed

lemma final_class:
  "parseClass idx finalTokens 1 fileKey =
     (13, (snd (parseFunction (classStored idx finalTokens 1 fileKey (str ''A'') [] [])
                  finalTokens 6 fileKey))\<lparr>ix_currentClass := None\<rparr>)"
proof -
  have n: "scanWhile isSpaceOrAnyComment finalTokens (1 + 1) = 2"
    by (simp add: scanWhile.simps finalTokens_def isSpaceOrAnyComment_def)
  have t: "tk_type (finalTokens ! 2) = T_STRING" "tk_value (finalTokens ! 2) = str ''A''"
    "tk_value (finalTokens ! 3) = str ''{''"
    by (simp_all add: finalTokens_def)
  have h: "classHeaderLoop finalTokens (2 + 1) ([], []) = (3, [], [])"
    by (simp add: classHeaderLoop.simps finalTokens_def str_def)
  show ?thesis
    unfolding parseClass_def classStored_def Let_def n h prod.case t final_body final_length
    by simp
qed

lemma firstFile_started:
  "processPhpFile newIndexer (str ''a.php'') (Some content) =
     parseTokens (tokenize content) (str ''a.php'') (0, firstFile)"
proof -
  have k: "normalizeFilePath (str ''a.php'') = str ''a.php''"
    by (simp add: normalizeFilePath_def str_def)
  show ?thesis
    unfolding processPhpFile_def option.case Let_def k
    by (simp add: firstFile_def newIndexer_def)
qed

lemma final_parsed:
  "processPhpFile newIndexer (str ''a.php'')
     (Some (str ''<?php class A { final /*c*/ function f(){} }'')) =
   (snd (parseFunction (classStored firstFile finalTokens 1 (str ''a.php'') (str ''A'') [] [])
           finalTokens 6 (str ''a.php'')))\<lparr>ix_currentClass := None\<rparr>"
proof -
  have t: "tk_type (finalTokens ! 0) = T_OPEN_TAG" "tk_type (finalTokens ! Suc 0) = T_CLASS"
    by (simp_all add: finalTokens_def)
  have a: "parseTokens finalTokens fileKey (0, idx) = parseTokens finalTokens fileKey (1, idx)"
    for fileKey idx
    by (subst parseTokens.simps) (simp add: t final_length)
  have b: "parseTokens finalTokens fileKey (1, idx) =
      parseTokens finalTokens fileKey (parseClass idx finalTokens 1 fileKey)" for fileKey idx
    by (subst parseTokens.simps) (simp add: t final_length)
  have d: "parseTokens finalTokens fileKey (13, x) = x" for fileKey x
    by (subst parseTokens.simps) (simp add: final_length)
  show ?thesis
    unfolding firstFile_started finalTokens_lexed a b final_class d by (rule refl)
qed

lemma final_before:
  "modifiersAmong (tokensBefore finalTokens 6) = {Final}"
  "modifiersAmong (contiguousModifiers finalTokens 6) = {}"
  by (auto simp: finalTokens_def tokensBefore_def contiguousModifiers_def modifiersAmong_def
      List.map_filter_simps modifierOfToken_def eval_nat_numeral)

lemma final_insideA:
  "ix_currentClass (classStored firstFile finalTokens 1 (str ''a.php'') (str ''A'') [] []) = Some 0"
  by (simp add: classStored_def Let_def firstFile_def newIndexer_def updateFile_def)

text \<open>
  C9, as stated, fails: in \<open>class A { final /*c*/ function f(){} }\<close> no modifier token
  comes immediately before the keyword \<open>function\<close>, the token before it is a comment,
  so the specified set is public alone; the backward scan of \<open>parseFunction\<close> stops only
  at a single-character token, passes the comment, and stores final and public.
\<close>

theorem parseFunction_modifiers_counterexample:
  "(\<exists>fd. map_of (cd_methods (ix_heap
            (processPhpFile newIndexer (str ''a.php'')
               (Some (str ''<?php class A { final /*c*/ function f(){} }''))) 0)) (str ''f'')
          = Some fd
        \<and> fn_modifiers fd = {Final, Public})
   \<and> tk_type (tokenize (str ''<?php class A { final /*c*/ function f(){} }'') ! 6) = T_FUNCTION
   \<and> modifiers_as_specified
         (tokenize (str ''<?php class A { final /*c*/ function f(){} }'')) 6 = {Public}"
proof -
  let ?s = "classStored firstFile finalTokens 1 (str ''a.php'') (str ''A'') [] []"
  have n: "scanWhile isIgnorable finalTokens (6 + 1) < length finalTokens"
    "tk_type (finalTokens ! scanWhile isIgnorable finalTokens (6 + 1)) = T_STRING"
    by (simp_all add: final_named final_length)
  have l: "(6::nat) \<le> length finalTokens" by (simp add: final_length)
  from parseFunction_named [OF n, of ?s "str ''a.php''"] obtain fd where
    m: "fn_modifiers fd = defaultPublic (functionModifiersBack finalTokens 6 {})"
    and st: "storedFunction ?s (snd (parseFunction ?s finalTokens 6 (str ''a.php'')))
         (tk_value (finalTokens ! scanWhile isIgnorable finalTokens (6 + 1))) = Some fd"
    by blast
  from st have "map_of (cd_methods (ix_heap
            (snd (parseFunction ?s finalTokens 6 (str ''a.php''))) 0)) (str ''f'') = Some fd"
    unfolding storedFunction_def final_insideA final_named option.case .
  moreover from m have "fn_modifiers fd = {Final, Public}"
    by (auto simp: functionModifiersBack_eq [OF l] final_before defaultPublic_def)
  ultimately have "\<exists>fd. map_of (cd_methods (ix_heap
            (snd (parseFunction ?s finalTokens 6 (str ''a.php''))) 0)) (str ''f'') = Some fd
        \<and> fn_modifiers fd = {Final, Public}"
    by blast
  moreover have "tk_type (finalTokens ! 6) = T_FUNCTION"
    by (simp add: finalTokens_def)
  moreover have "modifiers_as_specified finalTokens 6 = {Public}"
    by (simp add: modifiers_as_specified_def final_before)
  ultimately show ?thesis
    unfolding final_parsed finalTokens_lexed by simp
qed

text \<open>
  C9, amended: when a named function or method declaration is parsed, its stored
  modifier set consists of the modifier keywords (public, protected, private, static,
  abstract, final) among all the tokens between the nearest preceding single-character
  token, or the start of the token stream, and the \<open>function\<close> keyword, and it
  additionally contains public whenever none of public, protected, private is among
  them.
\<close>

theorem parseFunction_modifiers:
  assumes "start < length tokens"
    and "scanWhile isIgnorable tokens (start + 1) < length tokens"
    and "tk_type (tokens ! scanWhile isIgnorable tokens (start + 1)) = T_STRING"
  shows "\<exists>fd. storedFunction idx (snd (parseFunction idx tokens start fileKey))
                 (tk_value (tokens ! scanWhile isIgnorable tokens (start + 1))) = Some fd
    \<and> fn_modifiers fd =
        (let ms = modifiersAmong (tokensBefore tokens start)
         in if Public \<notin> ms \<and> Protected \<notin> ms \<and> Private \<notin> ms then insert Public ms else ms)"
proof -
  from assms(1) have l: "start \<le> length tokens" by simp
  from parseFunction_named [OF assms(2,3), of idx fileKey] show ?thesis
    by (auto simp: functionModifiersBack_eq [OF l] defaultPublic_def Let_def)
qed

theorem parseFunction_modifiers_witness:
  "\<exists>fd. storedFunction
            (classStored firstFile finalTokens 1 (str ''a.php'') (str ''A'') [] [])
            (snd (parseFunction
                    (classStored firstFile finalTokens 1 (str ''a.php'') (str ''A'') [] [])
                    finalTokens 6 (str ''a.php''))) (str ''f'')
          = Some fd
        \<and> fn_modifiers fd = {Final, Public}"
proof -
  have s: "(6::nat) < length finalTokens" by (simp add: final_length)
  have n: "scanWhile isIgnorable finalTokens (6 + 1) < length finalTokens"
    "tk_type (finalTokens ! scanWhile isIgnorable finalTokens (6 + 1)) = T_STRING"
    by (simp_all add: final_named final_length)
  from parseFunction_modifiers [OF s n,
      of "classStored firstFile finalTokens 1 (str ''a.php'') (str ''A'') [] []" "str ''a.php''"]
  show ?thesis
    by (auto simp: final_named final_before)
qed

section \<open>The maps of interfaces and traits\<close>

lemma declarations_updateFile:
  assumes "\<And>fd. fd_classes (f fd) = fd_classes fd"
  shows "declarations (updateFile fileKey f idx) = declarations idx"
proof -
  have "map_option fd_classes (map_of (AList.map_entry fileKey f (ix_fileIndex idx)) k)
      = map_option fd_classes (map_of (ix_fileIndex idx) k)" for k
    by (cases "map_of (ix_fileIndex idx) fileKey") (simp_all add: map_of_map_entry assms)
  then show ?thesis by (simp add: declarations_def updateFile_def)
qed

lemma declarations_updateClass:
  assumes "\<And>cd. cd_type (f cd) = cd_type cd"
  shows "declarations (updateClass a f idx) = declarations idx"
  by (auto simp: declarations_def updateClass_def assms)

lemma declarations_fields:
  "declarations (idx\<lparr>ix_lastDocComment := d\<rparr>) = declarations idx"
  "declarations (idx\<lparr>ix_functions := fs\<rparr>) = declarations idx"
  "declarations (idx\<lparr>ix_currentNamespace := ns\<rparr>) = declarations idx"
  "declarations (idx\<lparr>ix_namespaces := nss\<rparr>) = declarations idx"
  "declarations (idx\<lparr>ix_currentClass := c\<rparr>) = declarations idx"
  "declarations (idx\<lparr>ix_currentFile := p\<rparr>) = declarations idx"
  "declarations (idx\<lparr>ix_totalFiles := n\<rparr>) = declarations idx"
  "declarations (idx\<lparr>ix_processedFiles := n\<rparr>) = declarations idx"
  by (simp_all add: declarations_def)

lemma declarations_parseFunction:
  "declarations (snd (parseFunction idx tokens start fileKey)) = declarations idx"
  unfolding parseFunction_def Let_def
  by (cases "ix_currentClass idx")
    (simp_all add: case_prod_beta declarations_fields declarations_updateFile
      declarations_updateClass)

lemma declarations_propertyStep:
  "declarations (snd (snd (propertyStep tokens modifiers i idx))) = declarations idx"
  unfolding propertyStep_def Let_def storeProperty_def
  by (cases "ix_currentClass idx") (simp_all add: declarations_updateClass)

lemma declarations_propertyLoop:
  "declarations (snd (propertyLoop tokens modifiers (i, idx))) = declarations idx"
proof (induction tokens modifiers "(i, idx)" arbitrary: i idx rule: propertyLoop.induct)
  case (1 tokens modifiers i idx)
  note e = propertyLoop.simps [of tokens modifiers i idx]
  obtain g i' idx' where s: "propertyStep tokens modifiers i idx = (g, i', idx')"
    by (cases "propertyStep tokens modifiers i idx") auto
  from declarations_propertyStep [of tokens modifiers i idx]
  have d: "declarations idx' = declarations idx" unfolding s by simp
  show ?case
  proof (cases "i < length tokens \<and> g")
    case True
    with 1 [OF _ s [symmetric] refl] d show ?thesis unfolding e s by simp
  next
    case False
    with d show ?thesis unfolding e s by auto
  qed
qed

lemma declarations_parseProperty:
  "declarations (snd (parseProperty idx tokens start fileKey)) = declarations idx"
proof -
  have c: "declarations (storeConstant n v m l idx) = declarations idx" for n v m l
    unfolding storeConstant_def
    by (cases "ix_currentClass idx") (simp_all add: declarations_updateClass)
  show ?thesis
    unfolding parseProperty_def Let_def
    by (simp add: case_prod_beta declarations_fields c declarations_propertyLoop)
qed

lemma declarations_classBodyLoop:
  "declarations (snd (classBodyLoop tokens fileKey (i, braceDepth, idx))) = declarations idx"
proof (induction tokens fileKey "(i, braceDepth, idx)" arbitrary: i braceDepth idx
    rule: classBodyLoop.induct)
  case (1 tokens fileKey i braceDepth idx)
  note e = classBodyLoop.simps [of tokens fileKey i braceDepth idx]
  show ?case
  proof (cases "i < length tokens \<and> braceDepth > 0")
    case False
    then show ?thesis unfolding e by auto
  next
    case True
    from 1 [OF True] True show ?thesis
      unfolding e
      by (auto simp: declarations_fields declarations_parseFunction declarations_parseProperty
          split: if_splits)
  qed
qed

lemma otherMaps_declarations:
  "declarations idx' = declarations idx \<Longrightarrow> otherMaps idx' = otherMaps idx"
  by (simp add: declarations_def otherMaps_def)

lemma parseClass_unnamed:
  assumes "\<not> (scanWhile isSpaceOrAnyComment tokens (start + 1) < length tokens
      \<and> tk_type (tokens ! scanWhile isSpaceOrAnyComment tokens (start + 1)) = T_STRING)"
  shows "snd (parseClass idx tokens start fileKey) = idx"
  using assms unfolding parseClass_def Let_def by auto

lemma parseClass_named:
  assumes "scanWhile isSpaceOrAnyComment tokens (start + 1) < length tokens"
    and "tk_type (tokens ! scanWhile isSpaceOrAnyComment tokens (start + 1)) = T_STRING"
  shows "\<exists>extendsClass implementsInterfaces.
     declarations (snd (parseClass idx tokens start fileKey)) =
     declarations (classStored idx tokens start fileKey
        (tk_value (tokens ! scanWhile isSpaceOrAnyComment tokens (start + 1)))
        extendsClass implementsInterfaces)"
proof -
  define a where "a = scanWhile isSpaceOrAnyComment tokens (start + 1)"
  obtain j ex im where h: "classHeaderLoop tokens (a + 1) ([], []) = (j, ex, im)"
    by (cases "classHeaderLoop tokens (a + 1) ([], [])") auto
  let ?s = "classStored idx tokens start fileKey (tk_value (tokens ! a)) ex im"
  have b: "declarations (snd (classBodyLoop tokens fileKey (j + 1, 1, x))\<lparr>ix_currentClass := None\<rparr>)
      = declarations x" for x
    by (simp add: declarations_fields declarations_classBodyLoop)
  have "snd (parseClass idx tokens start fileKey) =
      (if j \<ge> length tokens \<or> tk_value (tokens ! j) \<noteq> str ''{'' then ?s
       else (snd (classBodyLoop tokens fileKey (j + 1, 1, ?s)))\<lparr>ix_currentClass := None\<rparr>)"
    using assms
    unfolding parseClass_def classStored_def Let_def a_def [symmetric] h
    by (simp add: case_prod_beta)
  then have "declarations (snd (parseClass idx tokens start fileKey)) = declarations ?s"
    using b [of ?s] by (simp del: One_nat_def)
  then show ?thesis unfolding a_def by blast
qed

lemma declarations_classStored:
  "declarations (classStored idx tokens start fileKey className ex im) =
     (AList.update
        (if ix_currentNamespace idx \<noteq> []
         then ix_currentNamespace idx @ [92] @ className else className)
        (ix_nextAddr idx) (ix_classes idx),
      ix_interfaces idx, ix_traits idx,
      (\<lambda>k. map_option fd_classes (map_of (ix_fileIndex idx) k))
        (fileKey := map_option (\<lambda>fd. AList.update className (ix_nextAddr idx) (fd_classes fd))
                      (map_of (ix_fileIndex idx) fileKey)),
      (\<lambda>a. cd_type (ix_heap idx a))(ix_nextAddr idx := toLowerCase (tk_value (tokens ! start))))"
  unfolding classStored_def declarations_def Let_def updateFile_def
  by (cases "map_of (ix_fileIndex idx) fileKey")
    (auto simp: map_of_map_entry fun_eq_iff)

lemma otherMaps_parseClass:
  "otherMaps (snd (parseClass idx tokens start fileKey)) = otherMaps idx"
proof (cases "scanWhile isSpaceOrAnyComment tokens (start + 1) < length tokens
      \<and> tk_type (tokens ! scanWhile isSpaceOrAnyComment tokens (start + 1)) = T_STRING")
  case False
  from parseClass_unnamed [OF False] show ?thesis by simp
next
  case True
  then obtain ex im where
    "declarations (snd (parseClass idx tokens start fileKey)) =
     declarations (classStored idx tokens start fileKey
        (tk_value (tokens ! scanWhile isSpaceOrAnyComment tokens (start + 1))) ex im)"
    using parseClass_named [of tokens start idx fileKey] by blast
  then have "otherMaps (snd (parseClass idx tokens start fileKey)) =
     otherMaps (classStored idx tokens start fileKey
        (tk_value (tokens ! scanWhile isSpaceOrAnyComment tokens (start + 1))) ex im)"
    by (rule otherMaps_declarations)
  also have "\<dots> = otherMaps idx"
    by (simp add: otherMaps_def classStored_def Let_def updateFile_def)
  finally show ?thesis .
qed

lemma otherMaps_parseNamespace:
  "otherMaps (snd (parseNamespace idx tokens start fileKey)) = otherMaps idx"
  by (simp add: parseNamespace_def Let_def otherMaps_def updateFile_def)

lemma otherMaps_parseUse:
  "otherMaps (snd (parseUse idx tokens start fileKey)) = otherMaps idx"
  by (simp add: parseUse_def Let_def otherMaps_def updateFile_def case_prod_beta)

lemma otherMaps_parseFunction:
  "otherMaps (snd (parseFunction idx tokens start fileKey)) = otherMaps idx"
  by (rule otherMaps_declarations) (rule declarations_parseFunction)

lemma otherMaps_parseTokens:
  "otherMaps (parseTokens tokens fileKey (i, idx)) = otherMaps idx"
proof (induction tokens fileKey "(i, idx)" arbitrary: i idx rule: parseTokens.induct)
  case (1 tokens fileKey i idx)
  note e = parseTokens.simps [of tokens fileKey i idx]
  show ?case
  proof (cases "i < length tokens")
    case False
    then show ?thesis unfolding e by simp
  next
    case True
    consider (ns) "tk_type (tokens ! i) = T_NAMESPACE"
      | (use) "tk_type (tokens ! i) \<noteq> T_NAMESPACE" "tk_type (tokens ! i) = T_USE"
      | (cls) "tk_type (tokens ! i) \<noteq> T_NAMESPACE" "tk_type (tokens ! i) \<noteq> T_USE"
          "tk_type (tokens ! i) \<in> {T_CLASS, T_INTERFACE, T_TRAIT}"
      | (fn) "tk_type (tokens ! i) \<noteq> T_NAMESPACE" "tk_type (tokens ! i) \<noteq> T_USE"
          "tk_type (tokens ! i) \<notin> {T_CLASS, T_INTERFACE, T_TRAIT}"
          "tk_type (tokens ! i) = T_FUNCTION"
      | (doc) "tk_type (tokens ! i) \<noteq> T_NAMESPACE" "tk_type (tokens ! i) \<noteq> T_USE"
          "tk_type (tokens ! i) \<notin> {T_CLASS, T_INTERFACE, T_TRAIT}"
          "tk_type (tokens ! i) \<noteq> T_FUNCTION" "tk_type (tokens ! i) = T_DOC_COMMENT"
      | (other) "tk_type (tokens ! i) \<noteq> T_NAMESPACE" "tk_type (tokens ! i) \<noteq> T_USE"
          "tk_type (tokens ! i) \<notin> {T_CLASS, T_INTERFACE, T_TRAIT}"
          "tk_type (tokens ! i) \<noteq> T_FUNCTION" "tk_type (tokens ! i) \<noteq> T_DOC_COMMENT"
      by blast
    then show ?thesis
    proof cases
      case ns
      obtain i' idx' where q: "parseNamespace idx tokens i fileKey = (i', idx')"
        by (cases "parseNamespace idx tokens i fileKey") auto
      from 1(1) True ns q
      have "otherMaps (parseTokens tokens fileKey (i', idx')) = otherMaps idx'" by auto
      moreover from otherMaps_parseNamespace [of idx tokens i fileKey] q
      have "otherMaps idx' = otherMaps idx" by simp
      ultimately show ?thesis using True ns unfolding e q by simp
    next
      case use
      obtain i' idx' where q: "parseUse idx tokens i fileKey = (i', idx')"
        by (cases "parseUse idx tokens i fileKey") auto
      from 1(2) True use q
      have "otherMaps (parseTokens tokens fileKey (i', idx')) = otherMaps idx'" by auto
      moreover from otherMaps_parseUse [of idx tokens i fileKey] q
      have "otherMaps idx' = otherMaps idx" by simp
      ultimately show ?thesis using True use unfolding e q by simp
    next
      case cls
      obtain i' idx' where q: "parseClass idx tokens i fileKey = (i', idx')"
        by (cases "parseClass idx tokens i fileKey") auto
      from 1(3) True cls q
      have "otherMaps (parseTokens tokens fileKey (i', idx')) = otherMaps idx'" by auto
      moreover from otherMaps_parseClass [of idx tokens i fileKey] q
      have "otherMaps idx' = otherMaps idx" by simp
      ultimately show ?thesis using True cls unfolding e q by simp
    next
      case fn
      obtain i' idx' where q: "parseFunction idx tokens i fileKey = (i', idx')"
        by (cases "parseFunction idx tokens i fileKey") auto
      from 1(4) True fn q
      have "otherMaps (parseTokens tokens fileKey (i', idx')) = otherMaps idx'" by auto
      moreover from otherMaps_parseFunction [of idx tokens i fileKey] q
      have "otherMaps idx' = otherMaps idx" by simp
      ultimately show ?thesis using True fn unfolding e q by simp
    next
      case doc
      from 1(5) [OF True doc] True doc show ?thesis
        unfolding e by (simp add: otherMaps_def)
    next
      case other
      from 1(6) [OF True other] True other show ?thesis
        unfolding e by simp
    qed
  qed
qed

lemma otherMaps_processPhpFile:
  "otherMaps (processPhpFile idx filePath content) = otherMaps idx"
proof (cases content)
  case None
  then show ?thesis by (simp add: processPhpFile_def)
next
  case (Some c)
  show ?thesis
    unfolding processPhpFile_def Some Let_def option.case otherMaps_parseTokens
    by (simp add: otherMaps_def)
qed

lemma indexAfter_simps:
  "indexAfter (Inr idx) = idx"
  "indexAfter (Inl (RangeError idx)) = idx"
  by (simp_all add: indexAfter_def)

lemma otherMaps_resolve:
  "otherMaps (indexAfter (resolveInheritance depth idx c)) = otherMaps idx"
  "otherMaps (indexAfter (resolveParents depth idx c ps)) = otherMaps idx"
proof (induction depth idx c and depth idx c ps rule: resolveInheritance_resolveParents.induct)
  case (1 idx classData)
  show ?case by (simp add: indexAfter_simps)
next
  case (2 depth idx classData)
  show ?case
  proof (cases "cd_inheritanceResolved (ix_heap idx classData)")
    case True
    then show ?thesis by (simp add: indexAfter_simps)
  next
    case False
    from 2 [OF False] False show ?thesis
      by (cases "resolveParents depth idx classData (cd_extends (ix_heap idx classData))")
        (simp_all add: indexAfter_simps otherMaps_def)
  qed
next
  case (3 depth idx classData)
  show ?case by (simp add: indexAfter_simps)
next
  case (4 depth idx classData parentName rest)
  show ?case
  proof (cases "resolveClassName idx parentName (ix_heap idx classData)")
    case None
    with 4(1) show ?thesis by simp
  next
    case (Some parentClass)
    show ?thesis
    proof (cases "resolveInheritance depth idx parentClass")
      case (Inl e)
      with 4(2) [OF Some] Some show ?thesis by simp
    next
      case (Inr idx')
      from 4(2) [OF Some] Inr have a: "otherMaps idx' = otherMaps idx"
        by (simp add: indexAfter_simps)
      have b: "otherMaps (inheritFrom idx' classData parentClass) = otherMaps idx'"
        by (simp add: inheritFrom_def Let_def otherMaps_def)
      from 4(3) [OF Some Inr] a b Some Inr show ?thesis by simp
    qed
  qed
qed

lemma otherMaps_resolveAll:
  "otherMaps (indexAfter (resolveAll depth idx cs)) = otherMaps idx"
proof (induction cs arbitrary: idx)
  case Nil
  show ?case by (simp add: indexAfter_simps)
next
  case (Cons c cs)
  show ?case
  proof (cases "resolveInheritance depth idx c")
    case (Inl e)
    with otherMaps_resolve(1) [of depth idx c] show ?thesis by simp
  next
    case (Inr idx')
    with otherMaps_resolve(1) [of depth idx c] Cons [of idx'] show ?thesis
      by (simp add: indexAfter_simps)
  qed
qed

lemma otherMaps_postProcessIndex:
  "otherMaps (indexAfter (postProcessIndex depth idx)) = otherMaps idx"
  unfolding postProcessIndex_def by (rule otherMaps_resolveAll)

lemma otherMaps_files:
  "otherMaps (foldl (\<lambda>idx (filePath, content). processPhpFile idx filePath content) idx files)
     = otherMaps idx"
  by (induction files arbitrary: idx) (simp_all add: case_prod_beta otherMaps_processPhpFile)

lemma otherMaps_indexPhpFiles:
  "otherMaps (indexAfter (indexPhpFiles depth idx files)) = ([], [])"
  unfolding indexPhpFiles_def Let_def otherMaps_postProcessIndex
  by (simp add: otherMaps_def [of "_\<lparr>ix_processedFiles := _\<rparr>"]
      otherMaps_files [unfolded otherMaps_def, simplified] clearIndex_def)

lemma otherMaps_perform:
  "otherMaps idx = ([], []) \<Longrightarrow> otherMaps (perform idx operation) = ([], [])"
  by (cases operation)
    (simp_all add: otherMaps_processPhpFile otherMaps_postProcessIndex otherMaps_indexPhpFiles,
      simp add: otherMaps_def clearIndex_def)

lemma otherMaps_afterOperations: "otherMaps (afterOperations operations) = ([], [])"
proof -
  have "otherMaps idx = ([], []) \<Longrightarrow> otherMaps (foldl perform idx operations) = ([], [])"
    for idx
    by (induction operations arbitrary: idx) (simp_all add: otherMaps_perform)
  then show ?thesis
    unfolding afterOperations_def by (simp add: otherMaps_def newIndexer_def)
qed

lemma interfaceTokens_lexed: "tokenize (str ''<?php interface K {}'') = interfaceTokens"
  by (simp add: lexer_eval interfaceTokens_def)

text \<open>
  C10: no operation writes the maps \<open>interfaces\<close> and \<open>traits\<close>. \<open>parseClass\<close>, for a
  declaration with a name, whatever its keyword, stores the new class object under the
  qualified name in \<open>classes\<close> and under the name in the \<open>classes\<close> of the file
  record, with the lower-cased keyword as its kind, and leaves \<open>interfaces\<close> and
  \<open>traits\<close> as they are; after every sequence of operations on a new indexer both
  maps are empty, and \<open>getStatistics\<close> reports 0 interfaces and 0 traits.
\<close>

theorem interfaces_traits_unwritten:
  assumes "scanWhile isSpaceOrAnyComment tokens (start + 1) < length tokens"
    and "tk_type (tokens ! scanWhile isSpaceOrAnyComment tokens (start + 1)) = T_STRING"
    and "map_of (ix_fileIndex idx) fileKey = Some fileData"
  shows
    "(let className = tk_value (tokens ! scanWhile isSpaceOrAnyComment tokens (start + 1));
          fullClassName =
            (if ix_currentNamespace idx \<noteq> []
             then ix_currentNamespace idx @ [92] @ className else className);
          classDefinition = ix_nextAddr idx;
          after = snd (parseClass idx tokens start fileKey)
      in map_of (ix_classes after) fullClassName = Some classDefinition
         \<and> map_option (\<lambda>fileData. map_of (fd_classes fileData) className)
              (map_of (ix_fileIndex after) fileKey) = Some (Some classDefinition)
         \<and> cd_type (ix_heap after classDefinition) = toLowerCase (tk_value (tokens ! start))
         \<and> ix_interfaces after = ix_interfaces idx \<and> ix_traits after = ix_traits idx)
     \<and> ix_interfaces (afterOperations operations) = []
     \<and> ix_traits (afterOperations operations) = []
     \<and> st_interfaces (getStatistics (afterOperations operations)) = 0
     \<and> st_traits (getStatistics (afterOperations operations)) = 0"
proof -
  let ?n = "tk_value (tokens ! scanWhile isSpaceOrAnyComment tokens (start + 1))"
  let ?after = "snd (parseClass idx tokens start fileKey)"
  from parseClass_named [OF assms(1,2), of idx fileKey] obtain ex im where
    "declarations ?after = declarations (classStored idx tokens start fileKey ?n ex im)"
    by blast
  then have d: "declarations ?after =
     (AList.update
        (if ix_currentNamespace idx \<noteq> []
         then ix_currentNamespace idx @ [92] @ ?n else ?n)
        (ix_nextAddr idx) (ix_classes idx),
      ix_interfaces idx, ix_traits idx,
      (\<lambda>k. map_option fd_classes (map_of (ix_fileIndex idx) k))
        (fileKey := map_option (\<lambda>fd. AList.update ?n (ix_nextAddr idx) (fd_classes fd))
                      (map_of (ix_fileIndex idx) fileKey)),
      (\<lambda>a. cd_type (ix_heap idx a))(ix_nextAddr idx := toLowerCase (tk_value (tokens ! start))))"
    by (simp only: declarations_classStored)
  from d have c: "ix_classes ?after = AList.update
        (if ix_currentNamespace idx \<noteq> []
         then ix_currentNamespace idx @ [92] @ ?n else ?n)
        (ix_nextAddr idx) (ix_classes idx)"
    and i: "ix_interfaces ?after = ix_interfaces idx"
    and t: "ix_traits ?after = ix_traits idx"
    and f: "(\<lambda>k. map_option fd_classes (map_of (ix_fileIndex ?after) k)) =
      (\<lambda>k. map_option fd_classes (map_of (ix_fileIndex idx) k))
        (fileKey := map_option (\<lambda>fd. AList.update ?n (ix_nextAddr idx) (fd_classes fd))
                      (map_of (ix_fileIndex idx) fileKey))"
    and h: "(\<lambda>a. cd_type (ix_heap ?after a)) =
      (\<lambda>a. cd_type (ix_heap idx a))(ix_nextAddr idx := toLowerCase (tk_value (tokens ! start)))"
    unfolding declarations_def by simp_all
  from fun_cong [OF f, of fileKey] assms(3)
  have f': "map_option (\<lambda>fileData. map_of (fd_classes fileData) ?n)
              (map_of (ix_fileIndex ?after) fileKey) = Some (Some (ix_nextAddr idx))"
    by (cases "map_of (ix_fileIndex ?after) fileKey") (auto simp: update_conv')
  from fun_cong [OF h, of "ix_nextAddr idx"]
  have h': "cd_type (ix_heap ?after (ix_nextAddr idx)) = toLowerCase (tk_value (tokens ! start))"
    by simp
  from otherMaps_afterOperations [of operations]
  have o: "ix_interfaces (afterOperations operations) = []"
    "ix_traits (afterOperations operations) = []"
    by (simp_all add: otherMaps_def)
  have s: "st_interfaces (getStatistics (afterOperations operations)) = 0"
    "st_traits (getStatistics (afterOperations operations)) = 0"
    by (simp_all add: getStatistics_def o)
  from c i t f' h' o s show ?thesis
    unfolding Let_def by (simp add: update_conv')
qed

theorem interfaces_traits_unwritten_witness:
  "map_of (ix_classes (snd (parseClass firstFile interfaceTokens 1 (str ''a.php''))))
     (str ''K'') = Some 0
   \<and> cd_type (ix_heap (snd (parseClass firstFile interfaceTokens 1 (str ''a.php''))) 0)
       = str ''interface''
   \<and> ix_interfaces (snd (parseClass firstFile interfaceTokens 1 (str ''a.php''))) = []
   \<and> st_interfaces (getStatistics (afterOperations
         [IndexPhpFiles 100 [(str ''a.php'', Some (str ''<?php interface K {}''))]])) = 0
   \<and> st_traits (getStatistics (afterOperations
         [IndexPhpFiles 100 [(str ''a.php'', Some (str ''<?php interface K {}''))]])) = 0"
proof -
  have n: "scanWhile isSpaceOrAnyComment interfaceTokens (1 + 1) < length interfaceTokens"
    "tk_type (interfaceTokens ! scanWhile isSpaceOrAnyComment interfaceTokens (1 + 1)) = T_STRING"
    by (simp_all add: interfaceTokens_def scanWhile.simps isSpaceOrAnyComment_def)
  have v: "tk_value (interfaceTokens ! scanWhile isSpaceOrAnyComment interfaceTokens (1 + 1))
      = str ''K''" "toLowerCase (tk_value (interfaceTokens ! 1)) = str ''interface''"
    by (simp_all add: interfaceTokens_def scanWhile.simps isSpaceOrAnyComment_def
        toLowerCase_def lowerChar_def str_def)
  have f: "map_of (ix_fileIndex firstFile) (str ''a.php'') =
      Some \<lparr>fd_path = str ''a.php'', fd_namespace = [], fd_uses = [], fd_classes = [],
            fd_functions = []\<rparr>"
    by (simp add: firstFile_def)
  have s: "ix_currentNamespace firstFile = []" "ix_nextAddr firstFile = 0"
    "ix_interfaces firstFile = []"
    by (simp_all add: firstFile_def newIndexer_def)
  from interfaces_traits_unwritten [OF n f,
      of "[IndexPhpFiles 100 [(str ''a.php'', Some (str ''<?php interface K {}''))]]"]
  show ?thesis
    unfolding Let_def v s by simp
qed

section \<open>The query after the scope operator\<close>

lemma utilIndex_methods:
  "ix_classes utilIndex = [(str ''Util'', 0)]"
  "cd_methods (ix_heap utilIndex 0) = [exampleMethod (str ''make'') {Public, Static} (str ''Util'')]"
  by (simp_all add: utilIndex_def newIndexer_def)

lemma make_matches: "startsWith (toLowerCase (str ''make'')) (toLowerCase (str ''ma''))"
  by (simp add: startsWith_def toLowerCase_def lowerChar_def str_def)

text \<open>
  C3: for every prefix and every context, \<open>getStaticMethodCompletions\<close> returns the
  empty list, because \<open>inferClassContext\<close> returns null for every context and the
  query has no branch for that case; \<open>getMethodCompletions\<close> has one, and for the
  index of a class \<open>Util\<close> with a public static method \<open>make\<close> and the prefix \<open>ma\<close>
  it returns the item \<open>make\<close>.
\<close>

theorem getStaticMethodCompletions_empty:
  "fst (getStaticMethodCompletions lower lc idx prefix context) = []
   \<and> inferClassContext context = None
   \<and> map ci_caption (fst (getMethodCompletions toLowerCase lc utilIndex (str ''ma'') context))
       = [str ''make'']"
proof -
  have "fst (getStaticMethodCompletions lower lc idx prefix context) = []"
    unfolding getStaticMethodCompletions_def inferClassContext_def Let_def
    by (simp add: sortCompletions_def array_sort_def)
  moreover have "inferClassContext context = None"
    by (simp add: inferClassContext_def)
  moreover have "map ci_caption (fst (getMethodCompletions toLowerCase lc utilIndex (str ''ma'') context))
       = [str ''make'']"
    unfolding getMethodCompletions_def inferClassContext_def Let_def
    by (simp add: utilIndex_methods collect_def exampleMethod_def make_matches sortCompletions_def array_sort_def
        createMethodCompletion_def Let_def)
  ultimately show ?thesis by blast
qed

theorem getStaticMethodCompletions_empty_witness:
  "fst (getStaticMethodCompletions toLowerCase codeUnitCompare utilIndex (str ''ma'')
          \<lparr>qc_inSameClass = True\<rparr>) = []
   \<and> map ci_caption (fst (getMethodCompletions toLowerCase codeUnitCompare utilIndex (str ''ma'')
          \<lparr>qc_inSameClass = True\<rparr>)) = [str ''make'']"
  using getStaticMethodCompletions_empty
    [of toLowerCase codeUnitCompare utilIndex "str ''ma''" "\<lparr>qc_inSameClass = True\<rparr>"]
  by simp

section \<open>The example of the cyclic chain as the parser builds it\<close>

lemma cyclicTokens_lexed:
  "tokenize (str ''<?php class A extends B {} class B extends A {}'') = cyclicTokens"
  by (simp add: lexer_eval cyclicTokens_def)

lemma cyclic_length: "length cyclicTokens = 13" by (simp add: cyclicTokens_def)

lemma cyclic_class_A:
  "parseClass idx cyclicTokens 1 fileKey =
     (7, (classStored idx cyclicTokens 1 fileKey (str ''A'') [str ''B''] [])
           \<lparr>ix_currentClass := None\<rparr>)"
proof -
  have n: "scanWhile isSpaceOrAnyComment cyclicTokens (1 + 1) = 2"
    by (simp add: scanWhile.simps cyclicTokens_def isSpaceOrAnyComment_def)
  have t: "tk_type (cyclicTokens ! 2) = T_STRING" "tk_value (cyclicTokens ! 2) = str ''A''"
    "tk_value (cyclicTokens ! 5) = str ''{''"
    by (simp_all add: cyclicTokens_def)
  have h: "classHeaderLoop cyclicTokens (2 + 1) ([], []) = (5, [str ''B''], [])"
    by (simp add: classHeaderLoop.simps scanWhile.simps cyclicTokens_def isSpaceToken_def str_def)
  have b: "classBodyLoop cyclicTokens fileKey (5 + 1, 1, x) = (7, x)" for x
    by (simp add: classBodyLoop.simps cyclicTokens_def str_def)
  show ?thesis
    unfolding parseClass_def classStored_def Let_def n h prod.case t b cyclic_length
    by simp
qed

lemma cyclic_class_B:
  "parseClass idx cyclicTokens 7 fileKey =
     (13, (classStored idx cyclicTokens 7 fileKey (str ''B'') [str ''A''] [])
           \<lparr>ix_currentClass := None\<rparr>)"
proof -
  have n: "scanWhile isSpaceOrAnyComment cyclicTokens (7 + 1) = 8"
    by (simp add: scanWhile.simps cyclicTokens_def isSpaceOrAnyComment_def)
  have t: "tk_type (cyclicTokens ! 8) = T_STRING" "tk_value (cyclicTokens ! 8) = str ''B''"
    "tk_value (cyclicTokens ! 11) = str ''{''"
    by (simp_all add: cyclicTokens_def)
  have h: "classHeaderLoop cyclicTokens (8 + 1) ([], []) = (11, [str ''A''], [])"
    by (simp add: classHeaderLoop.simps scanWhile.simps cyclicTokens_def isSpaceToken_def str_def)
  have b: "classBodyLoop cyclicTokens fileKey (11 + 1, 1, x) = (13, x)" for x
    by (simp add: classBodyLoop.simps cyclicTokens_def str_def)
  show ?thesis
    unfolding parseClass_def classStored_def Let_def n h prod.case t b cyclic_length
    by simp
qed

lemma cyclic_parseTokens:
  "parseTokens cyclicTokens fileKey (0, idx) =
     (classStored
        ((classStored idx cyclicTokens 1 fileKey (str ''A'') [str ''B''] [])
           \<lparr>ix_currentClass := None\<rparr>)
        cyclicTokens 7 fileKey (str ''B'') [str ''A''] [])\<lparr>ix_currentClass := None\<rparr>"
proof -
  have t: "tk_type (cyclicTokens ! 0) = T_OPEN_TAG" "tk_type (cyclicTokens ! Suc 0) = T_CLASS"
    "tk_type (cyclicTokens ! 7) = T_CLASS"
    by (simp_all add: cyclicTokens_def)
  have a: "parseTokens cyclicTokens fileKey (0, idx) = parseTokens cyclicTokens fileKey (1, idx)"
    by (subst parseTokens.simps) (simp add: t cyclic_length)
  have b: "parseTokens cyclicTokens fileKey (1, idx) =
      parseTokens cyclicTokens fileKey (parseClass idx cyclicTokens 1 fileKey)"
    by (subst parseTokens.simps) (simp add: t cyclic_length)
  have c: "parseTokens cyclicTokens fileKey (7, x) =
      parseTokens cyclicTokens fileKey (parseClass x cyclicTokens 7 fileKey)" for x
    by (subst parseTokens.simps) (simp add: t cyclic_length)
  have d: "parseTokens cyclicTokens fileKey (13, x) = x" for x
    by (subst parseTokens.simps) (simp add: cyclic_length)
  show ?thesis
    unfolding a b cyclic_class_A c cyclic_class_B d by (rule refl)
qed

lemma cyclic_parsed:
  "processPhpFile newIndexer (str ''a.php'')
     (Some (str ''<?php class A extends B {} class B extends A {}'')) = cyclicIndex"
proof -
  have m: "classModifiersBack cyclicTokens 1 {} = {}" "classModifiersBack cyclicTokens 7 {} = {}"
    by (simp_all add: cyclicTokens_def eval_nat_numeral)
  have t: "toLowerCase (tk_value (cyclicTokens ! 1)) = str ''class''"
    "toLowerCase (tk_value (cyclicTokens ! 7)) = str ''class''"
    "tk_line (cyclicTokens ! 1) = 1" "tk_line (cyclicTokens ! 7) = 1"
    by (simp_all add: cyclicTokens_def toLowerCase_def lowerChar_def str_def)
  have k: "normalizeFilePath (str ''a.php'') = str ''a.php''"
    by (simp add: normalizeFilePath_def str_def)
  show ?thesis
    unfolding processPhpFile_def option.case Let_def cyclicTokens_lexed cyclic_parseTokens k
      classStored_def m t
    by (simp add: cyclicIndex_def updateFile_def newIndexer_def exampleClass_def exampleFile_def
        blankClass_def str_def)
qed

end
